(* ===== verification/Encoding.thy ===== *)
theory Encoding
  imports Prelude
begin

text \<open>
  The crate \<open>bitwarden-encoding\<close>: \<open>chunked.rs\<close>, \<open>b64.rs\<close> and \<open>b64url.rs\<close>.  The encoders and
  decoders of the \<open>data_encoding\<close> crate are parameters: \<open>encoder_output\<close> is what a streaming
  encoder writes when it is given a sequence of chunks, \<open>permissive_decode\<close> is the decoder of
  the two permissive encodings the source declares.  \<open>b64_lib_ok\<close> and \<open>b64url_lib_ok\<close>
  state what that crate documents: the streaming encoder writes the encoding of the
  concatenated input, in the alphabet followed by padding, and decoding the unpadded
  symbols gives the input back.
\<close>


section \<open>Definitions\<close>

record b64_lib =
  encoder_output :: "bytes list \<Rightarrow> string"
  permissive_decode :: "string \<Rightarrow> bytes option"

datatype not_b64_encoded_error = NotB64EncodedError

datatype not_b64url_encoded_error = NotB64UrlEncodedError

definition usize_max :: nat where
  "usize_max = 2 ^ 64 - 1"

definition chunked_encode_with_limit :: "b64_lib \<Rightarrow> bytes \<Rightarrow> nat \<Rightarrow> string" where
  "chunked_encode_with_limit encoding data max_safe = encoder_output encoding (chunks max_safe data)"

definition chunked_encode :: "b64_lib \<Rightarrow> bytes \<Rightarrow> string" where
  "chunked_encode encoding data = chunked_encode_with_limit encoding data (usize_max div 512)"

definition BASE64_PADDING :: char where
  "BASE64_PADDING = CHR ''=''"

definition b64_to_string :: "b64_lib \<Rightarrow> bytes \<Rightarrow> string" where
  "b64_to_string encoding src = chunked_encode encoding src"

definition b64_try_from :: "b64_lib \<Rightarrow> string \<Rightarrow> (bytes, not_b64_encoded_error) result" where
  "b64_try_from encoding value =
     (let sane_string = trim_end_matches BASE64_PADDING value
      in ok_or NotB64EncodedError (permissive_decode encoding sane_string))"

definition b64url_to_string :: "b64_lib \<Rightarrow> bytes \<Rightarrow> string" where
  "b64url_to_string encoding src = chunked_encode encoding src"

definition b64url_try_from :: "b64_lib \<Rightarrow> string \<Rightarrow> (bytes, not_b64url_encoded_error) result" where
  "b64url_try_from encoding value =
     (let sane_string = trim_end_matches BASE64_PADDING value
      in ok_or NotB64UrlEncodedError (permissive_decode encoding sane_string))"

text \<open>The alphabets the source passes to \<open>new_encoding!\<close>.\<close>

definition b64_symbols :: string where
  "b64_symbols = ''ABCDEFGHIJKLMNOPQRSTUVWXYZabcdefghijklmnopqrstuvwxyz0123456789+/''"

definition b64url_symbols :: string where
  "b64url_symbols = ''ABCDEFGHIJKLMNOPQRSTUVWXYZabcdefghijklmnopqrstuvwxyz0123456789-_''"

text \<open>What \<open>data_encoding\<close> documents about an encoding over an alphabet.\<close>

definition encodes_over :: "string \<Rightarrow> b64_lib \<Rightarrow> bool" where
  "encodes_over symbols encoding \<longleftrightarrow>
     (\<forall>cs. \<exists>core n. encoder_output encoding cs = core @ replicate n BASE64_PADDING
        \<and> set core \<subseteq> set symbols
        \<and> permissive_decode encoding core = Some (concat cs))"

definition b64_lib_ok :: "b64_lib \<Rightarrow> bool" where
  "b64_lib_ok encoding \<longleftrightarrow> encodes_over b64_symbols encoding"

definition b64url_lib_ok :: "b64_lib \<Rightarrow> bool" where
  "b64url_lib_ok encoding \<longleftrightarrow> encodes_over b64url_symbols encoding"


section \<open>A text codec: what the string formats rely on\<close>

text \<open>
  A text codec writes bytes with characters of an alphabet and reads them back.  The
  conditions on the external encoding are the predicate \<open>lib_ok\<close>.  Formats that put several
  encoded parts behind each other with a separator need the separator outside the alphabet.
\<close>

locale text_codec =
  fixes lib_ok :: "'l \<Rightarrow> bool"
    and show_text :: "'l \<Rightarrow> bytes \<Rightarrow> string"
    and read_text :: "'l \<Rightarrow> string \<Rightarrow> (bytes, 'e) result"
    and letters :: "char set"
  assumes read_show: "lib_ok l \<Longrightarrow> read_text l (show_text l b) = Ok b"
    and show_letters: "lib_ok l \<Longrightarrow> set (show_text l b) \<subseteq> letters"
begin

lemma show_inj:
  assumes "lib_ok l" and "show_text l a = show_text l b"
  shows "a = b"
proof -
  have "Ok a = read_text l (show_text l b)" using read_show [OF assms(1), of a] assms(2) by simp
  also have "\<dots> = Ok b" by (rule read_show [OF assms(1)])
  finally show ?thesis by simp
qed

lemma sep_notin_show: "lib_ok l \<Longrightarrow> c \<notin> letters \<Longrightarrow> c \<notin> set (show_text l b)"
  using show_letters [of l b] by auto

lemma split_shown_parts:
  assumes "lib_ok l" and "c \<notin> letters" and "bs \<noteq> []"
  shows "split_on c (join [c] (map (show_text l) bs)) = map (show_text l) bs"
  using assms by (intro split_on_join) (auto simp: sep_notin_show)

lemma read_shown_parts:
  "lib_ok l \<Longrightarrow> collect_results (map (read_text l) (map (show_text l) bs)) = Ok bs"
  by (simp add: collect_results_Ok comp_def read_show)

end


section \<open>Base64 and Base64URL are text codecs\<close>

lemma padding_not_symbol: "BASE64_PADDING \<notin> set b64_symbols" "BASE64_PADDING \<notin> set b64url_symbols"
  by (simp_all add: BASE64_PADDING_def b64_symbols_def b64url_symbols_def)

lemma chunked_encode_out:
  "\<exists>cs. chunked_encode encoding data = encoder_output encoding cs \<and> concat cs = data"
proof -
  have "0 < usize_max div 512" by (simp add: usize_max_def)
  then have "concat (chunks (usize_max div 512) data) = data" by (rule concat_chunks)
  then show ?thesis unfolding chunked_encode_def chunked_encode_with_limit_def by blast
qed

lemma chunked_encode_shape:
  assumes "encodes_over symbols encoding"
  obtains core n where
    "chunked_encode encoding data = core @ replicate n BASE64_PADDING"
    "set core \<subseteq> set symbols" "permissive_decode encoding core = Some data"
proof -
  obtain cs where cs: "chunked_encode encoding data = encoder_output encoding cs" "concat cs = data"
    using chunked_encode_out by blast
  obtain core n where "encoder_output encoding cs = core @ replicate n BASE64_PADDING"
    "set core \<subseteq> set symbols" "permissive_decode encoding core = Some (concat cs)"
    using assms unfolding encodes_over_def by blast
  with cs show thesis using that by simp
qed

lemma decode_chunked_encode:
  assumes "encodes_over symbols encoding" and "BASE64_PADDING \<notin> set symbols"
  shows "permissive_decode encoding
           (trim_end_matches BASE64_PADDING (chunked_encode encoding data)) = Some data"
proof -
  obtain core n where
    "chunked_encode encoding data = core @ replicate n BASE64_PADDING"
    "set core \<subseteq> set symbols" "permissive_decode encoding core = Some data"
    using chunked_encode_shape [OF assms(1)] .
  moreover from this have "BASE64_PADDING \<notin> set core" using assms(2) by auto
  ultimately show ?thesis by (simp add: trim_end_matches_replicate)
qed

lemma chunked_encode_letters:
  assumes "encodes_over symbols encoding"
  shows "set (chunked_encode encoding data) \<subseteq> insert BASE64_PADDING (set symbols)"
proof -
  obtain core n where
    "chunked_encode encoding data = core @ replicate n BASE64_PADDING" "set core \<subseteq> set symbols"
    using chunked_encode_shape [OF assms] by metis
  then show ?thesis by auto
qed

interpretation b64: text_codec b64_lib_ok b64_to_string b64_try_from
  "insert BASE64_PADDING (set b64_symbols)"
  by unfold_locales
     (simp_all add: b64_lib_ok_def b64_try_from_def b64_to_string_def Let_def
        decode_chunked_encode padding_not_symbol chunked_encode_letters)

interpretation b64url: text_codec b64url_lib_ok b64url_to_string b64url_try_from
  "insert BASE64_PADDING (set b64url_symbols)"
  by unfold_locales
     (simp_all add: b64url_lib_ok_def b64url_try_from_def b64url_to_string_def Let_def
        decode_chunked_encode padding_not_symbol chunked_encode_letters)

lemma separators_not_b64_letters [simp]:
  "CHR ''.'' \<notin> insert BASE64_PADDING (set b64_symbols)"
  "CHR ''|'' \<notin> insert BASE64_PADDING (set b64_symbols)"
  by (simp_all add: BASE64_PADDING_def b64_symbols_def)

text \<open>How the input is cut into chunks has no influence on the text.\<close>

lemma chunked_encode_limit_irrelevant:
  assumes "\<And>cs cs'. concat cs = concat cs' \<Longrightarrow> encoder_output encoding cs = encoder_output encoding cs'"
    and "0 < m" and "0 < n"
  shows "chunked_encode_with_limit encoding data m = chunked_encode_with_limit encoding data n"
  unfolding chunked_encode_with_limit_def
  by (intro assms(1)) (simp add: concat_chunks assms(2,3))

end
