(* ===== verification/Crypto_Types.thy ===== *)
theory Crypto_Types
  imports Prelude
begin

text \<open>
  Types that the components of \<open>bitwarden-crypto\<close> share: the errors of \<open>error.rs\<close>, the
  content formats of \<open>content_format.rs\<close>, key ids (\<open>keys/key_id.rs\<close>) and the key slots that
  \<open>bitwarden-core\<close> declares with \<open>key_slot_ids!\<close>.  Error payloads that come from other crates
  are their message text.
\<close>


section \<open>Key slots\<close>

type_synonym uuid = "128 word"

datatype local_id = LocalId uuid

datatype organization_id = OrganizationId uuid

datatype symmetric_key_slot_id =
    Master
  | User
  | Organization organization_id
  | LocalUserData
  | Local local_id

datatype private_key_slot_id =
    UserPrivateKey
  | Local local_id

datatype signing_key_slot_id =
    UserSigningKey
  | Local local_id

primrec symmetric_is_local :: "symmetric_key_slot_id \<Rightarrow> bool" where
  "symmetric_is_local Master = False"
| "symmetric_is_local User = False"
| "symmetric_is_local (Organization o') = False"
| "symmetric_is_local LocalUserData = False"
| "symmetric_is_local (symmetric_key_slot_id.Local l) = True"

primrec private_is_local :: "private_key_slot_id \<Rightarrow> bool" where
  "private_is_local UserPrivateKey = False"
| "private_is_local (private_key_slot_id.Local l) = True"

primrec signing_is_local :: "signing_key_slot_id \<Rightarrow> bool" where
  "signing_is_local UserSigningKey = False"
| "signing_is_local (signing_key_slot_id.Local l) = True"

definition symmetric_new_local :: "local_id \<Rightarrow> symmetric_key_slot_id" where
  "symmetric_new_local l = symmetric_key_slot_id.Local l"

definition private_new_local :: "local_id \<Rightarrow> private_key_slot_id" where
  "private_new_local l = private_key_slot_id.Local l"

definition signing_new_local :: "local_id \<Rightarrow> signing_key_slot_id" where
  "signing_new_local l = signing_key_slot_id.Local l"

text \<open>The slot whose \<open>Debug\<close> text a \<open>MissingKeyId\<close> error carries.\<close>

datatype slot_debug =
    SymmetricSlot symmetric_key_slot_id
  | PrivateSlot private_key_slot_id
  | SigningSlot signing_key_slot_id


section \<open>Errors\<close>

text \<open>\<open>coset::iana::KeyOperation\<close>, in the order of its registry values 1 to 10.\<close>

datatype key_operation =
    Sign | Verify | Encrypt | Decrypt | WrapKey | UnwrapKey | DeriveKey | DeriveBits | MacCreate | MacVerify

datatype unsupported_operation_error =
    EncryptionNotImplementedForKey
  | DecryptionNotImplementedForKey

datatype enc_string_parse_error =
    NoType
  | InvalidTypeSymm string nat
  | InvalidTypeAsymm string nat
  | InvalidBase64
  | InvalidLength nat nat
  | InvalidCoseEncoding string
  | CoseMissingAlgorithm
  | CoseMissingContentType

datatype rsa_error = CreatePublicKey | CreatePrivateKey | RsaLibrary string

datatype signature_error = InvalidSignature | InvalidNamespace

datatype encoding_error =
    InvalidCoseEncoding
  | InvalidCborSerialization
  | InvalidBase64Encoding
  | MissingValue string
  | InvalidValue string
  | UnsupportedValue string

datatype fingerprint_error = EntropyTooSmall

datatype crypto_error =
    Decrypt
  | InvalidKey
  | KeyDecrypt
  | InvalidKeyLen
  | InvalidUtf8String
  | MissingKey uuid
  | MissingField string
  | MissingKeyId slot_debug
  | KeyOperationNotSupported key_operation
  | EncryptRestrictedView
  | RestrictedCipherRequiresOrganization
  | ReadOnlyKeyStore
  | InvalidKeyStoreOperation
  | InsufficientKdfParameters
  | EncStringError enc_string_parse_error
  | UnparseableEncString
  | RsaErr rsa_error
  | Fingerprint fingerprint_error
  | Argon string
  | ZeroNumber
  | OperationNotSupported unsupported_operation_error
  | WrongKeyType
  | WrongCoseKeyId
  | InvalidNonceLength
  | InvalidPadding
  | SignatureErr signature_error
  | EncodingErr encoding_error


section \<open>Content formats\<close>

datatype content_format =
    Utf8
  | Pkcs8PrivateKey
  | SPKIPublicKeyDer
  | CoseKey
  | CoseSign1
  | CoseEncrypt0
  | BitwardenLegacyKey
  | OctetStream
  | Cbor


section \<open>Key ids\<close>

type_synonym key_id = bytes

definition KEY_ID_SIZE :: nat where
  "KEY_ID_SIZE = 16"

definition key_id_try_from :: "bytes \<Rightarrow> (key_id, string) result" where
  "key_id_try_from value =
     (if length value \<noteq> KEY_ID_SIZE then Err ''Invalid length for KeyId'' else Ok value)"

text \<open>\<open>hex::encode\<close> writes two lower-case digits per byte; \<open>hex::decode\<close> also reads upper case.\<close>

definition hex_digit :: "nat \<Rightarrow> char" where
  "hex_digit n = (if n < 10 then char_of (48 + n) else char_of (87 + n))"

definition hex_value :: "char \<Rightarrow> nat option" where
  "hex_value c =
     (let n = of_char c in
      if 48 \<le> n \<and> n \<le> 57 then Some (n - 48)
      else if 65 \<le> n \<and> n \<le> 70 then Some (n - 55)
      else if 97 \<le> n \<and> n \<le> 102 then Some (n - 87)
      else None)"

definition hex_encode :: "bytes \<Rightarrow> string" where
  "hex_encode bs = concat (map (\<lambda>b. [hex_digit (unat b div 16), hex_digit (unat b mod 16)]) bs)"

fun hex_decode :: "string \<Rightarrow> bytes option" where
  "hex_decode [] = Some []"
| "hex_decode [c] = None"
| "hex_decode (c # d # cs) =
     (case (hex_value c, hex_value d, hex_decode cs) of
        (Some h, Some l, Some bs) \<Rightarrow> Some (of_nat (16 * h + l) # bs)
      | _ \<Rightarrow> None)"

definition key_id_to_string :: "key_id \<Rightarrow> string" where
  "key_id_to_string key_id = hex_encode key_id"

definition key_id_from_str :: "string \<Rightarrow> (key_id, crypto_error) result" where
  "key_id_from_str s =
     and_then (ok_or (EncodingErr (InvalidValue ''key id'')) (hex_decode s)) (\<lambda>bs.
       map_err (\<lambda>_. EncodingErr (InvalidValue ''key id'')) (key_id_try_from bs))"


section \<open>Lemmas\<close>

lemma hex_value_digit [codec_simps]: "n < 16 \<Longrightarrow> hex_value (hex_digit n) = Some n"
  by (auto simp: hex_value_def hex_digit_def Let_def)

lemma hex_decode_encode [codec_simps]: "hex_decode (hex_encode bs) = Some bs"
proof (induction bs)
  case Nil
  then show ?case by (simp add: hex_encode_def)
next
  case (Cons b bs)
  have "unat b div 16 < 16" using unat_u8_less [of b] by simp
  moreover have "16 * (unat b div 16) + unat b mod 16 = unat b" by simp
  ultimately show ?case using Cons
    by (simp add: hex_encode_def hex_value_digit)
qed

lemma length_hex_encode [codec_simps]: "length (hex_encode bs) = 2 * length bs"
  by (induction bs) (auto simp: hex_encode_def)

lemma key_id_try_from_Ok [result_simps]:
  "key_id_try_from v = Ok k \<longleftrightarrow> length v = KEY_ID_SIZE \<and> k = v"
  by (auto simp: key_id_try_from_def)

text \<open>The text form of a key id reads back, and only 16-byte values are accepted.\<close>

lemma key_id_string_roundtrip:
  "length k = KEY_ID_SIZE \<Longrightarrow> key_id_from_str (key_id_to_string k) = Ok k"
  by (simp add: key_id_from_str_def key_id_to_string_def hex_decode_encode key_id_try_from_def)

lemma key_id_from_str_size: "key_id_from_str s = Ok k \<Longrightarrow> length k = KEY_ID_SIZE"
  by (auto simp: key_id_from_str_def result_simps)

end
