(* ===== verification/Coset.thy ===== *)
theory Coset
  imports Crypto_Types "HOL-Library.List_Lexorder"
begin

text \<open>
  The COSE layer of \<open>bitwarden-crypto/src/cose/mod.rs\<close> and \<open>cose/thumbprint.rs\<close>: constants,
  the conversion between content formats and headers, private header values, object
  namespaces and key thumbprints.

  The structures of the \<open>coset\<close> and \<open>ciborium\<close> crates are records and datatypes with the
  fields the code uses.  Their serializers and the construction of the additional
  authenticated data are parameters, bundled in a record \<open>cose_lib\<close>; \<open>cose_lib_ok\<close> states that
  parsing gives back what was serialized, for headers and keys that CBOR can represent.
  A parsed protected header keeps the bytes it was parsed from, and the authenticated data
  of a parsed message is the one it was created with.
\<close>


section \<open>Structures of coset and ciborium\<close>

datatype iana_algorithm = A256GCM | EdDSA | Direct_HKDF_SHA_256 | IanaAlgorithm int

datatype cose_algorithm =
    PrivateUse int
  | AssignedAlgorithm iana_algorithm
  | TextAlgorithm string

datatype coap_content_format =
    OctetStream | Cbor | Pkcs8 | CoseEncrypt0 | CoseSign1 | CoseKey | CoapContentFormat int

datatype content_type =
    AssignedContentType coap_content_format
  | TextContentType string

datatype cose_label = IntLabel int | TextLabel string

datatype cbor_value =
    Integer int
  | Bytes bytes
  | TextValue string
  | BoolValue bool
  | ArrayValue "cbor_value list"
  | MapValue "(cbor_value \<times> cbor_value) list"
  | NullValue

record header =
  header_alg :: "cose_algorithm option"
  header_content_type :: "content_type option"
  header_key_id :: bytes
  header_iv :: bytes
  header_rest :: "(cose_label \<times> cbor_value) list"

definition header_new :: header where
  "header_new = \<lparr>header_alg = None, header_content_type = None, header_key_id = [],
     header_iv = [], header_rest = []\<rparr>"

record protected_header =
  original_data :: "bytes option"
  parsed_header :: header

record cose_encrypt0 =
  encrypt0_protected :: protected_header
  encrypt0_unprotected :: header
  encrypt0_ciphertext :: "bytes option"

record cose_recipient =
  recipient_protected :: protected_header
  recipient_unprotected :: header
  recipient_ciphertext :: "bytes option"

record cose_encrypt =
  encrypt_protected :: protected_header
  encrypt_unprotected :: header
  encrypt_ciphertext :: "bytes option"
  encrypt_recipients :: "cose_recipient list"

datatype key_type = Symmetric | OKP | KeyType int

datatype key_op_label = AssignedOp key_operation | TextOp string

record cose_key =
  cose_kty :: key_type
  cose_key_id :: bytes
  cose_alg :: "cose_algorithm option"
  cose_key_ops :: "key_op_label list"
  cose_params :: "(cose_label \<times> cbor_value) list"

text \<open>\<open>CoseContentEncryptionAlgorithm\<close> of \<open>cose/symmetric.rs\<close>.\<close>

datatype cose_content_encryption_algorithm =
    Aes256Gcm
  | XAes256Gcm
  | XChaCha20Poly1305
  | Aes256CbcHmacSha256

record cose_lib =
  encrypt0_to_vec :: "cose_encrypt0 \<Rightarrow> (bytes, string) result"
  encrypt0_from_slice :: "bytes \<Rightarrow> (cose_encrypt0, string) result"
  encrypt0_aad :: "protected_header \<Rightarrow> bytes \<Rightarrow> bytes"
  encrypt_aad :: "protected_header \<Rightarrow> bytes \<Rightarrow> bytes"
  cose_key_to_vec :: "cose_key \<Rightarrow> (bytes, string) result"
  cose_key_from_slice :: "bytes \<Rightarrow> (cose_key, string) result"
  cbor_to_vec :: "cbor_value \<Rightarrow> bytes"

text \<open>
  The \<open>key_ops\<close> of a \<open>CoseKey\<close> are a \<open>BTreeSet\<close>, iterated in ascending order of the registry
  value (text labels after the registered ones): a sorted list without duplicates.
\<close>

primrec key_operation_value :: "key_operation \<Rightarrow> nat" where
  "key_operation_value Sign = 1"
| "key_operation_value Verify = 2"
| "key_operation_value key_operation.Encrypt = 3"
| "key_operation_value key_operation.Decrypt = 4"
| "key_operation_value WrapKey = 5"
| "key_operation_value UnwrapKey = 6"
| "key_operation_value DeriveKey = 7"
| "key_operation_value DeriveBits = 8"
| "key_operation_value MacCreate = 9"
| "key_operation_value MacVerify = 10"

fun key_op_less :: "key_op_label \<Rightarrow> key_op_label \<Rightarrow> bool" where
  "key_op_less (AssignedOp a) (AssignedOp b) = (key_operation_value a < key_operation_value b)"
| "key_op_less (AssignedOp a) (TextOp t) = True"
| "key_op_less (TextOp t) (AssignedOp b) = False"
| "key_op_less (TextOp s) (TextOp t) = (map of_char s < (map of_char t :: nat list))"

fun btree_insert :: "key_op_label \<Rightarrow> key_op_label list \<Rightarrow> key_op_label list" where
  "btree_insert x [] = [x]"
| "btree_insert x (y # ys) =
     (if x = y then y # ys else if key_op_less x y then x # y # ys else y # btree_insert x ys)"

text \<open>\<open>CoseKeyBuilder::new_symmetric_key\<close>, \<open>key_id\<close> and \<open>add_key_op\<close>.\<close>

definition new_symmetric_key :: "bytes \<Rightarrow> cose_key" where
  "new_symmetric_key k = \<lparr>cose_kty = Symmetric, cose_key_id = [], cose_alg = None,
     cose_key_ops = [], cose_params = [(IntLabel (- 1), Bytes k)]\<rparr>"

definition add_key_op :: "key_operation \<Rightarrow> cose_key \<Rightarrow> cose_key" where
  "add_key_op op key = key\<lparr>cose_key_ops := btree_insert (AssignedOp op) (cose_key_ops key)\<rparr>"


section \<open>What CBOR and coset can represent, and the laws of the serializers\<close>

text \<open>\<open>coset\<close> accepts private-use algorithms below -65536 only.\<close>

fun algorithm_encodable :: "cose_algorithm \<Rightarrow> bool" where
  "algorithm_encodable (PrivateUse i) = (- (2 ^ 63) \<le> i \<and> i < - 65536)"
| "algorithm_encodable (AssignedAlgorithm a) = (a = A256GCM \<or> a = EdDSA \<or> a = Direct_HKDF_SHA_256)"
| "algorithm_encodable (TextAlgorithm t) = True"

text \<open>A textual content type has exactly one slash and no surrounding blanks.\<close>

fun content_type_encodable :: "content_type \<Rightarrow> bool" where
  "content_type_encodable (AssignedContentType (CoapContentFormat i)) = False"
| "content_type_encodable (AssignedContentType c) = True"
| "content_type_encodable (TextContentType t) =
     (t \<noteq> [] \<and> hd t \<noteq> CHR '' '' \<and> last t \<noteq> CHR '' '' \<and> length (split_on (CHR ''/'') t) = 2)"

fun label_encodable :: "cose_label \<Rightarrow> bool" where
  "label_encodable (IntLabel i) = (- (2 ^ 63) \<le> i \<and> i < 2 ^ 63 \<and> \<not> (1 \<le> i \<and> i \<le> 7))"
| "label_encodable (TextLabel t) = True"

fun value_encodable :: "cbor_value \<Rightarrow> bool" where
  "value_encodable (Integer i) = (- (2 ^ 64) \<le> i \<and> i < 2 ^ 64)"
| "value_encodable (Bytes b) = True"
| "value_encodable (TextValue t) = True"
| "value_encodable (BoolValue b) = True"
| "value_encodable _ = False"

definition header_encodable :: "header \<Rightarrow> bool" where
  "header_encodable h \<longleftrightarrow>
     (case header_alg h of None \<Rightarrow> True | Some a \<Rightarrow> algorithm_encodable a)
     \<and> (case header_content_type h of None \<Rightarrow> True | Some c \<Rightarrow> content_type_encodable c)
     \<and> distinct (map fst (header_rest h))
     \<and> list_all (\<lambda>(l, v). label_encodable l \<and> value_encodable v) (header_rest h)"

definition cose_encrypt0_encodable :: "cose_encrypt0 \<Rightarrow> bool" where
  "cose_encrypt0_encodable m \<longleftrightarrow>
     original_data (encrypt0_protected m) = None
     \<and> header_encodable (parsed_header (encrypt0_protected m)) \<and> header_encodable (encrypt0_unprotected m)"

fun key_ops_sorted :: "key_op_label list \<Rightarrow> bool" where
  "key_ops_sorted [] = True"
| "key_ops_sorted [x] = True"
| "key_ops_sorted (x # y # ys) = (key_op_less x y \<and> key_ops_sorted (y # ys))"

definition cose_key_encodable :: "cose_key \<Rightarrow> bool" where
  "cose_key_encodable k \<longleftrightarrow>
     (cose_kty k = Symmetric \<or> cose_kty k = OKP)
     \<and> (case cose_alg k of None \<Rightarrow> True | Some a \<Rightarrow> algorithm_encodable a)
     \<and> key_ops_sorted (cose_key_ops k)
     \<and> distinct (map fst (cose_params k))
     \<and> list_all (\<lambda>(l, v). label_encodable l \<and> value_encodable v) (cose_params k)"

definition encrypt0_roundtrip :: "cose_lib \<Rightarrow> bool" where
  "encrypt0_roundtrip C \<longleftrightarrow>
     (\<forall>m. cose_encrypt0_encodable m \<longrightarrow>
        (\<exists>bs od. encrypt0_to_vec C m = Ok bs
           \<and> encrypt0_from_slice C bs =
               Ok (m\<lparr>encrypt0_protected := \<lparr>original_data = Some od,
                      parsed_header = parsed_header (encrypt0_protected m)\<rparr>\<rparr>)
           \<and> encrypt0_aad C \<lparr>original_data = Some od,
                parsed_header = parsed_header (encrypt0_protected m)\<rparr>
             = encrypt0_aad C (encrypt0_protected m)))"

definition cose_key_roundtrip :: "cose_lib \<Rightarrow> bool" where
  "cose_key_roundtrip C \<longleftrightarrow>
     (\<forall>k. cose_key_encodable k \<longrightarrow>
        (\<exists>bs. cose_key_to_vec C k = Ok bs \<and> cose_key_from_slice C bs = Ok k))"

definition cose_lib_ok :: "cose_lib \<Rightarrow> bool" where
  "cose_lib_ok C \<longleftrightarrow> encrypt0_roundtrip C \<and> cose_key_roundtrip C"


section \<open>Constants of cose/mod.rs\<close>

definition XCHACHA20_POLY1305 :: int where
  "XCHACHA20_POLY1305 = - 70000"

definition XAES_256_GCM :: int where
  "XAES_256_GCM = - 70010"

definition AES_256_CBC_HMAC_SHA256_AEAD :: int where
  "AES_256_CBC_HMAC_SHA256_AEAD = - 70011"

definition CONTAINED_KEY_ID :: int where
  "CONTAINED_KEY_ID = - 71005"

definition SAFE_OBJECT_NAMESPACE :: int where
  "SAFE_OBJECT_NAMESPACE = - 80002"

definition SAFE_CONTENT_NAMESPACE :: int where
  "SAFE_CONTENT_NAMESPACE = - 80001"

definition CONTENT_TYPE_PADDED_UTF8 :: string where
  "CONTENT_TYPE_PADDED_UTF8 = ''application/x.bitwarden.utf8-padded''"

definition CONTENT_TYPE_PADDED_CBOR :: string where
  "CONTENT_TYPE_PADDED_CBOR = ''application/x.bitwarden.cbor-padded''"

definition CONTENT_TYPE_BITWARDEN_LEGACY_KEY :: string where
  "CONTENT_TYPE_BITWARDEN_LEGACY_KEY = ''application/x.bitwarden.legacy-key''"

definition CONTENT_TYPE_SPKI_PUBLIC_KEY :: string where
  "CONTENT_TYPE_SPKI_PUBLIC_KEY = ''application/x.bitwarden.spki-public-key''"

lemmas cose_constants =
  XCHACHA20_POLY1305_def XAES_256_GCM_def AES_256_CBC_HMAC_SHA256_AEAD_def CONTAINED_KEY_ID_def
  SAFE_OBJECT_NAMESPACE_def SAFE_CONTENT_NAMESPACE_def

lemmas content_type_names =
  CONTENT_TYPE_PADDED_UTF8_def CONTENT_TYPE_PADDED_CBOR_def CONTENT_TYPE_BITWARDEN_LEGACY_KEY_def
  CONTENT_TYPE_SPKI_PUBLIC_KEY_def


section \<open>Object namespaces\<close>

datatype safe_object_namespace =
    PasswordProtectedKeyEnvelope
  | DataEnvelope
  | SymmetricKeyEnvelope
  | SecretProtectedKeyEnvelope

definition safe_object_namespace_try_from :: "int \<Rightarrow> (safe_object_namespace, unit) result" where
  "safe_object_namespace_try_from value =
     (if value = 1 then Ok PasswordProtectedKeyEnvelope
      else if value = 2 then Ok DataEnvelope
      else if value = 3 then Ok SymmetricKeyEnvelope
      else if value = 6 then Ok SecretProtectedKeyEnvelope
      else Err ())"

primrec safe_object_namespace_into :: "safe_object_namespace \<Rightarrow> int" where
  "safe_object_namespace_into PasswordProtectedKeyEnvelope = 1"
| "safe_object_namespace_into DataEnvelope = 2"
| "safe_object_namespace_into SymmetricKeyEnvelope = 3"
| "safe_object_namespace_into SecretProtectedKeyEnvelope = 6"


section \<open>Content formats in headers\<close>

text \<open>\<open>From<ContentFormat> for HeaderBuilder\<close>: a fresh header with the content type set.\<close>

primrec content_format_into_header :: "content_format \<Rightarrow> header" where
  "content_format_into_header content_format.Utf8 =
     header_new\<lparr>header_content_type := Some (TextContentType CONTENT_TYPE_PADDED_UTF8)\<rparr>"
| "content_format_into_header content_format.Pkcs8PrivateKey =
     header_new\<lparr>header_content_type := Some (AssignedContentType Pkcs8)\<rparr>"
| "content_format_into_header content_format.SPKIPublicKeyDer =
     header_new\<lparr>header_content_type := Some (TextContentType CONTENT_TYPE_SPKI_PUBLIC_KEY)\<rparr>"
| "content_format_into_header content_format.CoseSign1 =
     header_new\<lparr>header_content_type := Some (AssignedContentType coap_content_format.CoseSign1)\<rparr>"
| "content_format_into_header content_format.CoseKey =
     header_new\<lparr>header_content_type := Some (AssignedContentType coap_content_format.CoseKey)\<rparr>"
| "content_format_into_header content_format.CoseEncrypt0 =
     header_new\<lparr>header_content_type := Some (AssignedContentType coap_content_format.CoseEncrypt0)\<rparr>"
| "content_format_into_header content_format.BitwardenLegacyKey =
     header_new\<lparr>header_content_type := Some (TextContentType CONTENT_TYPE_BITWARDEN_LEGACY_KEY)\<rparr>"
| "content_format_into_header content_format.OctetStream =
     header_new\<lparr>header_content_type := Some (AssignedContentType coap_content_format.OctetStream)\<rparr>"
| "content_format_into_header content_format.Cbor =
     header_new\<lparr>header_content_type := Some (AssignedContentType coap_content_format.Cbor)\<rparr>"

definition content_format_try_from :: "header \<Rightarrow> (content_format, crypto_error) result" where
  "content_format_try_from header =
     (case header_content_type header of
        Some (TextContentType format) \<Rightarrow>
          (if format = CONTENT_TYPE_PADDED_UTF8 then Ok content_format.Utf8
           else if format = CONTENT_TYPE_BITWARDEN_LEGACY_KEY then Ok content_format.BitwardenLegacyKey
           else if format = CONTENT_TYPE_SPKI_PUBLIC_KEY then Ok content_format.SPKIPublicKeyDer
           else Err (EncStringError CoseMissingContentType))
      | Some (AssignedContentType Pkcs8) \<Rightarrow> Ok content_format.Pkcs8PrivateKey
      | Some (AssignedContentType coap_content_format.CoseKey) \<Rightarrow> Ok content_format.CoseKey
      | Some (AssignedContentType coap_content_format.OctetStream) \<Rightarrow> Ok content_format.OctetStream
      | Some (AssignedContentType coap_content_format.Cbor) \<Rightarrow> Ok content_format.Cbor
      | _ \<Rightarrow> Err (EncStringError CoseMissingContentType))"


section \<open>Private header values\<close>

datatype cose_extract_error = MissingValue string

fun find_map :: "('a \<Rightarrow> 'b option) \<Rightarrow> 'a list \<Rightarrow> 'b option" where
  "find_map f [] = None"
| "find_map f (x # xs) = (case f x of Some y \<Rightarrow> Some y | None \<Rightarrow> find_map f xs)"

definition extract_integer :: "header \<Rightarrow> int \<Rightarrow> string \<Rightarrow> (int, cose_extract_error) result" where
  "extract_integer header target_label value_name =
     ok_or (cose_extract_error.MissingValue value_name)
       (find_map (\<lambda>(label, value).
          (case (label, value) of
             (IntLabel label_value, Integer int_value) \<Rightarrow>
               if label_value = target_label then Some int_value else None
           | _ \<Rightarrow> None)) (header_rest header))"

definition extract_bytes :: "header \<Rightarrow> int \<Rightarrow> string \<Rightarrow> (bytes, cose_extract_error) result" where
  "extract_bytes header target_label value_name =
     ok_or (cose_extract_error.MissingValue value_name)
       (find_map (\<lambda>(label, value).
          (case (label, value) of
             (IntLabel label_value, Bytes byte_value) \<Rightarrow>
               if label_value = target_label then Some byte_value else None
           | _ \<Rightarrow> None)) (header_rest header))"

fun debug_key_operation :: "key_operation \<Rightarrow> string" where
  "debug_key_operation Sign = ''Sign''"
| "debug_key_operation Verify = ''Verify''"
| "debug_key_operation key_operation.Encrypt = ''Encrypt''"
| "debug_key_operation key_operation.Decrypt = ''Decrypt''"
| "debug_key_operation WrapKey = ''WrapKey''"
| "debug_key_operation UnwrapKey = ''UnwrapKey''"
| "debug_key_operation DeriveKey = ''DeriveKey''"
| "debug_key_operation DeriveBits = ''DeriveBits''"
| "debug_key_operation _ = ''Unknown''"


section \<open>Thumbprints\<close>

text \<open>The hash function is a parameter; the 32-byte digest is the thumbprint.\<close>

definition encoded_label :: "cose_lib \<Rightarrow> int \<Rightarrow> bytes" where
  "encoded_label C label = cbor_to_vec C (Integer label)"

definition thumbprint_from_required_params ::
  "(bytes \<Rightarrow> bytes) \<Rightarrow> cose_lib \<Rightarrow> (int \<times> cbor_value) list \<Rightarrow> bytes" where
  "thumbprint_from_required_params sha256 C params =
     (let params = sort_key (\<lambda>(label, _). encoded_label C label) params;
          m = MapValue (map (\<lambda>(label, value). (Integer label, value)) params)
      in sha256 (cbor_to_vec C m))"

definition thumbprint_to_string :: "bytes \<Rightarrow> string" where
  "thumbprint_to_string thumbprint = ''SHA256:'' @ hex_encode thumbprint"


section \<open>Lemmas\<close>

text \<open>A header read back has the content format it was built with, whatever else is set.\<close>

lemma content_format_roundtrip [codec_simps]:
  "content_format_try_from (content_format_into_header f) =
     (if f = content_format.CoseSign1 \<or> f = content_format.CoseEncrypt0
      then Err (EncStringError CoseMissingContentType) else Ok f)"
  by (cases f) (simp_all add: content_format_try_from_def content_type_names)

lemma content_format_try_from_cong:
  "header_content_type h = header_content_type h'
   \<Longrightarrow> content_format_try_from h = content_format_try_from h'"
  by (simp add: content_format_try_from_def)

lemma content_format_try_from_Err:
  "content_format_try_from h = Err e \<Longrightarrow> e = EncStringError CoseMissingContentType"
  by (auto simp: content_format_try_from_def
        split: option.splits content_type.splits coap_content_format.splits if_splits)

lemma header_new_simps [simp]:
  "header_alg header_new = None" "header_content_type header_new = None"
  "header_key_id header_new = []" "header_iv header_new = []" "header_rest header_new = []"
  by (simp_all add: header_new_def)

lemma content_format_into_header_simps [simp]:
  "header_alg (content_format_into_header f) = None"
  "header_key_id (content_format_into_header f) = []"
  "header_iv (content_format_into_header f) = []"
  "header_rest (content_format_into_header f) = []"
  by (cases f; simp)+

lemma content_format_into_header_encodable:
  "case header_content_type (content_format_into_header f) of
     None \<Rightarrow> False | Some c \<Rightarrow> content_type_encodable c"
  by (cases f) (simp_all add: content_type_names)

lemma safe_object_namespace_roundtrip [simp]:
  "safe_object_namespace_try_from (safe_object_namespace_into n) = Ok n"
  by (cases n) (simp_all add: safe_object_namespace_try_from_def)

lemma safe_object_namespace_try_from_Ok:
  "safe_object_namespace_try_from i = Ok n \<longleftrightarrow> i = safe_object_namespace_into n"
  by (cases n) (auto simp: safe_object_namespace_try_from_def split: if_splits)

lemma key_operation_value_inj: "key_operation_value a = key_operation_value b \<Longrightarrow> a = b"
  by (cases a; cases b) simp_all

text \<open>A \<open>BTreeSet\<close> of operations built by insertions: sorted, with the inserted elements.\<close>

lemma set_btree_insert [simp]: "set (btree_insert x xs) = insert x (set xs)"
  by (induction xs) auto

lemma key_op_less_trans: "key_op_less x y \<Longrightarrow> key_op_less y z \<Longrightarrow> key_op_less x z"
  by (cases x; cases y; cases z) auto

lemma key_op_less_total: "x \<noteq> y \<Longrightarrow> \<not> key_op_less x y \<Longrightarrow> key_op_less y x"
proof (cases x; cases y)
  fix s t assume xy: "x \<noteq> y" "\<not> key_op_less x y" "x = TextOp s" "y = TextOp t"
  have "inj (of_char :: char \<Rightarrow> nat)" by (rule injI) simp
  then have "map of_char s \<noteq> (map of_char t :: nat list)" using xy by (auto simp: inj_map_eq_map)
  with xy show ?thesis by auto
next
  fix a b assume "x \<noteq> y" "\<not> key_op_less x y" "x = AssignedOp a" "y = AssignedOp b"
  moreover from this have "key_operation_value a \<noteq> key_operation_value b"
    using key_operation_value_inj by blast
  ultimately show ?thesis by simp
qed auto

lemma key_ops_sorted_Cons:
  "key_ops_sorted (x # xs) \<longleftrightarrow> (\<forall>y \<in> set xs. key_op_less x y) \<and> key_ops_sorted xs"
proof (induction xs arbitrary: x)
  case (Cons y ys)
  then show ?case using key_op_less_trans [of x y] by auto
qed simp

lemma key_ops_sorted_insert: "key_ops_sorted xs \<Longrightarrow> key_ops_sorted (btree_insert x xs)"
proof (induction xs)
  case (Cons y ys)
  consider "x = y" | "x \<noteq> y" "key_op_less x y" | "x \<noteq> y" "key_op_less y x" "\<not> key_op_less x y"
    using key_op_less_total by blast
  then show ?case
  proof cases
    case 2
    then have "\<forall>z \<in> set ys. key_op_less x z"
      using Cons.prems key_op_less_trans [of x y] by (simp add: key_ops_sorted_Cons)
    with 2 Cons.prems show ?thesis by (simp add: key_ops_sorted_Cons)
  qed (use Cons in \<open>simp_all add: key_ops_sorted_Cons\<close>)
qed simp

lemma key_op_less_irrefl [simp]: "\<not> key_op_less x x"
  by (cases x) auto

lemma key_ops_sorted_unique:
  "key_ops_sorted xs \<Longrightarrow> key_ops_sorted ys \<Longrightarrow> set xs = set ys \<Longrightarrow> xs = ys"
proof (induction xs arbitrary: ys)
  case (Cons x xs)
  then obtain y ys' where ys: "ys = y # ys'" by (cases ys) auto
  have sx: "\<forall>z \<in> set xs. key_op_less x z" "key_ops_sorted xs"
    and sy: "\<forall>z \<in> set ys'. key_op_less y z" "key_ops_sorted ys'"
    using Cons.prems ys by (auto simp: key_ops_sorted_Cons)
  have eq: "insert x (set xs) = insert y (set ys')" using Cons.prems(3) ys by simp
  have xy: "x = y"
  proof (rule ccontr)
    assume "x \<noteq> y"
    then have "x \<in> set ys'" "y \<in> set xs" using eq by auto
    then show False using sx sy key_op_less_trans [of x y x] by auto
  qed
  have "x \<notin> set xs" "y \<notin> set ys'" using sx sy by auto
  then have "set xs = set ys'" using eq xy by auto
  then have "xs = ys'" by (rule Cons.IH [OF sx(2) sy(2)])
  with ys xy show ?case by simp
qed simp

end
