(* ===== verification/Hazmat.thy ===== *)
theory Hazmat
  imports Encoding Coset
begin

text \<open>
  The low-level ciphers of \<open>bitwarden-crypto/src/hazmat/symmetric_encryption\<close>.  AES-GCM,
  XAES-GCM, XChaCha20-Poly1305, AES-CBC with PKCS7, HMAC, SHA-256 and HKDF are crates; they
  are the functions of the record \<open>crypto_lib\<close>, together with the encoders of \<open>Encoding\<close> and
  the serializers of \<open>Coset\<close>.  \<open>crypto_lib_ok\<close> collects their documented behaviour:
  decryption inverts encryption, and since the ciphers and PKCS7 are deterministic, only the
  encryption of a plaintext decrypts to it.  The two AES-CBC-HMAC constructions, the checks
  and the error values are the ones of the source.  Nonces and IVs are arguments.
\<close>


section \<open>The external cryptography\<close>

record aead_lib =
  aead_encrypt :: "bytes \<Rightarrow> bytes \<Rightarrow> bytes \<Rightarrow> bytes \<Rightarrow> bytes"
  aead_decrypt :: "bytes \<Rightarrow> bytes \<Rightarrow> bytes \<Rightarrow> bytes \<Rightarrow> bytes option"

record crypto_lib =
  lib_b64 :: b64_lib
  lib_cose :: cose_lib
  lib_gcm :: aead_lib
  lib_xaes :: aead_lib
  lib_xchacha :: aead_lib
  cbc_encrypt :: "bytes \<Rightarrow> bytes \<Rightarrow> bytes \<Rightarrow> bytes"
  cbc_decrypt :: "bytes \<Rightarrow> bytes \<Rightarrow> bytes \<Rightarrow> bytes option"
  hmac_sha256 :: "bytes \<Rightarrow> bytes \<Rightarrow> bytes"
  sha256 :: "bytes \<Rightarrow> bytes"
  hkdf_sha256_expand :: "bytes \<Rightarrow> bytes \<Rightarrow> nat \<Rightarrow> bytes"

definition aead_lib_ok :: "nat \<Rightarrow> nat \<Rightarrow> aead_lib \<Rightarrow> bool" where
  "aead_lib_ok key_len nonce_len A \<longleftrightarrow>
     (\<forall>k n p c a. length k = key_len \<longrightarrow> length n = nonce_len \<longrightarrow>
        (aead_decrypt A k n c a = Some p) = (c = aead_encrypt A k n p a))"

definition cbc_ok :: "crypto_lib \<Rightarrow> bool" where
  "cbc_ok L \<longleftrightarrow>
     (\<forall>k iv p c. length k = 32 \<longrightarrow> length iv = 16 \<longrightarrow>
        (cbc_decrypt L k iv c = Some p) = (c = cbc_encrypt L k iv p))"

definition hash_ok :: "crypto_lib \<Rightarrow> bool" where
  "hash_ok L \<longleftrightarrow>
     (\<forall>k m. length (hmac_sha256 L k m) = 32) \<and> (\<forall>m. length (sha256 L m) = 32)
     \<and> (\<forall>prk info n. length (hkdf_sha256_expand L prk info n) = n)"


section \<open>Errors and sizes\<close>

datatype symmetric_encryption_error = FormatWrong | IntegrityCheckFailed

definition crypto_error_from :: "symmetric_encryption_error \<Rightarrow> crypto_error" where
  "crypto_error_from _ = KeyDecrypt"

definition MAC_SIZE :: nat where
  "MAC_SIZE = 32"

definition ENC_KEY_SIZE :: nat where
  "ENC_KEY_SIZE = 32"

definition try_into_array :: "nat \<Rightarrow> 'e \<Rightarrow> bytes \<Rightarrow> (bytes, 'e) result" where
  "try_into_array n e bs = (if length bs = n then Ok bs else Err e)"


section \<open>AES-256-CBC\<close>

definition Aes256Cbc_decrypt ::
  "crypto_lib \<Rightarrow> bytes \<Rightarrow> bytes \<Rightarrow> bytes \<Rightarrow> (bytes, symmetric_encryption_error) result" where
  "Aes256Cbc_decrypt L iv ciphertext key = ok_or FormatWrong (cbc_decrypt L key iv ciphertext)"


section \<open>AES-256-CBC-HMAC-SHA256, the legacy construction\<close>

definition split_to_subkeys :: "bytes \<Rightarrow> bytes \<times> bytes" where
  "split_to_subkeys key = (take ENC_KEY_SIZE key, drop ENC_KEY_SIZE key)"

definition calculate_mac :: "crypto_lib \<Rightarrow> bytes \<Rightarrow> bytes \<Rightarrow> bytes \<Rightarrow> bytes" where
  "calculate_mac L iv data mac_key = hmac_sha256 L mac_key (iv @ data)"

definition Aes256CbcHmacSha256_encrypt ::
  "crypto_lib \<Rightarrow> bytes \<Rightarrow> bytes \<Rightarrow> bytes \<Rightarrow> bytes \<times> bytes" where
  "Aes256CbcHmacSha256_encrypt L iv plaintext key =
     (let (enc_key, mac_key) = split_to_subkeys key;
          data = cbc_encrypt L enc_key iv plaintext;
          mac = calculate_mac L iv data mac_key
      in (mac, data))"

definition Aes256CbcHmacSha256_decrypt ::
  "crypto_lib \<Rightarrow> bytes \<Rightarrow> bytes \<Rightarrow> bytes \<Rightarrow> bytes \<Rightarrow> (bytes, symmetric_encryption_error) result" where
  "Aes256CbcHmacSha256_decrypt L iv ciphertext mac key =
     (let (enc_key, mac_key) = split_to_subkeys key;
          expected_mac = calculate_mac L iv ciphertext mac_key
      in if expected_mac \<noteq> mac then Err IntegrityCheckFailed
         else ok_or FormatWrong (cbc_decrypt L enc_key iv ciphertext))"


section \<open>AES-256-CBC-HMAC-SHA256 with associated data\<close>

definition MAC_DOMAIN_SEPARATOR :: bytes where
  "MAC_DOMAIN_SEPARATOR = map of_char ''bitwarden.aes256-cbc-hmac-sha256-aead.v1''"

definition mac_input_with_aad :: "bytes \<Rightarrow> bytes \<Rightarrow> bytes \<Rightarrow> bytes" where
  "mac_input_with_aad iv data associated_data =
     MAC_DOMAIN_SEPARATOR @ iv @ be_bytes 8 (length data) @ data
       @ be_bytes 8 (length associated_data) @ associated_data"

definition calculate_mac_with_aad ::
  "crypto_lib \<Rightarrow> bytes \<Rightarrow> bytes \<Rightarrow> bytes \<Rightarrow> bytes \<Rightarrow> bytes" where
  "calculate_mac_with_aad L iv data associated_data mac_key =
     hmac_sha256 L mac_key (mac_input_with_aad iv data associated_data)"

definition Aes256CbcHmacSha256Aead_encrypt ::
  "crypto_lib \<Rightarrow> bytes \<Rightarrow> bytes \<Rightarrow> bytes \<Rightarrow> bytes \<Rightarrow> bytes" where
  "Aes256CbcHmacSha256Aead_encrypt L key nonce plaintext associated_data =
     (let (enc_key, mac_key) = split_to_subkeys key;
          encrypted_bytes = cbc_encrypt L enc_key nonce plaintext;
          mac = calculate_mac_with_aad L nonce encrypted_bytes associated_data mac_key
      in encrypted_bytes @ mac)"

definition Aes256CbcHmacSha256Aead_decrypt ::
  "crypto_lib \<Rightarrow> bytes \<Rightarrow> bytes \<Rightarrow> bytes \<Rightarrow> bytes \<Rightarrow> (bytes, crypto_error) result" where
  "Aes256CbcHmacSha256Aead_decrypt L key nonce encrypted_bytes associated_data =
     (let (enc_key, mac_key) = split_to_subkeys key
      in if length encrypted_bytes < MAC_SIZE then Err KeyDecrypt
         else let data = take (length encrypted_bytes - MAC_SIZE) encrypted_bytes;
                  received_mac = drop (length encrypted_bytes - MAC_SIZE) encrypted_bytes;
                  expected_mac = calculate_mac_with_aad L nonce data associated_data mac_key
              in if expected_mac \<noteq> received_mac then Err KeyDecrypt
                 else ok_or KeyDecrypt (cbc_decrypt L enc_key nonce data))"


section \<open>The other AEAD ciphers\<close>

definition Aes256Gcm_encrypt :: "crypto_lib \<Rightarrow> bytes \<Rightarrow> bytes \<Rightarrow> bytes \<Rightarrow> bytes \<Rightarrow> bytes" where
  "Aes256Gcm_encrypt L key nonce plaintext associated_data =
     aead_encrypt (lib_gcm L) key nonce plaintext associated_data"

definition Aes256Gcm_decrypt ::
  "crypto_lib \<Rightarrow> bytes \<Rightarrow> bytes \<Rightarrow> bytes \<Rightarrow> bytes \<Rightarrow> (bytes, crypto_error) result" where
  "Aes256Gcm_decrypt L key nonce ciphertext associated_data =
     ok_or KeyDecrypt (aead_decrypt (lib_gcm L) key nonce ciphertext associated_data)"

definition XAes256Gcm_encrypt :: "crypto_lib \<Rightarrow> bytes \<Rightarrow> bytes \<Rightarrow> bytes \<Rightarrow> bytes \<Rightarrow> bytes" where
  "XAes256Gcm_encrypt L key nonce plaintext associated_data =
     aead_encrypt (lib_xaes L) key nonce plaintext associated_data"

definition XAes256Gcm_decrypt ::
  "crypto_lib \<Rightarrow> bytes \<Rightarrow> bytes \<Rightarrow> bytes \<Rightarrow> bytes \<Rightarrow> (bytes, crypto_error) result" where
  "XAes256Gcm_decrypt L key nonce ciphertext associated_data =
     ok_or KeyDecrypt (aead_decrypt (lib_xaes L) key nonce ciphertext associated_data)"

definition XChaCha20Poly1305_encrypt :: "crypto_lib \<Rightarrow> bytes \<Rightarrow> bytes \<Rightarrow> bytes \<Rightarrow> bytes \<Rightarrow> bytes" where
  "XChaCha20Poly1305_encrypt L key nonce plaintext associated_data =
     aead_encrypt (lib_xchacha L) key nonce plaintext associated_data"

definition XChaCha20Poly1305_decrypt ::
  "crypto_lib \<Rightarrow> bytes \<Rightarrow> bytes \<Rightarrow> bytes \<Rightarrow> bytes \<Rightarrow> (bytes, crypto_error) result" where
  "XChaCha20Poly1305_decrypt L key nonce ciphertext associated_data =
     ok_or KeyDecrypt (aead_decrypt (lib_xchacha L) key nonce ciphertext associated_data)"

text \<open>\<open>from_cose_iv\<close> of the four nonce types.\<close>

definition Aes256GcmNonce_from_cose_iv :: "bytes \<Rightarrow> (bytes, crypto_error) result" where
  "Aes256GcmNonce_from_cose_iv iv = try_into_array 12 InvalidNonceLength iv"

definition XAes256GcmNonce_from_cose_iv :: "bytes \<Rightarrow> (bytes, crypto_error) result" where
  "XAes256GcmNonce_from_cose_iv iv = try_into_array 24 InvalidNonceLength iv"

definition XChaCha20Poly1305Nonce_from_cose_iv :: "bytes \<Rightarrow> (bytes, crypto_error) result" where
  "XChaCha20Poly1305Nonce_from_cose_iv iv = try_into_array 24 InvalidNonceLength iv"

definition Aes256CbcHmacSha256AeadNonce_from_cose_iv :: "bytes \<Rightarrow> (bytes, crypto_error) result" where
  "Aes256CbcHmacSha256AeadNonce_from_cose_iv iv = try_into_array 16 InvalidNonceLength iv"


section \<open>The laws of the external functions, together\<close>

definition crypto_lib_ok :: "crypto_lib \<Rightarrow> bool" where
  "crypto_lib_ok L \<longleftrightarrow>
     b64_lib_ok (lib_b64 L) \<and> cose_lib_ok (lib_cose L)
     \<and> aead_lib_ok 32 12 (lib_gcm L) \<and> aead_lib_ok 32 24 (lib_xaes L)
     \<and> aead_lib_ok 32 24 (lib_xchacha L) \<and> cbc_ok L \<and> hash_ok L"


section \<open>The contract of the Aead trait\<close>

text \<open>
  What the COSE layer needs of a cipher: decryption accepts exactly the encryptions, and it
  fails with one error value only.
\<close>

locale aead_cipher =
  fixes lib_ok :: "'l \<Rightarrow> bool"
    and key_len :: nat
    and nonce_len :: nat
    and encrypt :: "'l \<Rightarrow> bytes \<Rightarrow> bytes \<Rightarrow> bytes \<Rightarrow> bytes \<Rightarrow> bytes"
    and decrypt :: "'l \<Rightarrow> bytes \<Rightarrow> bytes \<Rightarrow> bytes \<Rightarrow> bytes \<Rightarrow> (bytes, crypto_error) result"
  assumes decrypt_iff: "lib_ok l \<Longrightarrow> length k = key_len \<Longrightarrow> length n = nonce_len \<Longrightarrow>
      decrypt l k n c a = Ok p \<longleftrightarrow> c = encrypt l k n p a"
    and decrypt_error: "decrypt l k n c a = Err e \<Longrightarrow> e = KeyDecrypt"
begin

lemma decrypt_encrypt:
  "lib_ok l \<Longrightarrow> length k = key_len \<Longrightarrow> length n = nonce_len \<Longrightarrow>
   decrypt l k n (encrypt l k n p a) a = Ok p"
  by (simp add: decrypt_iff)

lemma encrypt_inj:
  assumes "lib_ok l" "length k = key_len" "length n = nonce_len"
    and "encrypt l k n p a = encrypt l k n q a"
  shows "p = q"
proof -
  have "Ok p = decrypt l k n (encrypt l k n q a) a"
    using decrypt_encrypt [OF assms(1-3), of p a] unfolding assms(4) by (rule sym)
  also have "\<dots> = Ok q" by (rule decrypt_encrypt [OF assms(1-3)])
  finally show ?thesis by simp
qed

lemma not_an_encryption:
  assumes "lib_ok l" "length k = key_len" "length n = nonce_len"
    and "\<And>p. c \<noteq> encrypt l k n p a"
  shows "decrypt l k n c a = Err KeyDecrypt"
proof (cases "decrypt l k n c a")
  case (Ok p)
  then have "c = encrypt l k n p a" by (simp only: decrypt_iff [OF assms(1-3)])
  with assms(4) show ?thesis by blast
next
  case (Err e)
  from decrypt_error [OF Err] Err show ?thesis by simp
qed

end


section \<open>The four ciphers satisfy the contract\<close>

lemma try_into_array_Ok [result_simps]: "try_into_array n e bs = Ok r \<longleftrightarrow> length bs = n \<and> r = bs"
  by (auto simp: try_into_array_def)

lemma try_into_array_Err [result_simps]: "try_into_array n e bs = Err e' \<longleftrightarrow> length bs \<noteq> n \<and> e' = e"
  by (auto simp: try_into_array_def)

lemma crypto_lib_okD:
  assumes "crypto_lib_ok L"
  shows "b64_lib_ok (lib_b64 L)" "encrypt0_roundtrip (lib_cose L)" "cose_key_roundtrip (lib_cose L)"
    "aead_lib_ok 32 12 (lib_gcm L)" "aead_lib_ok 32 24 (lib_xaes L)"
    "aead_lib_ok 32 24 (lib_xchacha L)" "cbc_ok L" "hash_ok L"
  using assms by (simp_all add: crypto_lib_ok_def cose_lib_ok_def)

interpretation gcm: aead_cipher crypto_lib_ok 32 12 Aes256Gcm_encrypt Aes256Gcm_decrypt
  by unfold_locales
     (auto simp: Aes256Gcm_encrypt_def Aes256Gcm_decrypt_def crypto_lib_ok_def aead_lib_ok_def
        result_simps)

interpretation xaes: aead_cipher crypto_lib_ok 32 24 XAes256Gcm_encrypt XAes256Gcm_decrypt
  by unfold_locales
     (auto simp: XAes256Gcm_encrypt_def XAes256Gcm_decrypt_def crypto_lib_ok_def aead_lib_ok_def
        result_simps)

interpretation xchacha: aead_cipher crypto_lib_ok 32 24
  XChaCha20Poly1305_encrypt XChaCha20Poly1305_decrypt
  by unfold_locales
     (auto simp: XChaCha20Poly1305_encrypt_def XChaCha20Poly1305_decrypt_def crypto_lib_ok_def
        aead_lib_ok_def result_simps)

lemma cbc_decrypt_iff:
  "cbc_ok L \<Longrightarrow> length k = 32 \<Longrightarrow> length iv = 16 \<Longrightarrow>
   cbc_decrypt L k iv c = Some p \<longleftrightarrow> c = cbc_encrypt L k iv p"
  by (simp add: cbc_ok_def)

lemma split_last_mac:
  assumes "length m = MAC_SIZE"
  shows "MAC_SIZE \<le> length c \<and> take (length c - MAC_SIZE) c = d \<and> drop (length c - MAC_SIZE) c = m
         \<longleftrightarrow> c = d @ m"
proof
  assume "MAC_SIZE \<le> length c \<and> take (length c - MAC_SIZE) c = d \<and> drop (length c - MAC_SIZE) c = m"
  then show "c = d @ m" by (metis append_take_drop_id)
qed (use assms in simp)

lemma cbc_hmac_aead_decrypt_iff:
  assumes "cbc_ok L" "hash_ok L" "length k = 64" "length n = 16"
  shows "Aes256CbcHmacSha256Aead_decrypt L k n c a = Ok p
         \<longleftrightarrow> c = Aes256CbcHmacSha256Aead_encrypt L k n p a"
proof -
  let ?ek = "take ENC_KEY_SIZE k" and ?mk = "drop ENC_KEY_SIZE k"
  let ?mac = "\<lambda>d. calculate_mac_with_aad L n d a ?mk"
  let ?d = "take (length c - MAC_SIZE) c" and ?m = "drop (length c - MAC_SIZE) c"
  have ek: "length ?ek = 32" using assms(3) by (simp add: ENC_KEY_SIZE_def)
  have mac: "length (?mac d) = MAC_SIZE" for d
    using assms(2) by (simp add: hash_ok_def calculate_mac_with_aad_def MAC_SIZE_def)
  have "Aes256CbcHmacSha256Aead_decrypt L k n c a = Ok p
        \<longleftrightarrow> MAC_SIZE \<le> length c \<and> ?mac ?d = ?m \<and> cbc_decrypt L ?ek n ?d = Some p"
    by (auto simp: Aes256CbcHmacSha256Aead_decrypt_def split_to_subkeys_def Let_def result_simps)
  also have "\<dots> \<longleftrightarrow> MAC_SIZE \<le> length c \<and> ?d = cbc_encrypt L ?ek n p
                   \<and> ?m = ?mac (cbc_encrypt L ?ek n p)"
    by (auto simp: cbc_decrypt_iff [OF assms(1) ek assms(4)])
  also have "\<dots> \<longleftrightarrow> c = cbc_encrypt L ?ek n p @ ?mac (cbc_encrypt L ?ek n p)"
    by (rule split_last_mac [OF mac])
  finally show ?thesis
    by (simp add: Aes256CbcHmacSha256Aead_encrypt_def split_to_subkeys_def Let_def)
qed

interpretation cbc_hmac: aead_cipher crypto_lib_ok 64 16
  Aes256CbcHmacSha256Aead_encrypt Aes256CbcHmacSha256Aead_decrypt
proof unfold_locales
  show "Aes256CbcHmacSha256Aead_decrypt l k n c a = Ok p \<longleftrightarrow>
        c = Aes256CbcHmacSha256Aead_encrypt l k n p a"
    if "crypto_lib_ok l" "length k = 64" "length n = 16" for l k n c a p
    using cbc_hmac_aead_decrypt_iff crypto_lib_okD that by blast
  show "e = KeyDecrypt" if "Aes256CbcHmacSha256Aead_decrypt l k n c a = Err e" for l k n c a e
    using that by (auto simp: Aes256CbcHmacSha256Aead_decrypt_def split_to_subkeys_def Let_def
        result_simps split: if_splits)
qed

text \<open>The legacy construction: exactly the pairs of MAC and ciphertext it produced decrypt.\<close>

lemma legacy_decrypt_iff:
  assumes "cbc_ok L" "length k = 64" "length iv = 16"
  shows "Aes256CbcHmacSha256_decrypt L iv c mac k = Ok p
         \<longleftrightarrow> (mac, c) = Aes256CbcHmacSha256_encrypt L iv p k"
proof -
  have "length (take ENC_KEY_SIZE k) = 32" using assms(2) by (simp add: ENC_KEY_SIZE_def)
  from cbc_decrypt_iff [OF assms(1) this assms(3)] show ?thesis
    by (auto simp: Aes256CbcHmacSha256_decrypt_def Aes256CbcHmacSha256_encrypt_def
          split_to_subkeys_def Let_def result_simps)
qed

lemma legacy_wrong_mac:
  "mac \<noteq> calculate_mac L iv c (drop ENC_KEY_SIZE k)
   \<Longrightarrow> Aes256CbcHmacSha256_decrypt L iv c mac k = Err IntegrityCheckFailed"
  by (simp add: Aes256CbcHmacSha256_decrypt_def split_to_subkeys_def Let_def)


section \<open>The input of the MAC\<close>

lemma length_MAC_DOMAIN_SEPARATOR: "length MAC_DOMAIN_SEPARATOR = 40"
  by (simp add: MAC_DOMAIN_SEPARATOR_def)

text \<open>The MAC input determines IV, ciphertext and associated data.\<close>

lemma mac_input_with_aad_inj:
  assumes "length iv = 16" "length iv' = 16"
    and "length d < 2 ^ 64" "length d' < 2 ^ 64" "length a < 2 ^ 64" "length a' < 2 ^ 64"
    and eq: "mac_input_with_aad iv d a = mac_input_with_aad iv' d' a'"
  shows "iv = iv' \<and> d = d' \<and> a = a'"
proof -
  have bound: "(256 :: nat) ^ 8 = 2 ^ 64" by simp
  from eq have 1: "iv = iv'" and r1: "be_bytes 8 (length d) @ d @ be_bytes 8 (length a) @ a
      = be_bytes 8 (length d') @ d' @ be_bytes 8 (length a') @ a'"
    using assms(1,2) by (simp_all add: mac_input_with_aad_def append_eq_append_conv)
  from r1 have "be_bytes 8 (length d) = be_bytes 8 (length d')"
    and r2: "d @ be_bytes 8 (length a) @ a = d' @ be_bytes 8 (length a') @ a'"
    by (simp_all add: append_eq_append_conv)
  from this(1) have "length d = length d'"
    by (rule be_bytes_inj) (simp_all only: bound assms)
  with r2 have "d = d'" and "a = a'" by (simp_all add: append_eq_append_conv)
  with 1 show ?thesis by simp
qed

text \<open>
  The label does not separate the construction from the legacy one: what is MACed with
  associated data is also what the legacy construction MACs for the IV that consists of the
  first 16 bytes of the label.
\<close>

lemma mac_input_is_legacy_input:
  "calculate_mac_with_aad L iv d a mac_key =
     calculate_mac L (take 16 MAC_DOMAIN_SEPARATOR)
       (drop 16 MAC_DOMAIN_SEPARATOR @ iv @ be_bytes 8 (length d) @ d @ be_bytes 8 (length a) @ a)
       mac_key"
  by (simp add: calculate_mac_with_aad_def calculate_mac_def mac_input_with_aad_def
        flip: append_assoc)


section \<open>Properties\<close>

text \<open>C37: The MAC input of the AEAD construction determines IV, ciphertext and associated data:
  no two messages of fewer than \<open>2^64\<close> bytes share a MAC input.\<close>

theorem aead_mac_input_injective:
  assumes "length iv = 16" "length iv' = 16"
    and "length d < 2 ^ 64" "length d' < 2 ^ 64" "length a < 2 ^ 64" "length a' < 2 ^ 64"
  shows "mac_input_with_aad iv d a = mac_input_with_aad iv' d' a' \<longleftrightarrow> iv = iv' \<and> d = d' \<and> a = a'"
  using mac_input_with_aad_inj [OF assms] by blast

theorem aead_mac_input_injective_witness:
  "mac_input_with_aad (replicate 16 0) [1, 2] [3] \<noteq> mac_input_with_aad (replicate 16 0) [1] [2, 3]"
  using aead_mac_input_injective [of "replicate 16 0" "replicate 16 0" "[1, 2]" "[1]" "[3]" "[2, 3]"]
  by simp

text \<open>The tag of an AEAD ciphertext is also a valid legacy tag.  For the IV made of the first
  16 bytes of the domain label and the rest of the MAC input as ciphertext, the legacy
  decryption passes its integrity check with the AEAD tag and goes on to the block cipher.\<close>

theorem aead_tag_accepted_by_legacy:
  "Aes256CbcHmacSha256_decrypt L (take 16 MAC_DOMAIN_SEPARATOR)
     (drop 16 MAC_DOMAIN_SEPARATOR @ iv @ be_bytes 8 (length d) @ d @ be_bytes 8 (length a) @ a)
     (calculate_mac_with_aad L iv d a (drop ENC_KEY_SIZE key)) key
   = ok_or FormatWrong (cbc_decrypt L (take ENC_KEY_SIZE key) (take 16 MAC_DOMAIN_SEPARATOR)
       (drop 16 MAC_DOMAIN_SEPARATOR @ iv @ be_bytes 8 (length d) @ d @ be_bytes 8 (length a) @ a))"
  using mac_input_is_legacy_input [of L iv d a "drop ENC_KEY_SIZE key"]
  by (simp add: Aes256CbcHmacSha256_decrypt_def split_to_subkeys_def Let_def)

end
