(* ===== verification/Reference_Libs.thy ===== *)
theory Reference_Libs
  imports Hazmat
begin

text \<open>
  Executable functions that satisfy the laws of the external libraries: RFC 4648 Base64, a
  tag-length-value serializer for the COSE structures, and simple keyed transformations in
  place of the ciphers and hashes.  They show that the hypotheses of the theorems can hold,
  and give the theorems concrete instances.  They are not models of the real ciphers.
\<close>


section \<open>Base64\<close>

definition alphabet_index :: "string \<Rightarrow> char \<Rightarrow> nat option" where
  "alphabet_index symbols c =
     (if c \<in> set symbols then Some (length (takeWhile (\<lambda>d. d \<noteq> c) symbols)) else None)"

definition bytes_to_bits :: "bytes \<Rightarrow> bool list" where
  "bytes_to_bits bs = concat (map (\<lambda>b. to_bits 8 (unat b)) bs)"

definition bits_to_bytes :: "bool list \<Rightarrow> bytes" where
  "bits_to_bytes bits = map (\<lambda>c. of_nat (of_bits c)) (chunks_exact 8 bits)"

text \<open>The bits are filled up with zeros to a multiple of \<open>k\<close> and written \<open>k\<close> at a time.\<close>

definition radix_encode :: "nat \<Rightarrow> string \<Rightarrow> bytes \<Rightarrow> string" where
  "radix_encode k symbols bs =
     (let bits = bytes_to_bits bs;
          fill = (k - length bits mod k) mod k
      in map (\<lambda>c. symbols ! of_bits c) (chunks_exact k (bits @ replicate fill False)))"

definition radix_decode :: "nat \<Rightarrow> string \<Rightarrow> string \<Rightarrow> bytes option" where
  "radix_decode k symbols s =
     (if set s \<subseteq> set symbols
      then Some (bits_to_bytes (concat (map (\<lambda>c. to_bits k (the (alphabet_index symbols c))) s)))
      else None)"

definition b64_ref :: b64_lib where
  "b64_ref = \<lparr>encoder_output = (\<lambda>cs. let s = radix_encode 6 b64_symbols (concat cs)
       in s @ replicate ((4 - length s mod 4) mod 4) BASE64_PADDING),
     permissive_decode = radix_decode 6 b64_symbols\<rparr>"


section \<open>A serializer for COSE structures\<close>

type_synonym 'a decoder = "bytes \<Rightarrow> ('a \<times> bytes) option"

definition bind_dec :: "'a decoder \<Rightarrow> ('a \<Rightarrow> 'b decoder) \<Rightarrow> 'b decoder" where
  "bind_dec d f bs = (case d bs of None \<Rightarrow> None | Some (x, r) \<Rightarrow> f x r)"

definition return_dec :: "'a \<Rightarrow> 'a decoder" where
  "return_dec x r = Some (x, r)"

fun enc_nat :: "nat \<Rightarrow> bytes" where
  "enc_nat n = (if n < 128 then [of_nat n] else of_nat (128 + n mod 128) # enc_nat (n div 128))"

declare enc_nat.simps [simp del]

fun dec_nat :: "nat decoder" where
  "dec_nat [] = None"
| "dec_nat (b # bs) =
     (if unat b < 128 then Some (unat b, bs)
      else case dec_nat bs of None \<Rightarrow> None | Some (n, r) \<Rightarrow> Some (unat b - 128 + 128 * n, r))"

definition enc_int :: "int \<Rightarrow> bytes" where
  "enc_int i = (if 0 \<le> i then 0 # enc_nat (nat i) else 1 # enc_nat (nat (- i)))"

fun dec_int :: "int decoder" where
  "dec_int [] = None"
| "dec_int (b # bs) = bind_dec dec_nat (\<lambda>n. return_dec (if b = 0 then int n else - int n)) bs"

fun dec_many :: "nat \<Rightarrow> 'a decoder \<Rightarrow> 'a list decoder" where
  "dec_many 0 d bs = Some ([], bs)"
| "dec_many (Suc n) d bs = bind_dec d (\<lambda>x. bind_dec (dec_many n d) (\<lambda>xs. return_dec (x # xs))) bs"

definition enc_list :: "('a \<Rightarrow> bytes) \<Rightarrow> 'a list \<Rightarrow> bytes" where
  "enc_list e xs = enc_nat (length xs) @ concat (map e xs)"

definition dec_list :: "'a decoder \<Rightarrow> 'a list decoder" where
  "dec_list d = bind_dec dec_nat (\<lambda>n. dec_many n d)"

fun dec_byte :: "u8 decoder" where
  "dec_byte [] = None"
| "dec_byte (b # bs) = Some (b, bs)"

definition enc_bytes :: "bytes \<Rightarrow> bytes" where
  "enc_bytes = enc_list (\<lambda>b. [b])"

definition dec_bytes :: "bytes decoder" where
  "dec_bytes = dec_list dec_byte"

definition enc_string_text :: "string \<Rightarrow> bytes" where
  "enc_string_text s = enc_bytes (map of_char s)"

definition dec_string_text :: "string decoder" where
  "dec_string_text = bind_dec dec_bytes (\<lambda>bs. return_dec (map (\<lambda>b. char_of (unat b)) bs))"

fun enc_opt :: "('a \<Rightarrow> bytes) \<Rightarrow> 'a option \<Rightarrow> bytes" where
  "enc_opt e None = [0]"
| "enc_opt e (Some x) = 1 # e x"

fun dec_opt :: "'a decoder \<Rightarrow> 'a option decoder" where
  "dec_opt d [] = None"
| "dec_opt d (b # bs) = (if b = 0 then Some (None, bs) else bind_dec d (\<lambda>x. return_dec (Some x)) bs)"

definition enc_pair :: "('a \<Rightarrow> bytes) \<Rightarrow> ('b \<Rightarrow> bytes) \<Rightarrow> 'a \<times> 'b \<Rightarrow> bytes" where
  "enc_pair e f p = e (fst p) @ f (snd p)"

definition dec_pair :: "'a decoder \<Rightarrow> 'b decoder \<Rightarrow> ('a \<times> 'b) decoder" where
  "dec_pair d g = bind_dec d (\<lambda>x. bind_dec g (\<lambda>y. return_dec (x, y)))"

fun enc_algorithm :: "cose_algorithm \<Rightarrow> bytes" where
  "enc_algorithm (PrivateUse i) = 0 # enc_int i"
| "enc_algorithm (AssignedAlgorithm A256GCM) = [1]"
| "enc_algorithm (AssignedAlgorithm EdDSA) = [2]"
| "enc_algorithm (AssignedAlgorithm (IanaAlgorithm i)) = 3 # enc_int i"
| "enc_algorithm (TextAlgorithm t) = 4 # enc_string_text t"
| "enc_algorithm (AssignedAlgorithm Direct_HKDF_SHA_256) = [5]"

fun dec_algorithm :: "cose_algorithm decoder" where
  "dec_algorithm [] = None"
| "dec_algorithm (b # bs) =
     (if b = 0 then bind_dec dec_int (\<lambda>i. return_dec (PrivateUse i)) bs
      else if b = 1 then Some (AssignedAlgorithm A256GCM, bs)
      else if b = 2 then Some (AssignedAlgorithm EdDSA, bs)
      else if b = 3 then bind_dec dec_int (\<lambda>i. return_dec (AssignedAlgorithm (IanaAlgorithm i))) bs
      else if b = 5 then Some (AssignedAlgorithm Direct_HKDF_SHA_256, bs)
      else bind_dec dec_string_text (\<lambda>t. return_dec (TextAlgorithm t)) bs)"

fun enc_content_type :: "content_type \<Rightarrow> bytes" where
  "enc_content_type (AssignedContentType coap_content_format.OctetStream) = [0]"
| "enc_content_type (AssignedContentType coap_content_format.Cbor) = [1]"
| "enc_content_type (AssignedContentType Pkcs8) = [2]"
| "enc_content_type (AssignedContentType coap_content_format.CoseEncrypt0) = [3]"
| "enc_content_type (AssignedContentType coap_content_format.CoseSign1) = [4]"
| "enc_content_type (AssignedContentType coap_content_format.CoseKey) = [5]"
| "enc_content_type (AssignedContentType (CoapContentFormat i)) = 6 # enc_int i"
| "enc_content_type (TextContentType t) = 7 # enc_string_text t"

fun dec_content_type :: "content_type decoder" where
  "dec_content_type [] = None"
| "dec_content_type (b # bs) =
     (if b = 0 then Some (AssignedContentType coap_content_format.OctetStream, bs)
      else if b = 1 then Some (AssignedContentType coap_content_format.Cbor, bs)
      else if b = 2 then Some (AssignedContentType Pkcs8, bs)
      else if b = 3 then Some (AssignedContentType coap_content_format.CoseEncrypt0, bs)
      else if b = 4 then Some (AssignedContentType coap_content_format.CoseSign1, bs)
      else if b = 5 then Some (AssignedContentType coap_content_format.CoseKey, bs)
      else if b = 6 then bind_dec dec_int (\<lambda>i. return_dec (AssignedContentType (CoapContentFormat i))) bs
      else bind_dec dec_string_text (\<lambda>t. return_dec (TextContentType t)) bs)"

fun enc_label :: "cose_label \<Rightarrow> bytes" where
  "enc_label (IntLabel i) = 0 # enc_int i"
| "enc_label (TextLabel t) = 1 # enc_string_text t"

fun dec_label :: "cose_label decoder" where
  "dec_label [] = None"
| "dec_label (b # bs) =
     (if b = 0 then bind_dec dec_int (\<lambda>i. return_dec (IntLabel i)) bs
      else bind_dec dec_string_text (\<lambda>t. return_dec (TextLabel t)) bs)"

text \<open>Nested values do not occur in headers; they are written without their content.\<close>

fun enc_value :: "cbor_value \<Rightarrow> bytes" where
  "enc_value (Integer i) = 0 # enc_int i"
| "enc_value (Bytes b) = 1 # enc_bytes b"
| "enc_value (TextValue t) = 2 # enc_string_text t"
| "enc_value (BoolValue b) = [if b then 3 else 4]"
| "enc_value _ = [5]"

fun dec_value :: "cbor_value decoder" where
  "dec_value [] = None"
| "dec_value (b # bs) =
     (if b = 0 then bind_dec dec_int (\<lambda>i. return_dec (Integer i)) bs
      else if b = 1 then bind_dec dec_bytes (\<lambda>x. return_dec (Bytes x)) bs
      else if b = 2 then bind_dec dec_string_text (\<lambda>t. return_dec (TextValue t)) bs
      else if b = 3 then Some (BoolValue True, bs)
      else if b = 4 then Some (BoolValue False, bs)
      else Some (NullValue, bs))"

definition enc_header :: "header \<Rightarrow> bytes" where
  "enc_header h = enc_opt enc_algorithm (header_alg h) @ enc_opt enc_content_type (header_content_type h)
     @ enc_bytes (header_key_id h) @ enc_bytes (header_iv h)
     @ enc_list (enc_pair enc_label enc_value) (header_rest h)"

definition dec_header :: "header decoder" where
  "dec_header =
     bind_dec (dec_opt dec_algorithm) (\<lambda>a. bind_dec (dec_opt dec_content_type) (\<lambda>c.
     bind_dec dec_bytes (\<lambda>kid. bind_dec dec_bytes (\<lambda>iv.
     bind_dec (dec_list (dec_pair dec_label dec_value)) (\<lambda>rest.
       return_dec \<lparr>header_alg = a, header_content_type = c, header_key_id = kid, header_iv = iv,
                   header_rest = rest\<rparr>)))))"

definition ref_encrypt0_to_vec :: "cose_encrypt0 \<Rightarrow> (bytes, string) result" where
  "ref_encrypt0_to_vec m = Ok (enc_header (parsed_header (encrypt0_protected m))
     @ enc_header (encrypt0_unprotected m) @ enc_opt enc_bytes (encrypt0_ciphertext m))"

definition ref_encrypt0_from_slice :: "bytes \<Rightarrow> (cose_encrypt0, string) result" where
  "ref_encrypt0_from_slice bs =
     (case (bind_dec dec_header (\<lambda>p. bind_dec dec_header (\<lambda>u. bind_dec (dec_opt dec_bytes) (\<lambda>c.
        return_dec \<lparr>encrypt0_protected = \<lparr>original_data = Some (enc_header p), parsed_header = p\<rparr>,
          encrypt0_unprotected = u, encrypt0_ciphertext = c\<rparr>)))) bs of
        Some (m, []) \<Rightarrow> Ok m
      | _ \<Rightarrow> Err ''invalid'')"

fun op_of_value :: "nat \<Rightarrow> key_operation" where
  "op_of_value n = (if n = 1 then Sign else if n = 2 then Verify else if n = 3 then key_operation.Encrypt
     else if n = 4 then key_operation.Decrypt else if n = 5 then WrapKey else if n = 6 then UnwrapKey
     else if n = 7 then DeriveKey else if n = 8 then DeriveBits else if n = 9 then MacCreate else MacVerify)"

fun enc_op :: "key_op_label \<Rightarrow> bytes" where
  "enc_op (AssignedOp op) = [of_nat (key_operation_value op)]"
| "enc_op (TextOp t) = 0 # enc_string_text t"

fun dec_op :: "key_op_label decoder" where
  "dec_op [] = None"
| "dec_op (b # bs) =
     (if b = 0 then bind_dec dec_string_text (\<lambda>t. return_dec (TextOp t)) bs
      else Some (AssignedOp (op_of_value (unat b)), bs))"

definition enc_cose_key :: "cose_key \<Rightarrow> bytes" where
  "enc_cose_key k = (if cose_kty k = Symmetric then 0 else 1) # enc_bytes (cose_key_id k)
     @ enc_opt enc_algorithm (cose_alg k) @ enc_list enc_op (cose_key_ops k)
     @ enc_list (enc_pair enc_label enc_value) (cose_params k)"

definition dec_cose_key :: "cose_key decoder" where
  "dec_cose_key =
     bind_dec dec_byte (\<lambda>b. bind_dec dec_bytes (\<lambda>kid. bind_dec (dec_opt dec_algorithm) (\<lambda>a.
     bind_dec (dec_list dec_op) (\<lambda>ops. bind_dec (dec_list (dec_pair dec_label dec_value)) (\<lambda>ps.
       return_dec \<lparr>cose_kty = (if b = 0 then Symmetric else OKP), cose_key_id = kid, cose_alg = a,
                   cose_key_ops = ops, cose_params = ps\<rparr>)))))"

definition ref_cose_key_from_slice :: "bytes \<Rightarrow> (cose_key, string) result" where
  "ref_cose_key_from_slice bs =
     (case dec_cose_key bs of Some (k, []) \<Rightarrow> Ok k | _ \<Rightarrow> Err ''invalid'')"

definition cose_ref :: cose_lib where
  "cose_ref = \<lparr>encrypt0_to_vec = ref_encrypt0_to_vec, encrypt0_from_slice = ref_encrypt0_from_slice,
     encrypt0_aad = (\<lambda>p ext. 0 # enc_header (parsed_header p) @ ext),
     encrypt_aad = (\<lambda>p ext. 1 # enc_header (parsed_header p) @ ext),
     cose_key_to_vec = (\<lambda>k. Ok (enc_cose_key k)), cose_key_from_slice = ref_cose_key_from_slice,
     cbor_to_vec = enc_value\<rparr>"


section \<open>Ciphers and hashes\<close>

text \<open>The ciphertext is the plaintext with a checksum over key, nonce, data and associated data.\<close>

definition checksum :: "bytes \<Rightarrow> u8" where
  "checksum bs = foldl (\<lambda>a b. 3 * a + b) 1 bs"

definition aead_ref :: aead_lib where
  "aead_ref = \<lparr>aead_encrypt = (\<lambda>k n p a. p @ [checksum (k @ n @ a @ p)]),
     aead_decrypt = (\<lambda>k n c a.
       if c \<noteq> [] \<and> last c = checksum (k @ n @ a @ butlast c) then Some (butlast c) else None)\<rparr>"

definition crypto_ref :: crypto_lib where
  "crypto_ref = \<lparr>lib_b64 = b64_ref, lib_cose = cose_ref, lib_gcm = aead_ref, lib_xaes = aead_ref,
     lib_xchacha = aead_ref,
     cbc_encrypt = (\<lambda>k iv p. p @ [1]),
     cbc_decrypt = (\<lambda>k iv c. if c \<noteq> [] \<and> last c = 1 then Some (butlast c) else None),
     hmac_sha256 = (\<lambda>k m. replicate 32 (checksum (k @ m))),
     sha256 = (\<lambda>m. replicate 32 (checksum m)),
     hkdf_sha256_expand = (\<lambda>prk info n. replicate n (checksum (prk @ info)))\<rparr>"

text \<open>A decoder that reads one encoded value and leaves the rest.\<close>

definition decodes :: "('a \<Rightarrow> bytes) \<Rightarrow> 'a decoder \<Rightarrow> 'a \<Rightarrow> bool" where
  "decodes e d x \<longleftrightarrow> (\<forall>r. d (e x @ r) = Some (x, r))"


section \<open>Base64 satisfies its laws\<close>

lemma alphabet_index_nth:
  assumes "distinct symbols" "i < length symbols"
  shows "alphabet_index symbols (symbols ! i) = Some i"
proof -
  have "takeWhile (\<lambda>d. d \<noteq> symbols ! i) symbols = take i symbols"
    using assms by (intro takeWhile_eq_take_P_nth) (auto simp: nth_eq_iff_index_eq)
  with assms show ?thesis by (simp add: alphabet_index_def)
qed

lemma bits_to_bytes_bits:
  assumes "length rest < 8"
  shows "bits_to_bytes (bytes_to_bits bs @ rest) = bs"
proof -
  have "chunks_exact 8 (bytes_to_bits bs @ rest) = map (\<lambda>b. to_bits 8 (unat b)) bs"
    using assms unfolding bytes_to_bits_def by (intro chunks_exact_concat) auto
  moreover have "of_nat (of_bits (to_bits 8 (unat b))) = b" for b :: u8
    using unat_u8_less [of b] by (simp add: of_bits_to_bits)
  ultimately show ?thesis by (simp add: bits_to_bytes_def comp_def)
qed

lemma concat_chunks_exact: "0 < k \<Longrightarrow> length xs mod k = 0 \<Longrightarrow> concat (chunks_exact k xs) = xs"
proof (induction k xs rule: chunks_exact.induct)
  case (1 k xs)
  show ?case
  proof (cases "length xs < k")
    case True
    with 1(3) have "xs = []" by simp
    with 1(2) show ?thesis by (simp add: chunks_exact_short)
  next
    case False
    then have "length (drop k xs) mod k = 0"
      using 1(3) le_mod_geq [of k "length xs"] by simp
    with 1(1,2) False have "concat (chunks_exact k (drop k xs)) = drop k xs" by blast
    with False 1(2) show ?thesis by (simp add: chunks_exact.simps [of k xs])
  qed
qed

lemma chunks_exact_length: "c \<in> set (chunks_exact k xs) \<Longrightarrow> length c = k"
proof (induction k xs rule: chunks_exact.induct)
  case (1 k xs)
  then show ?case by (cases "k = 0 \<or> length xs < k") (auto simp: chunks_exact.simps [of k xs])
qed

lemma fill_to_multiple:
  assumes "0 < k"
  shows "(n + (k - n mod k) mod k) mod k = (0 :: nat)"
proof -
  have "(n + (k - n mod k) mod k) mod k = (n + (k - n mod k)) mod k" by (simp add: mod_add_right_eq)
  also have "n + (k - n mod k) = k * (n div k) + k"
    using assms mult_div_mod_eq [of k n] mod_less_divisor [OF assms, of n] by linarith
  finally show ?thesis by simp
qed

lemma radix_decode_encode:
  assumes "0 < k" "k \<le> 8" "distinct symbols" "length symbols = 2 ^ k"
  shows "radix_decode k symbols (radix_encode k symbols bs) = Some bs"
    and "set (radix_encode k symbols bs) \<subseteq> set symbols"
proof -
  let ?bits = "bytes_to_bits bs"
  let ?fill = "(k - length ?bits mod k) mod k"
  let ?cs = "chunks_exact k (?bits @ replicate ?fill False)"
  have len: "length c = k" if "c \<in> set ?cs" for c using that by (rule chunks_exact_length)
  have idx: "of_bits c < length symbols" if "c \<in> set ?cs" for c
    using of_bits_less [of c] unfolding assms(4) len [OF that] .
  show sub: "set (radix_encode k symbols bs) \<subseteq> set symbols"
    unfolding radix_encode_def Let_def set_map using idx nth_mem by (meson image_subsetI)
  have "to_bits k (the (alphabet_index symbols (symbols ! of_bits c))) = c" if "c \<in> set ?cs" for c
    unfolding alphabet_index_nth [OF assms(3) idx [OF that]] option.sel
    using to_bits_of_bits [of c] unfolding len [OF that] .
  then have cs: "map (\<lambda>c. to_bits k (the (alphabet_index symbols c))) (radix_encode k symbols bs) = ?cs"
    unfolding radix_encode_def Let_def map_map comp_def by (rule map_idI)
  have "length (?bits @ replicate ?fill False) mod k = 0"
    unfolding length_append length_replicate by (rule fill_to_multiple [OF assms(1)])
  then have bits: "concat ?cs = ?bits @ replicate ?fill False" by (rule concat_chunks_exact [OF assms(1)])
  have "length (replicate ?fill False) < 8"
    unfolding length_replicate
    using mod_less_divisor [OF assms(1), of "k - length ?bits mod k"] assms(2) by linarith
  from bits_to_bytes_bits [OF this] sub
  show "radix_decode k symbols (radix_encode k symbols bs) = Some bs"
    unfolding radix_decode_def cs bits by simp
qed

lemma b64_symbols_alphabet: "distinct b64_symbols" "length b64_symbols = 2 ^ 6"
  by code_simp+

lemma b64_ref_ok: "b64_lib_ok b64_ref"
proof -
  have "radix_decode 6 b64_symbols (radix_encode 6 b64_symbols bs) = Some bs"
    "set (radix_encode 6 b64_symbols bs) \<subseteq> set b64_symbols" for bs
    by (rule radix_decode_encode [OF _ _ b64_symbols_alphabet]; simp)+
  then show ?thesis
    unfolding b64_lib_ok_def encodes_over_def b64_ref_def b64_lib.simps Let_def by blast
qed

section \<open>The serializer satisfies its laws\<close>

lemma bind_decoded [simp]: "decodes e d x \<Longrightarrow> bind_dec d f (e x @ r) = f x r"
  by (simp add: bind_dec_def decodes_def)

lemma return_dec_apply [simp]: "return_dec x r = Some (x, r)"
  by (simp add: return_dec_def)

lemma decodes_nat: "decodes enc_nat dec_nat n"
  unfolding decodes_def
proof
  fix r show "dec_nat (enc_nat n @ r) = Some (n, r)"
  proof (induction n rule: enc_nat.induct)
    case (1 n)
    show ?case
    proof (cases "n < 128")
      case True
      then show ?thesis by (simp add: enc_nat.simps [of n] unat_of_nat_u8)
    next
      case False
      have "unat (of_nat (128 + n mod 128) :: u8) = 128 + n mod 128"
        using mod_less_divisor [of 128 n] by (intro unat_of_nat_u8) simp
      with 1 [OF False] False show ?thesis
        by (simp add: enc_nat.simps [of n] mult_div_mod_eq del: of_nat_add)
    qed
  qed
qed

lemma decodes_int: "decodes enc_int dec_int i"
  using decodes_nat by (simp add: decodes_def enc_int_def bind_dec_def)

lemma decodes_many:
  "\<forall>x \<in> set xs. decodes e d x \<Longrightarrow> dec_many (length xs) d (concat (map e xs) @ r) = Some (xs, r)"
  by (induction xs arbitrary: r) (simp_all add: bind_dec_def decodes_def)

lemma decodes_list: "\<forall>x \<in> set xs. decodes e d x \<Longrightarrow> decodes (enc_list e) (dec_list d) xs"
  using decodes_nat [of "length xs"] decodes_many [of xs e d]
  by (simp add: decodes_def [of "enc_list e"] enc_list_def dec_list_def)

lemma decodes_bytes: "decodes enc_bytes dec_bytes bs"
  unfolding enc_bytes_def dec_bytes_def by (rule decodes_list) (simp add: decodes_def)

lemma decodes_string: "decodes enc_string_text dec_string_text s"
proof -
  have "char_of (unat (of_char c :: u8)) = c" for c :: char
  proof -
    have "(of_char c :: nat) < 256"
      using of_char_mod_256 [of c, where 'a = nat] by (metis mod_less_divisor zero_less_numeral)
    then show ?thesis using unat_of_nat_u8 [of "of_char c"] by (simp add: of_nat_of_char)
  qed
  then show ?thesis
    using decodes_bytes [of "map of_char s"]
    by (simp add: decodes_def [of enc_string_text] enc_string_text_def dec_string_text_def comp_def)
qed

lemma decodes_opt: "(\<And>y. x = Some y \<Longrightarrow> decodes e d y) \<Longrightarrow> decodes (enc_opt e) (dec_opt d) x"
  by (cases x) (auto simp: decodes_def [of "enc_opt e"])

lemma decodes_pair: "decodes e d (fst p) \<Longrightarrow> decodes f g (snd p) \<Longrightarrow> decodes (enc_pair e f) (dec_pair d g) p"
  by (simp add: decodes_def [of "enc_pair e f"] enc_pair_def dec_pair_def)

lemma decodes_algorithm: "decodes enc_algorithm dec_algorithm a"
  using decodes_int decodes_string
  by (cases a rule: enc_algorithm.cases) (simp_all add: decodes_def [of enc_algorithm])

lemma decodes_content_type: "decodes enc_content_type dec_content_type c"
  using decodes_int decodes_string
  by (cases c rule: enc_content_type.cases) (simp_all add: decodes_def [of enc_content_type])

lemma decodes_label: "decodes enc_label dec_label l"
  using decodes_int decodes_string by (cases l) (simp_all add: decodes_def [of enc_label])

lemma decodes_value: "value_encodable v \<Longrightarrow> decodes enc_value dec_value v"
  using decodes_int decodes_string decodes_bytes by (cases v) (simp_all add: decodes_def [of enc_value])

lemma decodes_rest:
  "list_all (\<lambda>(l, v). label_encodable l \<and> value_encodable v) xs
   \<Longrightarrow> decodes (enc_list (enc_pair enc_label enc_value)) (dec_list (dec_pair dec_label dec_value)) xs"
  by (intro decodes_list ballI decodes_pair decodes_label decodes_value) (auto simp: list_all_iff)

lemma decodes_header: "header_encodable h \<Longrightarrow> decodes enc_header dec_header h"
  using decodes_rest [of "header_rest h"] decodes_opt [OF decodes_algorithm]
    decodes_opt [OF decodes_content_type] decodes_bytes
  by (simp add: decodes_def [of enc_header] enc_header_def dec_header_def header_encodable_def)

lemma decodes_op: "decodes enc_op dec_op l"
proof (cases l)
  case (AssignedOp op)
  then show ?thesis by (cases op) (simp_all add: decodes_def)
next
  case (TextOp t)
  then show ?thesis using decodes_string by (simp add: decodes_def [of enc_op])
qed

lemma encrypt0_ref_roundtrip: "encrypt0_roundtrip cose_ref"
  unfolding encrypt0_roundtrip_def
proof (intro allI impI)
  fix m assume "cose_encrypt0_encodable m"
  then have "decodes enc_header dec_header (parsed_header (encrypt0_protected m))"
    "decodes enc_header dec_header (encrypt0_unprotected m)"
    by (simp_all add: cose_encrypt0_encodable_def decodes_header)
  moreover have "decodes (enc_opt enc_bytes) (dec_opt dec_bytes) c" for c
    by (rule decodes_opt [OF decodes_bytes])
  then have "dec_opt dec_bytes (enc_opt enc_bytes c) = Some (c, [])" for c
    unfolding decodes_def by (metis append_Nil2)
  ultimately have "ref_encrypt0_from_slice (enc_header (parsed_header (encrypt0_protected m))
     @ enc_header (encrypt0_unprotected m) @ enc_opt enc_bytes (encrypt0_ciphertext m)) =
     Ok (m\<lparr>encrypt0_protected := \<lparr>original_data = Some (enc_header (parsed_header (encrypt0_protected m))),
           parsed_header = parsed_header (encrypt0_protected m)\<rparr>\<rparr>)"
    by (simp add: ref_encrypt0_from_slice_def bind_dec_def [of "dec_opt dec_bytes"])
  then show "\<exists>bs od. encrypt0_to_vec cose_ref m = Ok bs
      \<and> encrypt0_from_slice cose_ref bs = Ok (m\<lparr>encrypt0_protected :=
          \<lparr>original_data = Some od, parsed_header = parsed_header (encrypt0_protected m)\<rparr>\<rparr>)
      \<and> encrypt0_aad cose_ref \<lparr>original_data = Some od,
          parsed_header = parsed_header (encrypt0_protected m)\<rparr> = encrypt0_aad cose_ref (encrypt0_protected m)"
    by (intro exI [of _ "enc_header (parsed_header (encrypt0_protected m))
          @ enc_header (encrypt0_unprotected m) @ enc_opt enc_bytes (encrypt0_ciphertext m)"]
          exI [of _ "enc_header (parsed_header (encrypt0_protected m))"])
       (simp add: cose_ref_def ref_encrypt0_to_vec_def)
qed

lemma cose_key_ref_roundtrip: "cose_key_roundtrip cose_ref"
  unfolding cose_key_roundtrip_def
proof (intro allI impI)
  fix k assume k: "cose_key_encodable k"
  have ps: "decodes (enc_list (enc_pair enc_label enc_value)) (dec_list (dec_pair dec_label dec_value)) (cose_params k)"
    using k by (intro decodes_rest) (simp add: cose_key_encodable_def)
  have ops: "decodes (enc_list enc_op) (dec_list dec_op) (cose_key_ops k)"
    by (intro decodes_list ballI decodes_op)
  have "decodes enc_cose_key dec_cose_key k"
    using k ps ops decodes_opt [OF decodes_algorithm] decodes_bytes
    by (auto simp: decodes_def [of enc_cose_key] enc_cose_key_def dec_cose_key_def bind_dec_def [of dec_byte]
          cose_key_encodable_def)
  then have "dec_cose_key (enc_cose_key k) = Some (k, [])"
    unfolding decodes_def by (metis append_Nil2)
  then show "\<exists>bs. cose_key_to_vec cose_ref k = Ok bs \<and> cose_key_from_slice cose_ref bs = Ok k"
    by (simp add: cose_ref_def ref_cose_key_from_slice_def)
qed


section \<open>All laws hold\<close>

lemma snoc_decrypt: "(if c \<noteq> [] \<and> last c = f (butlast c) then Some (butlast c) else None) = Some p
    \<longleftrightarrow> c = p @ [f p]"
  by (cases c rule: rev_cases) auto

lemma aead_ref_ok: "aead_lib_ok k n aead_ref"
  unfolding aead_lib_ok_def aead_ref_def aead_lib.simps
  by (intro allI impI) (rule snoc_decrypt)

lemma crypto_ref_ok: "crypto_lib_ok crypto_ref"
proof -
  have "cbc_ok crypto_ref"
    unfolding cbc_ok_def crypto_ref_def crypto_lib.simps
    by (intro allI impI) (rule snoc_decrypt [where f = "\<lambda>_. 1"])
  moreover have "hash_ok crypto_ref" by (simp add: hash_ok_def crypto_ref_def)
  ultimately show ?thesis
    using b64_ref_ok encrypt0_ref_roundtrip cose_key_ref_roundtrip aead_ref_ok
    by (simp add: crypto_lib_ok_def cose_lib_ok_def crypto_ref_def)
qed

lemma crypto_ref_b64 [simp]: "lib_b64 crypto_ref = b64_ref"
  by (simp add: crypto_ref_def)

end
