(* ===== verification/Padding.thy ===== *)
theory Padding
  imports Crypto_Types
begin

text \<open>
  The length-hiding padding of \<open>keys/utils.rs\<close>: \<open>pad_bytes\<close> appends \<open>N\<close> bytes of value \<open>N\<close>,
  \<open>unpad_bytes\<close> removes as many bytes as the last byte says.
\<close>


section \<open>Definitions\<close>

text \<open>\<open>Vec::resize\<close>.\<close>

definition resize :: "bytes \<Rightarrow> nat \<Rightarrow> u8 \<Rightarrow> bytes" where
  "resize bs n v = (if n \<le> length bs then take n bs else bs @ replicate (n - length bs) v)"

definition pad_bytes :: "bytes \<Rightarrow> nat \<Rightarrow> (bytes, crypto_error) result" where
  "pad_bytes bs min_length =
     (let pad = max (min_length - length bs) 1
      in if pad > 255 then Err InvalidPadding
         else let padded_length = max min_length (length bs + 1)
              in Ok (resize bs padded_length (of_nat pad)))"

definition unpad_bytes :: "bytes \<Rightarrow> (bytes, crypto_error) result" where
  "unpad_bytes padded_bytes =
     (if padded_bytes = [] then Err InvalidPadding
      else let pad_len = unat (last padded_bytes)
           in if pad_len = 0 \<or> pad_len > length padded_bytes then Err InvalidPadding
              else Ok (take (length padded_bytes - pad_len) padded_bytes))"


section \<open>Lemmas\<close>

text \<open>Padding is possible exactly when at most 255 bytes are missing.\<close>

lemma pad_bytes_eq:
  "pad_bytes bs m =
     (if m - length bs > 255 then Err InvalidPadding
      else Ok (bs @ replicate (max (m - length bs) 1) (of_nat (max (m - length bs) 1))))"
  by (auto simp: pad_bytes_def resize_def Let_def max_def)

lemma pad_bytes_Ok [result_simps]:
  "pad_bytes bs m = Ok p \<longleftrightarrow>
     m - length bs \<le> 255
     \<and> p = bs @ replicate (max (m - length bs) 1) (of_nat (max (m - length bs) 1))"
  by (auto simp: pad_bytes_eq)

lemma pad_bytes_length: "pad_bytes bs m = Ok p \<Longrightarrow> length p = max m (length bs + 1)"
  by (auto simp: pad_bytes_Ok)

text \<open>What \<open>unpad_bytes\<close> accepts: only the last byte of the padding is looked at.\<close>

lemma unpad_bytes_append:
  assumes "0 < length s" and "length s \<le> 255" and "last s = of_nat (length s)"
  shows "unpad_bytes (bs @ s) = Ok bs"
proof -
  have "unat (last (bs @ s)) = length s"
    using assms by (simp add: unat_of_nat_u8)
  with assms show ?thesis by (auto simp: unpad_bytes_def Let_def)
qed

lemma unpad_bytes_Ok:
  "unpad_bytes p = Ok bs \<longleftrightarrow>
     (\<exists>s. p = bs @ s \<and> 0 < length s \<and> length s \<le> 255 \<and> last s = of_nat (length s))"
proof
  assume ok: "unpad_bytes p = Ok bs"
  let ?n = "unat (last p)"
  from ok have p: "p \<noteq> []" "?n \<noteq> 0" "?n \<le> length p" "bs = take (length p - ?n) p"
    by (auto simp: unpad_bytes_def Let_def split: if_splits)
  let ?s = "drop (length p - ?n) p"
  have "length ?s = ?n" using p by simp
  moreover have "last ?s = last p" using p by (simp add: last_drop)
  moreover have "?n \<le> 255" using unat_u8_less [of "last p"] by simp
  ultimately show "\<exists>s. p = bs @ s \<and> 0 < length s \<and> length s \<le> 255 \<and> last s = of_nat (length s)"
    using p by (intro exI [of _ ?s]) auto
qed (use unpad_bytes_append in blast)

lemma unpad_pad_bytes [codec_simps]: "pad_bytes bs m = Ok p \<Longrightarrow> unpad_bytes p = Ok bs"
  by (auto simp: pad_bytes_Ok intro!: unpad_bytes_append)

lemma unpad_bytes_Err: "unpad_bytes p = Err e \<Longrightarrow> e = InvalidPadding"
  by (auto simp: unpad_bytes_def Let_def split: if_splits)

lemma pad_bytes_Err: "pad_bytes bs m = Err e \<Longrightarrow> e = InvalidPadding \<and> m > length bs + 255"
  by (auto simp: pad_bytes_eq split: if_splits)

text \<open>
  Padding to the next multiple of a block never fails for blocks of at most 255 bytes, and
  the padded length depends only on the number of whole blocks in the input.
\<close>

lemma pad_to_block:
  assumes "0 < B" and "B \<le> 255"
  shows "\<exists>p. pad_bytes bs (B * (1 + length bs div B)) = Ok p
           \<and> length p = B * (1 + length bs div B) \<and> unpad_bytes p = Ok bs"
proof -
  have len: "length bs < B * (1 + length bs div B)"
    using assms(1) by (simp add: dividend_less_times_div)
  have "B * (1 + length bs div B) - length bs = B - length bs mod B"
    by (simp add: minus_mult_div_eq_mod [symmetric] algebra_simps)
  then have "B * (1 + length bs div B) - length bs \<le> 255" using assms by simp
  then obtain p where p: "pad_bytes bs (B * (1 + length bs div B)) = Ok p"
    by (simp add: pad_bytes_eq)
  with pad_bytes_length [OF p] len unpad_pad_bytes [OF p] show ?thesis by auto
qed


section \<open>Properties\<close>

text \<open>Padding fails only when more than 255 bytes would be needed, with the error
  \<open>InvalidPadding\<close>; otherwise the result extends the input to \<open>max m (len + 1)\<close> bytes, and
  removing the padding gives exactly the input back.\<close>

theorem pad_unpad:
  "case pad_bytes bs m of
     Ok p \<Rightarrow> length p = max m (length bs + 1) \<and> take (length bs) p = bs \<and> unpad_bytes p = Ok bs
   | Err e \<Rightarrow> e = InvalidPadding \<and> length bs + 255 < m"
proof (cases "pad_bytes bs m")
  case (Ok p)
  moreover from Ok have "take (length bs) p = bs" by (auto simp: pad_bytes_Ok)
  ultimately show ?thesis
    using pad_bytes_length [OF Ok] unpad_pad_bytes [OF Ok] by simp
next
  case (Err e)
  with pad_bytes_Err [OF Err] show ?thesis by simp
qed

end
