(* ===== verification/Symmetric_Key.thy ===== *)
theory Symmetric_Key
  imports Reference_Libs Padding
begin

text \<open>
  \<open>keys/symmetric_crypto_key.rs\<close>, the key half of \<open>cose/mod.rs\<close> and the key derivation helpers
  of \<open>keys/utils.rs\<close> and \<open>util.rs\<close>.  The three COSE key structs of the source have the same
  fields and share the record \<open>aead_key\<close>.  A key is well formed when its byte arrays have the
  lengths of the Rust array types.  Bytes drawn from the random number generator are
  arguments of the functions that make keys.
\<close>


section \<open>Definitions\<close>

datatype symmetric_key_algorithm =
    Aes256CbcHmac
  | XChaCha20Poly1305
  | Aes256Gcm
  | XAes256Gcm

record aead_key =
  aead_key_id :: key_id
  aead_enc_key :: bytes
  supported_operations :: "key_operation list"

datatype symmetric_crypto_key =
    Aes256CbcKey bytes
  | Aes256CbcHmacKey bytes
  | XChaCha20Poly1305Key aead_key
  | Aes256GcmKey aead_key
  | XAes256GcmKey aead_key

definition AES256_CBC_HMAC_ENC_KEY_SIZE :: nat where
  "AES256_CBC_HMAC_ENC_KEY_SIZE = 32"

definition AES256_CBC_KEY_LEN :: nat where
  "AES256_CBC_KEY_LEN = 32"

definition AES256_CBC_HMAC_KEY_LEN :: nat where
  "AES256_CBC_HMAC_KEY_LEN = 64"

lemmas key_sizes = AES256_CBC_HMAC_ENC_KEY_SIZE_def AES256_CBC_KEY_LEN_def AES256_CBC_HMAC_KEY_LEN_def
  KEY_ID_SIZE_def

subsection \<open>Aes256CbcHmacKey\<close>

definition Aes256CbcHmacKey_new :: "bytes \<Rightarrow> bytes \<Rightarrow> bytes" where
  "Aes256CbcHmacKey_new enc_key mac_key = enc_key @ mac_key"

definition Aes256CbcHmacKey_enc_key :: "bytes \<Rightarrow> bytes" where
  "Aes256CbcHmacKey_enc_key key = take AES256_CBC_HMAC_ENC_KEY_SIZE key"

definition Aes256CbcHmacKey_mac_key :: "bytes \<Rightarrow> bytes" where
  "Aes256CbcHmacKey_mac_key key = drop AES256_CBC_HMAC_ENC_KEY_SIZE key"

text \<open>\<open>kty\<close> has label 1 and the value 4 for symmetric keys; \<open>k\<close> has label -1.\<close>

definition symmetric_key_thumbprint :: "crypto_lib \<Rightarrow> bytes \<Rightarrow> bytes" where
  "symmetric_key_thumbprint L key_bytes =
     thumbprint_from_required_params (sha256 L) (lib_cose L)
       [(1, Integer 4), (- 1, Bytes key_bytes)]"

definition Aes256CbcHmacKey_key_id :: "crypto_lib \<Rightarrow> bytes \<Rightarrow> key_id" where
  "Aes256CbcHmacKey_key_id L key = take KEY_ID_SIZE (symmetric_key_thumbprint L key)"

subsection \<open>The COSE keys\<close>

definition aead_key_make :: "bytes \<Rightarrow> key_id \<Rightarrow> aead_key" where
  "aead_key_make rng_enc_key rng_key_id =
     \<lparr>aead_key_id = rng_key_id, aead_enc_key = rng_enc_key,
      supported_operations = [key_operation.Decrypt, key_operation.Encrypt, WrapKey, UnwrapKey]\<rparr>"

definition disable_key_operation :: "key_operation \<Rightarrow> aead_key \<Rightarrow> aead_key" where
  "disable_key_operation op key =
     key\<lparr>supported_operations := filter (\<lambda>k. k \<noteq> op) (supported_operations key)\<rparr>"

definition aead_key_ct_eq :: "aead_key \<Rightarrow> aead_key \<Rightarrow> bool" where
  "aead_key_ct_eq a b \<longleftrightarrow> aead_enc_key a = aead_enc_key b \<and> aead_key_id a = aead_key_id b"

datatype cose_key_view =
    Aes256GcmView aead_key
  | XChaCha20Poly1305View aead_key
  | XAes256GcmView aead_key
  | Aes256CbcHmacView bytes

primrec view_key_id :: "crypto_lib \<Rightarrow> cose_key_view \<Rightarrow> key_id" where
  "view_key_id L (Aes256GcmView k) = aead_key_id k"
| "view_key_id L (XChaCha20Poly1305View k) = aead_key_id k"
| "view_key_id L (XAes256GcmView k) = aead_key_id k"
| "view_key_id L (Aes256CbcHmacView k) = Aes256CbcHmacKey_key_id L k"

primrec view_key_bytes :: "cose_key_view \<Rightarrow> bytes" where
  "view_key_bytes (Aes256GcmView k) = aead_enc_key k"
| "view_key_bytes (XChaCha20Poly1305View k) = aead_enc_key k"
| "view_key_bytes (XAes256GcmView k) = aead_enc_key k"
| "view_key_bytes (Aes256CbcHmacView k) = k"

primrec view_algorithm :: "cose_key_view \<Rightarrow> cose_content_encryption_algorithm" where
  "view_algorithm (Aes256GcmView k) = cose_content_encryption_algorithm.Aes256Gcm"
| "view_algorithm (XChaCha20Poly1305View k) = cose_content_encryption_algorithm.XChaCha20Poly1305"
| "view_algorithm (XAes256GcmView k) = cose_content_encryption_algorithm.XAes256Gcm"
| "view_algorithm (Aes256CbcHmacView k) = cose_content_encryption_algorithm.Aes256CbcHmacSha256"

subsection \<open>SymmetricCryptoKey\<close>

definition make_aes256_cbc_hmac_key :: "bytes \<Rightarrow> bytes \<Rightarrow> symmetric_crypto_key" where
  "make_aes256_cbc_hmac_key rng_enc_key rng_mac_key = Aes256CbcHmacKey (rng_enc_key @ rng_mac_key)"

text \<open>\<open>make\<close>: the random bytes are an encryption key, a MAC key and a key id.\<close>

fun symmetric_key_make ::
  "symmetric_key_algorithm \<Rightarrow> bytes \<Rightarrow> bytes \<Rightarrow> key_id \<Rightarrow> symmetric_crypto_key" where
  "symmetric_key_make symmetric_key_algorithm.Aes256CbcHmac enc mac kid = make_aes256_cbc_hmac_key enc mac"
| "symmetric_key_make symmetric_key_algorithm.XChaCha20Poly1305 enc mac kid =
     XChaCha20Poly1305Key (aead_key_make enc kid)"
| "symmetric_key_make symmetric_key_algorithm.Aes256Gcm enc mac kid = Aes256GcmKey (aead_key_make enc kid)"
| "symmetric_key_make symmetric_key_algorithm.XAes256Gcm enc mac kid = XAes256GcmKey (aead_key_make enc kid)"

datatype encoded_symmetric_key =
    EncodedLegacyKey bytes
  | EncodedCoseKey bytes

primrec encoded_into_vec :: "encoded_symmetric_key \<Rightarrow> bytes" where
  "encoded_into_vec (EncodedLegacyKey key) = key"
| "encoded_into_vec (EncodedCoseKey key) = key"

primrec encoded_content_format :: "encoded_symmetric_key \<Rightarrow> content_format" where
  "encoded_content_format (EncodedLegacyKey key) = content_format.BitwardenLegacyKey"
| "encoded_content_format (EncodedCoseKey key) = content_format.CoseKey"

text \<open>The builder calls that the three COSE variants of \<open>to_encoded_raw\<close> share.\<close>

definition aead_key_to_cose :: "cose_algorithm \<Rightarrow> aead_key \<Rightarrow> cose_key" where
  "aead_key_to_cose alg key =
     (let cose_key = (new_symmetric_key (aead_enc_key key))\<lparr>cose_key_id := aead_key_id key\<rparr>;
          cose_key = foldl (\<lambda>k op. add_key_op op k) cose_key (supported_operations key)
      in cose_key\<lparr>cose_alg := Some alg\<rparr>)"

primrec to_encoded_raw :: "crypto_lib \<Rightarrow> symmetric_crypto_key \<Rightarrow> encoded_symmetric_key" where
  "to_encoded_raw L (Aes256CbcKey key) = EncodedLegacyKey key"
| "to_encoded_raw L (Aes256CbcHmacKey key) = EncodedLegacyKey key"
| "to_encoded_raw L (XChaCha20Poly1305Key key) =
     EncodedCoseKey (expect (cose_key_to_vec (lib_cose L)
       (aead_key_to_cose (PrivateUse XCHACHA20_POLY1305) key)))"
| "to_encoded_raw L (XAes256GcmKey key) =
     EncodedCoseKey (expect (cose_key_to_vec (lib_cose L)
       (aead_key_to_cose (PrivateUse XAES_256_GCM) key)))"
| "to_encoded_raw L (Aes256GcmKey key) =
     EncodedCoseKey (expect (cose_key_to_vec (lib_cose L)
       (aead_key_to_cose (AssignedAlgorithm A256GCM) key)))"

definition pad_key :: "bytes \<Rightarrow> nat \<Rightarrow> bytes" where
  "pad_key key_bytes min_length = expect (pad_bytes key_bytes min_length)"

definition unpad_key :: "bytes \<Rightarrow> (bytes, crypto_error) result" where
  "unpad_key key_bytes = map_err (\<lambda>_. InvalidKey) (unpad_bytes key_bytes)"

definition to_encoded :: "crypto_lib \<Rightarrow> symmetric_crypto_key \<Rightarrow> bytes" where
  "to_encoded L key =
     (case to_encoded_raw L key of
        EncodedLegacyKey encoded_key \<Rightarrow> encoded_key
      | EncodedCoseKey encoded_key \<Rightarrow> pad_key encoded_key (AES256_CBC_HMAC_KEY_LEN + 1))"

text \<open>\<open>TryFrom<&CoseKey>\<close> of \<open>cose/mod.rs\<close>.\<close>

fun supported_op :: "key_op_label \<Rightarrow> (key_operation, crypto_error) result" where
  "supported_op (AssignedOp key_operation.Encrypt) = Ok key_operation.Encrypt"
| "supported_op (AssignedOp key_operation.Decrypt) = Ok key_operation.Decrypt"
| "supported_op (AssignedOp WrapKey) = Ok WrapKey"
| "supported_op (AssignedOp UnwrapKey) = Ok UnwrapKey"
| "supported_op _ = Err InvalidKey"

definition aead_key_from_parts ::
  "bytes \<Rightarrow> bytes \<Rightarrow> key_operation list \<Rightarrow> (aead_key, crypto_error) result" where
  "aead_key_from_parts key_bytes kid key_opts =
     and_then (try_into_array 32 InvalidKey key_bytes) (\<lambda>enc_key.
     and_then (map_err (\<lambda>_. InvalidKey) (key_id_try_from kid)) (\<lambda>key_id.
       Ok \<lparr>aead_key_id = key_id, aead_enc_key = enc_key, supported_operations = key_opts\<rparr>))"

definition symmetric_key_from_cose :: "cose_key \<Rightarrow> (symmetric_crypto_key, crypto_error) result" where
  "symmetric_key_from_cose cose_key =
     and_then (ok_or InvalidKey
       (find_map (\<lambda>(label, value).
          (case (label, value) of (IntLabel i, Bytes bs) \<Rightarrow> if i = - 1 then Some bs else None | _ \<Rightarrow> None))
          (cose_params cose_key))) (\<lambda>key_bytes.
     and_then (ok_or InvalidKey (cose_alg cose_key)) (\<lambda>alg.
     and_then (collect_results (map supported_op (cose_key_ops cose_key))) (\<lambda>key_opts.
       if alg = PrivateUse XCHACHA20_POLY1305 then
         map_ok XChaCha20Poly1305Key (aead_key_from_parts key_bytes (cose_key_id cose_key) key_opts)
       else if alg = PrivateUse XAES_256_GCM then
         map_ok XAes256GcmKey (aead_key_from_parts key_bytes (cose_key_id cose_key) key_opts)
       else if alg = AssignedAlgorithm A256GCM then
         map_ok Aes256GcmKey (aead_key_from_parts key_bytes (cose_key_id cose_key) key_opts)
       else Err InvalidKey)))"

definition try_from_cose :: "crypto_lib \<Rightarrow> bytes \<Rightarrow> (symmetric_crypto_key, crypto_error) result" where
  "try_from_cose L serialized_key =
     and_then (map_err (\<lambda>_. InvalidKey) (cose_key_from_slice (lib_cose L) serialized_key))
       symmetric_key_from_cose"

primrec try_from_encoded ::
  "crypto_lib \<Rightarrow> encoded_symmetric_key \<Rightarrow> (symmetric_crypto_key, crypto_error) result" where
  "try_from_encoded L (EncodedLegacyKey key) =
     (if length key = AES256_CBC_KEY_LEN then Ok (Aes256CbcKey (take AES256_CBC_KEY_LEN key))
      else if length key = AES256_CBC_HMAC_KEY_LEN then Ok (Aes256CbcHmacKey key)
      else Err InvalidKey)"
| "try_from_encoded L (EncodedCoseKey key) = try_from_cose L key"

definition try_from_legacy_bytes ::
  "crypto_lib \<Rightarrow> bytes \<Rightarrow> (symmetric_crypto_key, crypto_error) result" where
  "try_from_legacy_bytes L value =
     (if length value = AES256_CBC_HMAC_KEY_LEN \<or> length value = AES256_CBC_KEY_LEN then
        try_from_encoded L (EncodedLegacyKey value)
      else if length value > AES256_CBC_HMAC_KEY_LEN then
        and_then (unpad_key value) (try_from_cose L)
      else Err InvalidKeyLen)"

definition symmetric_key_to_base64 :: "crypto_lib \<Rightarrow> symmetric_crypto_key \<Rightarrow> string" where
  "symmetric_key_to_base64 L key = b64_to_string (lib_b64 L) (to_encoded L key)"

definition symmetric_key_from_string ::
  "crypto_lib \<Rightarrow> string \<Rightarrow> (symmetric_crypto_key, crypto_error) result" where
  "symmetric_key_from_string L value =
     and_then (map_err (\<lambda>_. InvalidKey) (b64_try_from (lib_b64 L) value)) (try_from_legacy_bytes L)"

definition symmetric_key_from_str ::
  "crypto_lib \<Rightarrow> string \<Rightarrow> (symmetric_crypto_key, crypto_error) result" where
  "symmetric_key_from_str L s =
     and_then (map_err (\<lambda>_. InvalidKey) (b64_try_from (lib_b64 L) s)) (\<lambda>bytes.
       map_err (\<lambda>_. InvalidKey) (try_from_legacy_bytes L bytes))"

primrec symmetric_key_id :: "crypto_lib \<Rightarrow> symmetric_crypto_key \<Rightarrow> key_id option" where
  "symmetric_key_id L (Aes256CbcKey key) = None"
| "symmetric_key_id L (Aes256CbcHmacKey key) = Some (Aes256CbcHmacKey_key_id L key)"
| "symmetric_key_id L (XChaCha20Poly1305Key key) = Some (aead_key_id key)"
| "symmetric_key_id L (Aes256GcmKey key) = Some (aead_key_id key)"
| "symmetric_key_id L (XAes256GcmKey key) = Some (aead_key_id key)"

primrec as_cose_key_view :: "symmetric_crypto_key \<Rightarrow> cose_key_view option" where
  "as_cose_key_view (Aes256GcmKey k) = Some (Aes256GcmView k)"
| "as_cose_key_view (XChaCha20Poly1305Key k) = Some (XChaCha20Poly1305View k)"
| "as_cose_key_view (XAes256GcmKey k) = Some (XAes256GcmView k)"
| "as_cose_key_view (Aes256CbcHmacKey k) = Some (Aes256CbcHmacView k)"
| "as_cose_key_view (Aes256CbcKey k) = None"

definition symmetric_key_thumbprint_ext ::
  "crypto_lib \<Rightarrow> symmetric_crypto_key \<Rightarrow> (bytes, crypto_error) result" where
  "symmetric_key_thumbprint_ext L key =
     and_then (ok_or (EncodingErr (UnsupportedValue
         ''unauthenticated AES-CBC keys are not COSE keys and have no thumbprint''))
       (as_cose_key_view key)) (\<lambda>view.
     Ok (symmetric_key_thumbprint L (view_key_bytes view)))"

fun symmetric_key_ct_eq :: "symmetric_crypto_key \<Rightarrow> symmetric_crypto_key \<Rightarrow> bool" where
  "symmetric_key_ct_eq (Aes256CbcKey a) (Aes256CbcKey b) = (a = b)"
| "symmetric_key_ct_eq (Aes256CbcHmacKey a) (Aes256CbcHmacKey b) = (a = b)"
| "symmetric_key_ct_eq (XChaCha20Poly1305Key a) (XChaCha20Poly1305Key b) = aead_key_ct_eq a b"
| "symmetric_key_ct_eq (Aes256GcmKey a) (Aes256GcmKey b) = aead_key_ct_eq a b"
| "symmetric_key_ct_eq (XAes256GcmKey a) (XAes256GcmKey b) = aead_key_ct_eq a b"
| "symmetric_key_ct_eq _ _ = False"

subsection \<open>Key derivation helpers\<close>

datatype hkdf_expand_error = InvalidInputLength | InvalidOutputLength

definition hkdf_expand ::
  "crypto_lib \<Rightarrow> bytes \<Rightarrow> string option \<Rightarrow> nat \<Rightarrow> (bytes, hkdf_expand_error) result" where
  "hkdf_expand L prk info n =
     (if length prk < 32 then Err InvalidInputLength
      else let i = (case info of Some i \<Rightarrow> map of_char i | None \<Rightarrow> [])
           in if n > 255 * 32 then Err InvalidOutputLength else Ok (hkdf_sha256_expand L prk i n))"

definition stretch_key :: "crypto_lib \<Rightarrow> bytes \<Rightarrow> bytes" where
  "stretch_key L key =
     (let enc_key = expect (hkdf_expand L key (Some ''enc'') 32);
          mac_key = expect (hkdf_expand L key (Some ''mac'') 32)
      in Aes256CbcHmacKey_new enc_key mac_key)"

subsection \<open>Well-formed keys\<close>

text \<open>The array lengths of the Rust types, and the operations a COSE key can be read with.\<close>

definition aead_key_wf :: "aead_key \<Rightarrow> bool" where
  "aead_key_wf key \<longleftrightarrow> length (aead_enc_key key) = 32 \<and> length (aead_key_id key) = KEY_ID_SIZE
     \<and> list_all (\<lambda>op. is_ok (supported_op (AssignedOp op))) (supported_operations key)"

primrec symmetric_key_wf :: "symmetric_crypto_key \<Rightarrow> bool" where
  "symmetric_key_wf (Aes256CbcKey key) = (length key = AES256_CBC_KEY_LEN)"
| "symmetric_key_wf (Aes256CbcHmacKey key) = (length key = AES256_CBC_HMAC_KEY_LEN)"
| "symmetric_key_wf (XChaCha20Poly1305Key key) = aead_key_wf key"
| "symmetric_key_wf (Aes256GcmKey key) = aead_key_wf key"
| "symmetric_key_wf (XAes256GcmKey key) = aead_key_wf key"

primrec key_operations :: "symmetric_crypto_key \<Rightarrow> key_operation list" where
  "key_operations (Aes256CbcKey key) = []"
| "key_operations (Aes256CbcHmacKey key) = []"
| "key_operations (XChaCha20Poly1305Key key) = supported_operations key"
| "key_operations (Aes256GcmKey key) = supported_operations key"
| "key_operations (XAes256GcmKey key) = supported_operations key"


subsection \<open>Keys up to the order of their operations\<close>

text \<open>The operations of a key, in the order in which a \<open>CoseKey\<close> keeps them.\<close>

definition sorted_ops :: "key_operation list \<Rightarrow> key_operation list" where
  "sorted_ops ops =
     map (\<lambda>l. case l of AssignedOp op \<Rightarrow> op | TextOp t \<Rightarrow> Sign)
       (foldl (\<lambda>os op. btree_insert (AssignedOp op) os) [] ops)"

text \<open>The key that is read back: the same key with its operations in registry order.\<close>

primrec normalize_ops :: "symmetric_crypto_key \<Rightarrow> symmetric_crypto_key" where
  "normalize_ops (Aes256CbcKey key) = Aes256CbcKey key"
| "normalize_ops (Aes256CbcHmacKey key) = Aes256CbcHmacKey key"
| "normalize_ops (XChaCha20Poly1305Key key) =
     XChaCha20Poly1305Key (key\<lparr>supported_operations := sorted_ops (supported_operations key)\<rparr>)"
| "normalize_ops (Aes256GcmKey key) =
     Aes256GcmKey (key\<lparr>supported_operations := sorted_ops (supported_operations key)\<rparr>)"
| "normalize_ops (XAes256GcmKey key) =
     XAes256GcmKey (key\<lparr>supported_operations := sorted_ops (supported_operations key)\<rparr>)"


section \<open>Lemmas\<close>

text \<open>The padding of a COSE key cannot fail, and the padded key is longer than a legacy key.\<close>

lemma pad_key_no_panic:
  "pad_bytes bs (AES256_CBC_HMAC_KEY_LEN + 1) = Ok (pad_key bs (AES256_CBC_HMAC_KEY_LEN + 1))"
proof -
  have "\<not> 255 < AES256_CBC_HMAC_KEY_LEN + 1 - length bs" by (simp add: key_sizes)
  then show ?thesis by (simp add: pad_key_def pad_bytes_eq)
qed

lemma unpad_pad_key [codec_simps]: "unpad_key (pad_key bs (AES256_CBC_HMAC_KEY_LEN + 1)) = Ok bs"
  using unpad_pad_bytes [OF pad_key_no_panic] by (simp add: unpad_key_def)

lemma pad_key_length: "length (pad_key bs (AES256_CBC_HMAC_KEY_LEN + 1)) > AES256_CBC_HMAC_KEY_LEN"
  using pad_bytes_length [OF pad_key_no_panic] by (simp add: key_sizes)

lemma unpad_key_Err: "unpad_key bs = Err e \<Longrightarrow> e = InvalidKey"
  by (auto simp: unpad_key_def result_simps)

lemma fold_add_key_op:
  "foldl (\<lambda>k op. add_key_op op k) key ops =
     key\<lparr>cose_key_ops := foldl (\<lambda>os op. btree_insert (AssignedOp op) os) (cose_key_ops key) ops\<rparr>"
  by (induction ops arbitrary: key) (simp_all add: add_key_op_def)

lemma fold_btree_insert:
  "key_ops_sorted os \<Longrightarrow>
     key_ops_sorted (foldl (\<lambda>os op. btree_insert (AssignedOp op) os) os ops)
     \<and> set (foldl (\<lambda>os op. btree_insert (AssignedOp op) os) os ops) = set os \<union> AssignedOp ` set ops"
  by (induction ops arbitrary: os) (auto simp: key_ops_sorted_insert)

lemma supported_op_Ok: "supported_op l = Ok op \<Longrightarrow> l = AssignedOp op"
  by (cases l rule: supported_op.cases) auto

lemma sorted_ops_facts:
  defines "ls \<equiv> \<lambda>ops. foldl (\<lambda>os op. btree_insert (AssignedOp op) os) [] ops"
  shows "ls ops = map AssignedOp (sorted_ops ops)" and "set (sorted_ops ops) = set ops"
    and "key_ops_sorted (map AssignedOp (sorted_ops ops))"
proof -
  have ls: "key_ops_sorted (ls ops)" "set (ls ops) = AssignedOp ` set ops"
    using fold_btree_insert [of "[]" ops] by (simp_all add: ls_def)
  show 1: "ls ops = map AssignedOp (sorted_ops ops)"
    unfolding sorted_ops_def ls_def [symmetric] map_map
    using ls(2) by (intro map_idI [symmetric]) auto
  with ls show "key_ops_sorted (map AssignedOp (sorted_ops ops))" by simp
  have "AssignedOp ` set (sorted_ops ops) = AssignedOp ` set ops"
    using ls(2) unfolding 1 by simp
  then show "set (sorted_ops ops) = set ops"
    by (simp add: inj_image_eq_iff inj_def)
qed

lemma sorted_ops_id: "key_ops_sorted (map AssignedOp ops) \<Longrightarrow> sorted_ops ops = ops"
proof -
  assume "key_ops_sorted (map AssignedOp ops)"
  then have "map AssignedOp (sorted_ops ops) = map AssignedOp ops"
    using sorted_ops_facts(2,3) [of ops] by (intro key_ops_sorted_unique) auto
  then show ?thesis by (auto simp: inj_map_eq_map inj_def)
qed

lemma collect_supported_ops:
  "list_all (\<lambda>op. is_ok (supported_op (AssignedOp op))) ops
   \<Longrightarrow> collect_results (map supported_op (map AssignedOp ops)) = Ok ops"
proof (induction ops)
  case (Cons op ops)
  then obtain op' where "supported_op (AssignedOp op) = Ok op'" by (auto simp: result_simps)
  with supported_op_Ok [OF this] Cons show ?case by simp
qed simp

lemma aead_key_to_cose_simps:
  "cose_alg (aead_key_to_cose alg key) = Some alg"
  "cose_key_id (aead_key_to_cose alg key) = aead_key_id key"
  "cose_params (aead_key_to_cose alg key) = [(IntLabel (- 1), Bytes (aead_enc_key key))]"
  "cose_key_ops (aead_key_to_cose alg key) = map AssignedOp (sorted_ops (supported_operations key))"
  "cose_kty (aead_key_to_cose alg key) = Symmetric"
  by (simp_all add: aead_key_to_cose_def Let_def fold_add_key_op new_symmetric_key_def
        sorted_ops_facts(1))

lemma aead_key_to_cose_encodable:
  "algorithm_encodable alg \<Longrightarrow> cose_key_encodable (aead_key_to_cose alg key)"
  by (simp add: cose_key_encodable_def aead_key_to_cose_simps sorted_ops_facts(3))

lemma aead_key_from_parts_wf:
  "aead_key_wf key \<Longrightarrow> aead_key_from_parts (aead_enc_key key) (aead_key_id key) ops
     = Ok (key\<lparr>supported_operations := ops\<rparr>)"
  by (simp add: aead_key_from_parts_def aead_key_wf_def try_into_array_def key_id_try_from_def)

lemma sorted_ops_supported:
  "aead_key_wf key \<Longrightarrow>
   collect_results (map supported_op (map AssignedOp (sorted_ops (supported_operations key))))
   = Ok (sorted_ops (supported_operations key))"
  by (rule collect_supported_ops)
     (simp add: aead_key_wf_def list_all_iff sorted_ops_facts(2))

lemma symmetric_key_from_cose_roundtrip:
  assumes "aead_key_wf key"
  shows "symmetric_key_from_cose (aead_key_to_cose (PrivateUse XCHACHA20_POLY1305) key)
           = Ok (normalize_ops (XChaCha20Poly1305Key key))"
    and "symmetric_key_from_cose (aead_key_to_cose (PrivateUse XAES_256_GCM) key)
           = Ok (normalize_ops (XAes256GcmKey key))"
    and "symmetric_key_from_cose (aead_key_to_cose (AssignedAlgorithm A256GCM) key)
           = Ok (normalize_ops (Aes256GcmKey key))"
  using sorted_ops_supported [OF assms]
  by (simp_all add: symmetric_key_from_cose_def aead_key_to_cose_simps
        aead_key_from_parts_wf [OF assms] cose_constants)

lemma try_from_cose_encoded:
  assumes "crypto_lib_ok L" and "algorithm_encodable alg"
  shows "try_from_cose L (expect (cose_key_to_vec (lib_cose L) (aead_key_to_cose alg key)))
         = symmetric_key_from_cose (aead_key_to_cose alg key)"
proof -
  obtain bs where "cose_key_to_vec (lib_cose L) (aead_key_to_cose alg key) = Ok bs"
    "cose_key_from_slice (lib_cose L) bs = Ok (aead_key_to_cose alg key)"
    using crypto_lib_okD(3) [OF assms(1)] aead_key_to_cose_encodable [OF assms(2), of key]
    unfolding cose_key_roundtrip_def by blast
  then show ?thesis by (simp add: try_from_cose_def)
qed

lemma private_algorithms_encodable [simp]:
  "algorithm_encodable (PrivateUse XCHACHA20_POLY1305)"
  "algorithm_encodable (PrivateUse XAES_256_GCM)"
  "algorithm_encodable (PrivateUse AES_256_CBC_HMAC_SHA256_AEAD)"
  by (simp_all add: cose_constants)

lemma try_from_encoded_raw:
  assumes "crypto_lib_ok L" and "symmetric_key_wf key"
  shows "try_from_encoded L (to_encoded_raw L key) = Ok (normalize_ops key)"
  using assms(2)
  by (cases key)
     (simp_all add: try_from_cose_encoded [OF assms(1) private_algorithms_encodable(1)]
        try_from_cose_encoded [OF assms(1) private_algorithms_encodable(2)]
        try_from_cose_encoded [OF assms(1)] symmetric_key_from_cose_roundtrip key_sizes)

lemma try_from_legacy_to_encoded:
  assumes "crypto_lib_ok L" and "symmetric_key_wf key"
  shows "try_from_legacy_bytes L (to_encoded L key) = Ok (normalize_ops key)"
proof (cases "to_encoded_raw L key")
  case (EncodedLegacyKey k)
  then have "k = to_encoded L key" "length k = AES256_CBC_KEY_LEN \<or> length k = AES256_CBC_HMAC_KEY_LEN"
    using assms(2) by (cases key; simp add: to_encoded_def)+
  with try_from_encoded_raw [OF assms] EncodedLegacyKey show ?thesis
    by (auto simp: try_from_legacy_bytes_def)
next
  case (EncodedCoseKey k)
  then have "to_encoded L key = pad_key k (AES256_CBC_HMAC_KEY_LEN + 1)" by (simp add: to_encoded_def)
  moreover from EncodedCoseKey have "try_from_cose L k = Ok (normalize_ops key)"
    using try_from_encoded_raw [OF assms] by simp
  ultimately show ?thesis
    using pad_key_length [of k] unpad_pad_key [of k]
    by (auto simp: try_from_legacy_bytes_def key_sizes)
qed

lemma normalize_ops_ct_eq: "symmetric_key_ct_eq key (normalize_ops key)"
  by (cases key) (simp_all add: aead_key_ct_eq_def)

lemma normalize_ops_set: "set (key_operations (normalize_ops key)) = set (key_operations key)"
  by (cases key) (simp_all add: sorted_ops_facts(2))

lemma normalize_ops_simps [simp]:
  "symmetric_key_id L (normalize_ops key) = symmetric_key_id L key"
  "symmetric_key_wf (normalize_ops key) = symmetric_key_wf key"
  by (cases key; simp add: aead_key_wf_def list_all_iff sorted_ops_facts(2))+

text \<open>Length of an encoded key: 32, 64, or more than 64.\<close>

lemma to_encoded_length:
  "symmetric_key_wf key \<Longrightarrow>
   (case key of Aes256CbcKey k \<Rightarrow> length (to_encoded L key) = 32
    | Aes256CbcHmacKey k \<Rightarrow> length (to_encoded L key) = 64
    | _ \<Rightarrow> length (to_encoded L key) > 64)"
  using pad_key_length by (cases key) (simp_all add: to_encoded_def key_sizes)

text \<open>Equality of keys is an equivalence that ignores the supported operations.\<close>

lemma ct_eq_refl [simp]: "symmetric_key_ct_eq a a"
  by (cases a) (simp_all add: aead_key_ct_eq_def)

lemma ct_eq_sym: "symmetric_key_ct_eq a b \<Longrightarrow> symmetric_key_ct_eq b a"
  by (cases a; cases b) (simp_all add: aead_key_ct_eq_def)

lemma ct_eq_trans: "symmetric_key_ct_eq a b \<Longrightarrow> symmetric_key_ct_eq b c \<Longrightarrow> symmetric_key_ct_eq a c"
  by (cases a; cases b; cases c) (simp_all add: aead_key_ct_eq_def)

lemma ct_eq_key_id: "symmetric_key_ct_eq a b \<Longrightarrow> symmetric_key_id L a = symmetric_key_id L b"
  by (cases a; cases b) (simp_all add: aead_key_ct_eq_def)

lemma sorted_ops_cong:
  assumes "set xs = set ys"
  shows "sorted_ops xs = sorted_ops ys"
proof -
  have "map AssignedOp (sorted_ops xs) = map AssignedOp (sorted_ops ys)"
    using assms by (intro key_ops_sorted_unique sorted_ops_facts(3)) (simp add: sorted_ops_facts(2))
  then show ?thesis by (auto simp: inj_map_eq_map inj_def)
qed

lemma ct_eq_normalize:
  "symmetric_key_ct_eq a b \<Longrightarrow> set (key_operations a) = set (key_operations b)
   \<Longrightarrow> normalize_ops a = normalize_ops b"
  by (cases a; cases b)
     (auto simp: aead_key_ct_eq_def intro!: aead_key.equality dest: sorted_ops_cong)

text \<open>Every key the readers return is well formed.\<close>

lemma supported_ops_Ok:
  "collect_results (map supported_op ls) = Ok ops
   \<Longrightarrow> list_all (\<lambda>op. is_ok (supported_op (AssignedOp op))) ops"
proof (induction ls arbitrary: ops)
  case (Cons l ls)
  then obtain op ops' where "supported_op l = Ok op" "ops = op # ops'"
    "collect_results (map supported_op ls) = Ok ops'"
    by (auto simp: result_simps)
  with Cons.IH [of ops'] supported_op_Ok [of l op] show ?case by auto
qed simp

lemma aead_key_from_parts_Ok:
  "aead_key_from_parts bs kid ops = Ok key \<longleftrightarrow>
     length bs = 32 \<and> length kid = KEY_ID_SIZE
     \<and> key = \<lparr>aead_key_id = kid, aead_enc_key = bs, supported_operations = ops\<rparr>"
  by (auto simp: aead_key_from_parts_def result_simps)

lemma symmetric_key_from_cose_wf: "symmetric_key_from_cose k = Ok key \<Longrightarrow> symmetric_key_wf key"
  by (auto simp: symmetric_key_from_cose_def aead_key_from_parts_Ok aead_key_wf_def result_simps
        dest!: supported_ops_Ok split: if_splits)

lemma try_from_cose_wf: "try_from_cose L bs = Ok key \<Longrightarrow> symmetric_key_wf key"
  by (auto simp: try_from_cose_def result_simps intro: symmetric_key_from_cose_wf)

lemma try_from_legacy_bytes_wf: "try_from_legacy_bytes L bs = Ok key \<Longrightarrow> symmetric_key_wf key"
  by (auto simp: try_from_legacy_bytes_def key_sizes result_simps intro: try_from_cose_wf
        split: if_splits)


section \<open>Properties\<close>

text \<open>C10: A well-formed key survives its byte encoding: reading the encoded bytes gives an
  equal key with the same set of permitted operations, in particular the same key id; and if
  its operations are in registry order, exactly the same key.\<close>

theorem symmetric_key_bytes_roundtrip:
  assumes "crypto_lib_ok L" "symmetric_key_wf key"
  shows "\<exists>key'. try_from_legacy_bytes L (to_encoded L key) = Ok key'
     \<and> symmetric_key_ct_eq key key' \<and> set (key_operations key') = set (key_operations key)
     \<and> (key_ops_sorted (map AssignedOp (key_operations key)) \<longrightarrow> key' = key)"
proof -
  have "normalize_ops key = key" if "key_ops_sorted (map AssignedOp (key_operations key))"
    using that by (cases key) (simp_all add: sorted_ops_id)
  then show ?thesis
    using try_from_legacy_to_encoded [OF assms] normalize_ops_ct_eq normalize_ops_set by auto
qed

theorem symmetric_key_bytes_roundtrip_witness:
  "\<exists>key'. try_from_legacy_bytes crypto_ref (to_encoded crypto_ref
        (XAes256GcmKey (aead_key_make (replicate 32 7) (replicate 16 9)))) = Ok key'
     \<and> symmetric_key_ct_eq (XAes256GcmKey (aead_key_make (replicate 32 7) (replicate 16 9))) key'
     \<and> set (key_operations key') = {key_operation.Decrypt, key_operation.Encrypt, WrapKey, UnwrapKey}"
  using symmetric_key_bytes_roundtrip [OF crypto_ref_ok, of "XAes256GcmKey (aead_key_make (replicate 32 7) (replicate 16 9))"]
  by (auto simp: aead_key_make_def aead_key_wf_def KEY_ID_SIZE_def)

text \<open>The length of the encoded bytes tells the kinds of keys apart: 32 bytes for AES-CBC,
  64 for AES-CBC-HMAC, more than 64 for every COSE key.\<close>

theorem encoded_length_separates:
  assumes "symmetric_key_wf key"
  shows "(length (to_encoded L key) = 32 \<longleftrightarrow> (\<exists>k. key = Aes256CbcKey k))
     \<and> (length (to_encoded L key) = 64 \<longleftrightarrow> (\<exists>k. key = Aes256CbcHmacKey k))
     \<and> (length (to_encoded L key) > 64 \<longleftrightarrow> encoded_content_format (to_encoded_raw L key) = content_format.CoseKey)"
  using to_encoded_length [OF assms, of L] by (cases key) simp_all

theorem encoded_length_separates_witness:
  "length (to_encoded crypto_ref (Aes256CbcHmacKey (replicate 64 1))) = 64"
  using encoded_length_separates [of "Aes256CbcHmacKey (replicate 64 1)" crypto_ref]
  by (simp add: key_sizes)

end
