(* ===== verification/Cose_Symmetric.thy ===== *)
theory Cose_Symmetric
  imports Symmetric_Key
begin

text \<open>
  \<open>cose/symmetric.rs\<close>: COSE framing of the ciphers of \<open>Hazmat\<close>.  The four implementations
  of the trait \<open>CoseEncryptCipher\<close> are the same code over a different cipher; the code is
  written once over a record \<open>cose_cipher\<close> and instantiated four times.  Every encryption
  takes the nonce the source draws at random.  The serialized form of a message goes
  through the parameters of \<open>Coset\<close>.
\<close>


section \<open>Algorithms and policies\<close>

definition TEXT_PAD_BLOCK_SIZE :: nat where
  "TEXT_PAD_BLOCK_SIZE = 32"

definition should_pad_content :: "content_format \<Rightarrow> bool" where
  "should_pad_content format \<longleftrightarrow> format = content_format.Utf8"

datatype cose_algorithm_policy =
    RequireProtectedHeaderAlgorithm
  | Exactly cose_content_encryption_algorithm
  | ProtectedHeaderAlgorithmOrLegacyDefault cose_content_encryption_algorithm

definition content_encryption_algorithm_try_from ::
  "cose_algorithm \<Rightarrow> (cose_content_encryption_algorithm, crypto_error) result" where
  "content_encryption_algorithm_try_from algorithm =
     (if algorithm = AssignedAlgorithm A256GCM then Ok cose_content_encryption_algorithm.Aes256Gcm
      else if algorithm = PrivateUse XAES_256_GCM then Ok cose_content_encryption_algorithm.XAes256Gcm
      else if algorithm = PrivateUse XCHACHA20_POLY1305
        then Ok cose_content_encryption_algorithm.XChaCha20Poly1305
      else if algorithm = PrivateUse AES_256_CBC_HMAC_SHA256_AEAD
        then Ok cose_content_encryption_algorithm.Aes256CbcHmacSha256
      else Err WrongKeyType)"

definition algorithm_from_header ::
  "header \<Rightarrow> cose_algorithm_policy \<Rightarrow> (cose_content_encryption_algorithm, crypto_error) result" where
  "algorithm_from_header header policy =
     and_then (case header_alg header of
         None \<Rightarrow> Ok None
       | Some alg \<Rightarrow> map_ok Some (content_encryption_algorithm_try_from alg)) (\<lambda>declared.
     (case (policy, declared) of
        (ProtectedHeaderAlgorithmOrLegacyDefault dflt, None) \<Rightarrow> Ok dflt
      | (_, None) \<Rightarrow> Err (EncStringError CoseMissingAlgorithm)
      | (Exactly expected, Some actual) \<Rightarrow>
          if actual \<noteq> expected then Err WrongKeyType else Ok actual
      | (_, Some actual) \<Rightarrow> Ok actual))"


section \<open>CoseEncryptCipher\<close>

record cose_cipher =
  cipher_algorithm :: cose_algorithm
  cipher_key_size :: nat
  cipher_encrypt :: "bytes \<Rightarrow> bytes \<Rightarrow> bytes \<Rightarrow> bytes \<Rightarrow> bytes"
  cipher_decrypt :: "bytes \<Rightarrow> bytes \<Rightarrow> bytes \<Rightarrow> bytes \<Rightarrow> (bytes, crypto_error) result"
  cipher_nonce :: "bytes \<Rightarrow> (bytes, crypto_error) result"

definition ensure_algorithm_matches :: "cose_cipher \<Rightarrow> header \<Rightarrow> (unit, crypto_error) result" where
  "ensure_algorithm_matches C header =
     (case header_alg header of
        Some algorithm \<Rightarrow> if algorithm \<noteq> cipher_algorithm C then Err WrongKeyType else Ok ()
      | None \<Rightarrow> Ok ())"

text \<open>A protected header as a builder stores it.\<close>

definition fresh_protected :: "header \<Rightarrow> protected_header" where
  "fresh_protected h = \<lparr>original_data = None, parsed_header = h\<rparr>"

definition cipher_encrypt_cose ::
  "crypto_lib \<Rightarrow> cose_cipher \<Rightarrow> cose_encrypt \<Rightarrow> header \<Rightarrow> bytes \<Rightarrow> bytes \<Rightarrow> bytes \<Rightarrow> cose_encrypt" where
  "cipher_encrypt_cose L C builder protected_header plaintext cek nonce =
     (let protected_header = protected_header\<lparr>header_alg := Some (cipher_algorithm C)\<rparr>;
          builder = builder\<lparr>encrypt_protected := fresh_protected protected_header\<rparr>;
          builder = builder\<lparr>encrypt_unprotected := header_new\<lparr>header_iv := nonce\<rparr>\<rparr>;
          aad = encrypt_aad (lib_cose L) (encrypt_protected builder) []
      in builder\<lparr>encrypt_ciphertext := Some (cipher_encrypt C cek nonce plaintext aad)\<rparr>)"

definition cipher_decrypt_cose ::
  "crypto_lib \<Rightarrow> cose_cipher \<Rightarrow> cose_encrypt \<Rightarrow> bytes \<Rightarrow> (bytes, crypto_error) result" where
  "cipher_decrypt_cose L C cose_encrypt cek =
     and_then (ensure_algorithm_matches C (parsed_header (encrypt_protected cose_encrypt))) (\<lambda>_.
     and_then (cipher_nonce C (header_iv (encrypt_unprotected cose_encrypt))) (\<lambda>nonce.
     and_then (ok_or (MissingField ''ciphertext'') (encrypt_ciphertext cose_encrypt)) (\<lambda>data.
       cipher_decrypt C cek nonce data
         (encrypt_aad (lib_cose L) (encrypt_protected cose_encrypt) []))))"

definition cipher_encrypt_cose0 ::
  "crypto_lib \<Rightarrow> cose_cipher \<Rightarrow> cose_encrypt0 \<Rightarrow> header \<Rightarrow> bytes \<Rightarrow> bytes \<Rightarrow> bytes \<Rightarrow> cose_encrypt0" where
  "cipher_encrypt_cose0 L C builder protected_header plaintext cek nonce =
     (let protected_header = protected_header\<lparr>header_alg := Some (cipher_algorithm C)\<rparr>;
          builder = builder\<lparr>encrypt0_protected := fresh_protected protected_header\<rparr>;
          builder = builder\<lparr>encrypt0_unprotected := header_new\<lparr>header_iv := nonce\<rparr>\<rparr>;
          aad = encrypt0_aad (lib_cose L) (encrypt0_protected builder) []
      in builder\<lparr>encrypt0_ciphertext := Some (cipher_encrypt C cek nonce plaintext aad)\<rparr>)"

definition cipher_decrypt_cose0 ::
  "crypto_lib \<Rightarrow> cose_cipher \<Rightarrow> cose_encrypt0 \<Rightarrow> bytes \<Rightarrow> (bytes, crypto_error) result" where
  "cipher_decrypt_cose0 L C cose_encrypt0 cek =
     and_then (ensure_algorithm_matches C (parsed_header (encrypt0_protected cose_encrypt0))) (\<lambda>_.
     and_then (cipher_nonce C (header_iv (encrypt0_unprotected cose_encrypt0))) (\<lambda>nonce.
     and_then (ok_or (MissingField ''ciphertext'') (encrypt0_ciphertext cose_encrypt0)) (\<lambda>data.
       cipher_decrypt C cek nonce data
         (encrypt0_aad (lib_cose L) (encrypt0_protected cose_encrypt0) []))))"

definition Aes256Gcm_cipher :: "crypto_lib \<Rightarrow> cose_cipher" where
  "Aes256Gcm_cipher L =
     \<lparr>cipher_algorithm = AssignedAlgorithm A256GCM, cipher_key_size = 32,
      cipher_encrypt = Aes256Gcm_encrypt L, cipher_decrypt = Aes256Gcm_decrypt L,
      cipher_nonce = Aes256GcmNonce_from_cose_iv\<rparr>"

definition XAes256Gcm_cipher :: "crypto_lib \<Rightarrow> cose_cipher" where
  "XAes256Gcm_cipher L =
     \<lparr>cipher_algorithm = PrivateUse XAES_256_GCM, cipher_key_size = 32,
      cipher_encrypt = XAes256Gcm_encrypt L, cipher_decrypt = XAes256Gcm_decrypt L,
      cipher_nonce = XAes256GcmNonce_from_cose_iv\<rparr>"

definition XChaCha20Poly1305_cipher :: "crypto_lib \<Rightarrow> cose_cipher" where
  "XChaCha20Poly1305_cipher L =
     \<lparr>cipher_algorithm = PrivateUse XCHACHA20_POLY1305, cipher_key_size = 32,
      cipher_encrypt = XChaCha20Poly1305_encrypt L, cipher_decrypt = XChaCha20Poly1305_decrypt L,
      cipher_nonce = XChaCha20Poly1305Nonce_from_cose_iv\<rparr>"

definition Aes256CbcHmacSha256Aead_cipher :: "crypto_lib \<Rightarrow> cose_cipher" where
  "Aes256CbcHmacSha256Aead_cipher L =
     \<lparr>cipher_algorithm = PrivateUse AES_256_CBC_HMAC_SHA256_AEAD, cipher_key_size = 64,
      cipher_encrypt = Aes256CbcHmacSha256Aead_encrypt L,
      cipher_decrypt = Aes256CbcHmacSha256Aead_decrypt L,
      cipher_nonce = Aes256CbcHmacSha256AeadNonce_from_cose_iv\<rparr>"

text \<open>The dispatch of the free functions to an implementation.\<close>

primrec select_cipher :: "crypto_lib \<Rightarrow> cose_content_encryption_algorithm \<Rightarrow> cose_cipher" where
  "select_cipher L cose_content_encryption_algorithm.Aes256Gcm = Aes256Gcm_cipher L"
| "select_cipher L cose_content_encryption_algorithm.XAes256Gcm = XAes256Gcm_cipher L"
| "select_cipher L cose_content_encryption_algorithm.XChaCha20Poly1305 = XChaCha20Poly1305_cipher L"
| "select_cipher L cose_content_encryption_algorithm.Aes256CbcHmacSha256 =
     Aes256CbcHmacSha256Aead_cipher L"

text \<open>The nonce lengths of the four ciphers.\<close>

primrec nonce_size :: "cose_content_encryption_algorithm \<Rightarrow> nat" where
  "nonce_size cose_content_encryption_algorithm.Aes256Gcm = 12"
| "nonce_size cose_content_encryption_algorithm.XAes256Gcm = 24"
| "nonce_size cose_content_encryption_algorithm.XChaCha20Poly1305 = 24"
| "nonce_size cose_content_encryption_algorithm.Aes256CbcHmacSha256 = 16"


section \<open>Encryption and decryption of messages\<close>

definition pad_text :: "bytes \<Rightarrow> (bytes, crypto_error) result" where
  "pad_text plaintext =
     (let min_length = TEXT_PAD_BLOCK_SIZE * (1 + length plaintext div TEXT_PAD_BLOCK_SIZE)
      in pad_bytes plaintext min_length)"

definition header_wants_padding :: "header \<Rightarrow> bool" where
  "header_wants_padding header =
     (case content_format_try_from header of
        Ok content_format \<Rightarrow> should_pad_content content_format
      | Err _ \<Rightarrow> False)"

definition encrypt_cose ::
  "crypto_lib \<Rightarrow> cose_content_encryption_algorithm \<Rightarrow> cose_encrypt \<Rightarrow> header \<Rightarrow> bytes \<Rightarrow> bytes \<Rightarrow> bytes
     \<Rightarrow> (cose_encrypt, crypto_error) result" where
  "encrypt_cose L algorithm builder protected_header plaintext cek nonce =
     and_then (if header_wants_padding protected_header then pad_text plaintext else Ok plaintext) (\<lambda>plaintext.
     and_then (try_into_array (cipher_key_size (select_cipher L algorithm)) InvalidKeyLen cek) (\<lambda>cek.
       Ok (cipher_encrypt_cose L (select_cipher L algorithm) builder protected_header plaintext cek nonce)))"

definition decrypt_cose ::
  "crypto_lib \<Rightarrow> cose_encrypt \<Rightarrow> cose_algorithm_policy \<Rightarrow> bytes \<Rightarrow> (bytes, crypto_error) result" where
  "decrypt_cose L cose_encrypt policy cek =
     and_then (algorithm_from_header (parsed_header (encrypt_protected cose_encrypt)) policy) (\<lambda>algorithm.
     and_then (try_into_array (cipher_key_size (select_cipher L algorithm)) InvalidKeyLen cek) (\<lambda>cek.
     and_then (cipher_decrypt_cose L (select_cipher L algorithm) cose_encrypt cek) (\<lambda>decrypted.
       if header_wants_padding (parsed_header (encrypt_protected cose_encrypt))
       then unpad_bytes decrypted else Ok decrypted)))"

definition encrypt_cose0 ::
  "crypto_lib \<Rightarrow> cose_content_encryption_algorithm \<Rightarrow> cose_encrypt0 \<Rightarrow> header \<Rightarrow> bytes \<Rightarrow> bytes \<Rightarrow> bytes
     \<Rightarrow> (cose_encrypt0, crypto_error) result" where
  "encrypt_cose0 L algorithm builder protected_header plaintext cek nonce =
     and_then (if header_wants_padding protected_header then pad_text plaintext else Ok plaintext) (\<lambda>plaintext.
     and_then (try_into_array (cipher_key_size (select_cipher L algorithm)) InvalidKeyLen cek) (\<lambda>cek.
       Ok (cipher_encrypt_cose0 L (select_cipher L algorithm) builder protected_header plaintext cek nonce)))"

definition decrypt_cose0 ::
  "crypto_lib \<Rightarrow> cose_encrypt0 \<Rightarrow> cose_algorithm_policy \<Rightarrow> bytes \<Rightarrow> (bytes, crypto_error) result" where
  "decrypt_cose0 L cose_encrypt0 policy cek =
     and_then (algorithm_from_header (parsed_header (encrypt0_protected cose_encrypt0)) policy) (\<lambda>algorithm.
     and_then (try_into_array (cipher_key_size (select_cipher L algorithm)) InvalidKeyLen cek) (\<lambda>cek.
     and_then (cipher_decrypt_cose0 L (select_cipher L algorithm) cose_encrypt0 cek) (\<lambda>decrypted.
       if header_wants_padding (parsed_header (encrypt0_protected cose_encrypt0))
       then unpad_bytes decrypted else Ok decrypted)))"

text \<open>\<open>CoseEncrypt0Builder::new()\<close> and \<open>CoseEncryptBuilder::new()\<close>.\<close>

definition encrypt0_builder_new :: cose_encrypt0 where
  "encrypt0_builder_new = \<lparr>encrypt0_protected = fresh_protected header_new,
     encrypt0_unprotected = header_new, encrypt0_ciphertext = None\<rparr>"

definition encrypt_builder_new :: cose_encrypt where
  "encrypt_builder_new = \<lparr>encrypt_protected = fresh_protected header_new,
     encrypt_unprotected = header_new, encrypt_ciphertext = None, encrypt_recipients = []\<rparr>"


section \<open>EncString messages\<close>

definition encrypt_xchacha20_poly1305 ::
  "crypto_lib \<Rightarrow> bytes \<Rightarrow> aead_key \<Rightarrow> content_format \<Rightarrow> bytes \<Rightarrow> (bytes, crypto_error) result" where
  "encrypt_xchacha20_poly1305 L plaintext key content_format nonce =
     (let protected_header = (content_format_into_header content_format)\<lparr>header_key_id := aead_key_id key\<rparr>;
          protected_header = protected_header\<lparr>header_alg := Some (PrivateUse XCHACHA20_POLY1305)\<rparr>
      in and_then (if should_pad_content content_format then pad_text plaintext else Ok plaintext) (\<lambda>plaintext.
         let builder = encrypt0_builder_new\<lparr>encrypt0_protected := fresh_protected protected_header\<rparr>;
             aad = encrypt0_aad (lib_cose L) (encrypt0_protected builder) [];
             builder = builder\<lparr>encrypt0_ciphertext :=
               Some (XChaCha20Poly1305_encrypt L (aead_enc_key key) nonce plaintext aad)\<rparr>;
             cose_encrypt0 = builder\<lparr>encrypt0_unprotected := header_new\<lparr>header_iv := nonce\<rparr>\<rparr>
         in map_err (\<lambda>err. EncStringError (enc_string_parse_error.InvalidCoseEncoding err))
              (encrypt0_to_vec (lib_cose L) cose_encrypt0)))"

definition decrypt_xchacha20_poly1305 ::
  "crypto_lib \<Rightarrow> bytes \<Rightarrow> aead_key \<Rightarrow> (bytes \<times> content_format, crypto_error) result" where
  "decrypt_xchacha20_poly1305 L cose_encrypt0_message key =
     and_then (map_err (\<lambda>err. EncStringError (enc_string_parse_error.InvalidCoseEncoding err))
       (encrypt0_from_slice (lib_cose L) cose_encrypt0_message)) (\<lambda>msg.
     let hdr = parsed_header (encrypt0_protected msg) in
     and_then (ok_or (EncStringError CoseMissingAlgorithm) (header_alg hdr)) (\<lambda>alg.
       if alg \<noteq> PrivateUse XCHACHA20_POLY1305 then Err WrongKeyType
       else
     and_then (map_err (\<lambda>_. EncStringError CoseMissingContentType) (content_format_try_from hdr)) (\<lambda>content_format.
       if aead_key_id key \<noteq> header_key_id hdr then Err WrongCoseKeyId
       else
     and_then (XChaCha20Poly1305Nonce_from_cose_iv (header_iv (encrypt0_unprotected msg))) (\<lambda>nonce.
     and_then (ok_or (MissingField ''ciphertext'') (encrypt0_ciphertext msg)) (\<lambda>data.
     and_then (XChaCha20Poly1305_decrypt L (aead_enc_key key) nonce data
         (encrypt0_aad (lib_cose L) (encrypt0_protected msg) [])) (\<lambda>decrypted_message.
       if should_pad_content content_format
       then map_ok (\<lambda>data. (data, content_format)) (unpad_bytes decrypted_message)
       else Ok (decrypted_message, content_format)))))))"

definition encrypt_xaes256_gcm ::
  "crypto_lib \<Rightarrow> bytes \<Rightarrow> aead_key \<Rightarrow> content_format \<Rightarrow> bytes \<Rightarrow> (bytes, crypto_error) result" where
  "encrypt_xaes256_gcm L plaintext key content_format nonce =
     (let protected_header = (content_format_into_header content_format)\<lparr>header_key_id := aead_key_id key\<rparr>;
          protected_header = protected_header\<lparr>header_alg := Some (PrivateUse XAES_256_GCM)\<rparr>
      in and_then (if should_pad_content content_format then pad_text plaintext else Ok plaintext) (\<lambda>plaintext.
         let builder = encrypt0_builder_new\<lparr>encrypt0_protected := fresh_protected protected_header\<rparr>;
             builder = builder\<lparr>encrypt0_unprotected := header_new\<lparr>header_iv := nonce\<rparr>\<rparr>;
             aad = encrypt0_aad (lib_cose L) (encrypt0_protected builder) [];
             cose_encrypt0 = builder\<lparr>encrypt0_ciphertext :=
               Some (XAes256Gcm_encrypt L (aead_enc_key key) nonce plaintext aad)\<rparr>
         in map_err (\<lambda>err. EncStringError (enc_string_parse_error.InvalidCoseEncoding err))
              (encrypt0_to_vec (lib_cose L) cose_encrypt0)))"

definition decrypt_xaes256_gcm ::
  "crypto_lib \<Rightarrow> bytes \<Rightarrow> aead_key \<Rightarrow> (bytes \<times> content_format, crypto_error) result" where
  "decrypt_xaes256_gcm L message key =
     and_then (map_err (\<lambda>err. EncStringError (enc_string_parse_error.InvalidCoseEncoding err))
       (encrypt0_from_slice (lib_cose L) message)) (\<lambda>msg.
     let hdr = parsed_header (encrypt0_protected msg) in
     and_then (ok_or (EncStringError CoseMissingAlgorithm) (header_alg hdr)) (\<lambda>algorithm.
       if algorithm \<noteq> PrivateUse XAES_256_GCM then Err WrongKeyType
       else
     and_then (map_err (\<lambda>_. EncStringError CoseMissingContentType) (content_format_try_from hdr)) (\<lambda>content_format.
       if aead_key_id key \<noteq> header_key_id hdr then Err WrongCoseKeyId
       else
     and_then (XAes256GcmNonce_from_cose_iv (header_iv (encrypt0_unprotected msg))) (\<lambda>nonce.
     and_then (ok_or (MissingField ''ciphertext'') (encrypt0_ciphertext msg)) (\<lambda>data.
     and_then (XAes256Gcm_decrypt L (aead_enc_key key) nonce data
         (encrypt0_aad (lib_cose L) (encrypt0_protected msg) [])) (\<lambda>decrypted.
       if should_pad_content content_format
       then map_ok (\<lambda>data. (data, content_format)) (unpad_bytes decrypted)
       else Ok (decrypted, content_format)))))))"


text \<open>The header an EncString message is created with.\<close>

definition enc_string_header :: "cose_algorithm \<Rightarrow> key_id \<Rightarrow> content_format \<Rightarrow> header" where
  "enc_string_header alg key_id f =
     (content_format_into_header f)\<lparr>header_key_id := key_id, header_alg := Some alg\<rparr>"

definition enc_string_message :: "crypto_lib \<Rightarrow> cose_cipher \<Rightarrow> aead_key \<Rightarrow> content_format \<Rightarrow> bytes \<Rightarrow> bytes
    \<Rightarrow> cose_encrypt0" where
  "enc_string_message L C key f nonce padded =
     (let p = fresh_protected (enc_string_header (cipher_algorithm C) (aead_key_id key) f)
      in \<lparr>encrypt0_protected = p, encrypt0_unprotected = header_new\<lparr>header_iv := nonce\<rparr>,
          encrypt0_ciphertext = Some (cipher_encrypt C (aead_enc_key key) nonce padded
             (encrypt0_aad (lib_cose L) p []))\<rparr>)"

definition padded_content :: "content_format \<Rightarrow> bytes \<Rightarrow> bytes" where
  "padded_content f plaintext = (if should_pad_content f then expect (pad_text plaintext) else plaintext)"

text \<open>The two decryption functions are the same checks around different ciphers.\<close>

definition decrypt_enc_string_message ::
  "crypto_lib \<Rightarrow> cose_cipher \<Rightarrow> bytes \<Rightarrow> aead_key \<Rightarrow> (bytes \<times> content_format, crypto_error) result" where
  "decrypt_enc_string_message L C bs key =
     and_then (map_err (\<lambda>err. EncStringError (enc_string_parse_error.InvalidCoseEncoding err))
       (encrypt0_from_slice (lib_cose L) bs)) (\<lambda>msg.
     let hdr = parsed_header (encrypt0_protected msg) in
     and_then (ok_or (EncStringError CoseMissingAlgorithm) (header_alg hdr)) (\<lambda>alg.
       if alg \<noteq> cipher_algorithm C then Err WrongKeyType
       else
     and_then (map_err (\<lambda>_. EncStringError CoseMissingContentType) (content_format_try_from hdr)) (\<lambda>f.
       if aead_key_id key \<noteq> header_key_id hdr then Err WrongCoseKeyId
       else
     and_then (cipher_nonce C (header_iv (encrypt0_unprotected msg))) (\<lambda>nonce.
     and_then (ok_or (MissingField ''ciphertext'') (encrypt0_ciphertext msg)) (\<lambda>data.
     and_then (cipher_decrypt C (aead_enc_key key) nonce data
         (encrypt0_aad (lib_cose L) (encrypt0_protected msg) [])) (\<lambda>decrypted.
       if should_pad_content f then map_ok (\<lambda>data. (data, f)) (unpad_bytes decrypted)
       else Ok (decrypted, f)))))))"

definition encrypt_enc_string_message ::
  "crypto_lib \<Rightarrow> cose_cipher \<Rightarrow> bytes \<Rightarrow> aead_key \<Rightarrow> content_format \<Rightarrow> bytes \<Rightarrow> (bytes, crypto_error) result" where
  "encrypt_enc_string_message L C plaintext key f nonce =
     map_err (\<lambda>err. EncStringError (enc_string_parse_error.InvalidCoseEncoding err))
       (encrypt0_to_vec (lib_cose L) (enc_string_message L C key f nonce (padded_content f plaintext)))"

text \<open>The two content formats that are written into a header but not recognised in one.\<close>

definition unreadable_format :: "content_format \<Rightarrow> bool" where
  "unreadable_format f \<longleftrightarrow> f = content_format.CoseSign1 \<or> f = content_format.CoseEncrypt0"


section \<open>The framing is correct over every cipher that satisfies the Aead contract\<close>

locale cose_framing =
  aead_cipher crypto_lib_ok key_len nonce_len encrypt decrypt
  for key_len nonce_len :: nat
    and encrypt :: "crypto_lib \<Rightarrow> bytes \<Rightarrow> bytes \<Rightarrow> bytes \<Rightarrow> bytes \<Rightarrow> bytes"
    and decrypt :: "crypto_lib \<Rightarrow> bytes \<Rightarrow> bytes \<Rightarrow> bytes \<Rightarrow> bytes \<Rightarrow> (bytes, crypto_error) result" +
  fixes cipher :: "crypto_lib \<Rightarrow> cose_cipher"
  assumes cipher_size: "cipher_key_size (cipher L) = key_len"
    and cipher_enc: "cipher_encrypt (cipher L) = encrypt L"
    and cipher_dec: "cipher_decrypt (cipher L) = decrypt L"
    and cipher_iv: "cipher_nonce (cipher L) iv = try_into_array nonce_len InvalidNonceLength iv"
begin

lemma cose0_roundtrip:
  assumes "crypto_lib_ok L" "length cek = key_len" "length nonce = nonce_len"
    and "m = cipher_encrypt_cose0 L (cipher L) builder h plaintext cek nonce"
    and "parsed_header p = parsed_header (encrypt0_protected m)"
    and "encrypt0_aad (lib_cose L) p = encrypt0_aad (lib_cose L) (encrypt0_protected m)"
  shows "cipher_decrypt_cose0 L (cipher L) (m\<lparr>encrypt0_protected := p\<rparr>) cek = Ok plaintext"
  using assms
  by (simp add: cipher_decrypt_cose0_def cipher_encrypt_cose0_def Let_def fresh_protected_def
        ensure_algorithm_matches_def cipher_enc cipher_dec cipher_iv try_into_array_def
        decrypt_encrypt)

lemma cose_roundtrip:
  assumes "crypto_lib_ok L" "length cek = key_len" "length nonce = nonce_len"
    and "m = cipher_encrypt_cose L (cipher L) builder h plaintext cek nonce"
    and "parsed_header p = parsed_header (encrypt_protected m)"
    and "encrypt_aad (lib_cose L) p = encrypt_aad (lib_cose L) (encrypt_protected m)"
  shows "cipher_decrypt_cose L (cipher L) (m\<lparr>encrypt_protected := p\<rparr>) cek = Ok plaintext"
  using assms
  by (simp add: cipher_decrypt_cose_def cipher_encrypt_cose_def Let_def fresh_protected_def
        ensure_algorithm_matches_def cipher_enc cipher_dec cipher_iv try_into_array_def
        decrypt_encrypt)

text \<open>A message decrypts only if its ciphertext is the encryption of the result.\<close>

lemma cose0_decrypt_Ok:
  assumes "crypto_lib_ok L" "length cek = key_len"
    and "cipher_decrypt_cose0 L (cipher L) m cek = Ok plaintext"
  shows "encrypt0_ciphertext m =
      Some (encrypt L cek (header_iv (encrypt0_unprotected m)) plaintext
        (encrypt0_aad (lib_cose L) (encrypt0_protected m) []))"
  using assms
  by (auto simp: cipher_decrypt_cose0_def cipher_dec cipher_iv decrypt_iff result_simps)

end

interpretation gcm_cose: cose_framing 32 12 Aes256Gcm_encrypt Aes256Gcm_decrypt Aes256Gcm_cipher
  by unfold_locales (simp_all add: Aes256Gcm_cipher_def Aes256GcmNonce_from_cose_iv_def)

interpretation xaes_cose: cose_framing 32 24 XAes256Gcm_encrypt XAes256Gcm_decrypt XAes256Gcm_cipher
  by unfold_locales (simp_all add: XAes256Gcm_cipher_def XAes256GcmNonce_from_cose_iv_def)

interpretation xchacha_cose: cose_framing 32 24
  XChaCha20Poly1305_encrypt XChaCha20Poly1305_decrypt XChaCha20Poly1305_cipher
  by unfold_locales
     (simp_all add: XChaCha20Poly1305_cipher_def XChaCha20Poly1305Nonce_from_cose_iv_def)

interpretation cbc_hmac_cose: cose_framing 64 16
  Aes256CbcHmacSha256Aead_encrypt Aes256CbcHmacSha256Aead_decrypt Aes256CbcHmacSha256Aead_cipher
  by unfold_locales
     (simp_all add: Aes256CbcHmacSha256Aead_cipher_def Aes256CbcHmacSha256AeadNonce_from_cose_iv_def)


section \<open>Lemmas\<close>

lemma cipher_key_size_select:
  "cipher_key_size (select_cipher L alg) =
     (if alg = cose_content_encryption_algorithm.Aes256CbcHmacSha256 then 64 else 32)"
  by (cases alg) (simp_all add: Aes256Gcm_cipher_def XAes256Gcm_cipher_def
      XChaCha20Poly1305_cipher_def Aes256CbcHmacSha256Aead_cipher_def)

lemma select_cipher_algorithm [simp]:
  "content_encryption_algorithm_try_from (cipher_algorithm (select_cipher L alg)) = Ok alg"
  by (cases alg) (simp_all add: Aes256Gcm_cipher_def XAes256Gcm_cipher_def
      XChaCha20Poly1305_cipher_def Aes256CbcHmacSha256Aead_cipher_def
      content_encryption_algorithm_try_from_def cose_constants)

lemma algorithm_encodable_select [simp]: "algorithm_encodable (cipher_algorithm (select_cipher L alg))"
  by (cases alg) (simp_all add: Aes256Gcm_cipher_def XAes256Gcm_cipher_def
      XChaCha20Poly1305_cipher_def Aes256CbcHmacSha256Aead_cipher_def cose_constants)

lemma select_cose0_roundtrip:
  assumes "crypto_lib_ok L" "length cek = cipher_key_size (select_cipher L alg)"
    and "length nonce = nonce_size alg"
    and "m = cipher_encrypt_cose0 L (select_cipher L alg) builder h plaintext cek nonce"
    and "parsed_header p = parsed_header (encrypt0_protected m)"
    and "encrypt0_aad (lib_cose L) p = encrypt0_aad (lib_cose L) (encrypt0_protected m)"
  shows "cipher_decrypt_cose0 L (select_cipher L alg) (m\<lparr>encrypt0_protected := p\<rparr>) cek = Ok plaintext"
  using assms
  by (cases alg; hypsubst_thin; simp only: select_cipher.simps nonce_size.simps
      gcm_cose.cipher_size xaes_cose.cipher_size xchacha_cose.cipher_size cbc_hmac_cose.cipher_size)
     (rule gcm_cose.cose0_roundtrip xaes_cose.cose0_roundtrip xchacha_cose.cose0_roundtrip
        cbc_hmac_cose.cose0_roundtrip; (assumption | rule refl))+

lemma pad_text_Ok: "\<exists>p. pad_text bs = Ok p \<and> unpad_bytes p = Ok bs
    \<and> length p = TEXT_PAD_BLOCK_SIZE * (1 + length bs div TEXT_PAD_BLOCK_SIZE)"
  using pad_to_block [of TEXT_PAD_BLOCK_SIZE bs] by (auto simp: pad_text_def TEXT_PAD_BLOCK_SIZE_def)

lemma header_wants_padding_cong:
  "header_content_type h = header_content_type h' \<Longrightarrow> header_wants_padding h = header_wants_padding h'"
  using content_format_try_from_cong [of h h'] by (simp add: header_wants_padding_def)

lemma algorithm_from_header_declared:
  "header_alg h = Some (cipher_algorithm (select_cipher L alg)) \<Longrightarrow>
   algorithm_from_header h policy =
     (case policy of Exactly expected \<Rightarrow> if alg = expected then Ok alg else Err WrongKeyType
      | _ \<Rightarrow> Ok alg)"
  by (cases policy) (simp_all add: algorithm_from_header_def)

lemma algorithm_from_header_Exactly:
  "algorithm_from_header h (Exactly expected) = Ok actual \<Longrightarrow>
   actual = expected \<and> (\<exists>a. header_alg h = Some a \<and> content_encryption_algorithm_try_from a = Ok expected)"
  by (auto simp: algorithm_from_header_def result_simps split: option.splits if_splits)

text \<open>Encrypting and decrypting a message, with the protected header possibly reparsed.\<close>

lemma encrypt_cose0_Ok:
  assumes "length cek = cipher_key_size (select_cipher L alg)"
  obtains padded where
    "encrypt_cose0 L alg builder h plaintext cek nonce =
       Ok (cipher_encrypt_cose0 L (select_cipher L alg) builder h padded cek nonce)"
    "(if header_wants_padding h then unpad_bytes padded else Ok padded) = Ok plaintext"
  using assms pad_text_Ok [of plaintext]
  by (cases "header_wants_padding h") (auto simp: encrypt_cose0_def try_into_array_def)

lemma decrypt_encrypt_cose0:
  assumes "crypto_lib_ok L" "length cek = cipher_key_size (select_cipher L alg)"
    and "length nonce = nonce_size alg"
    and enc: "encrypt_cose0 L alg builder h plaintext cek nonce = Ok m"
    and ph: "parsed_header p = parsed_header (encrypt0_protected m)"
    and aad: "encrypt0_aad (lib_cose L) p = encrypt0_aad (lib_cose L) (encrypt0_protected m)"
    and pol: "case policy of Exactly expected \<Rightarrow> alg = expected | _ \<Rightarrow> True"
  shows "decrypt_cose0 L (m\<lparr>encrypt0_protected := p\<rparr>) policy cek = Ok plaintext"
proof -
  obtain padded where m: "m = cipher_encrypt_cose0 L (select_cipher L alg) builder h padded cek nonce"
    and pad: "(if header_wants_padding h then unpad_bytes padded else Ok padded) = Ok plaintext"
    using encrypt_cose0_Ok [OF assms(2)] enc by (metis result.inject(1))
  have dec: "cipher_decrypt_cose0 L (select_cipher L alg) (m\<lparr>encrypt0_protected := p\<rparr>) cek = Ok padded"
    by (rule select_cose0_roundtrip [OF assms(1-3) m ph aad])
  have hdr: "parsed_header p = h\<lparr>header_alg := Some (cipher_algorithm (select_cipher L alg))\<rparr>"
    using ph m by (simp add: cipher_encrypt_cose0_def Let_def fresh_protected_def)
  then have "header_wants_padding (parsed_header p) = header_wants_padding h"
    by (intro header_wants_padding_cong) simp
  moreover have "algorithm_from_header (parsed_header p) policy = Ok alg"
    using pol hdr by (subst algorithm_from_header_declared [of _ L alg])
      (auto split: cose_algorithm_policy.splits)
  ultimately show ?thesis
    using dec pad assms(2) by (simp add: decrypt_cose0_def try_into_array_def)
qed

text \<open>What serializing and parsing does to a message.\<close>

lemma encrypt0_reparse:
  assumes "crypto_lib_ok L" and "cose_encrypt0_encodable m"
  obtains bs p where "encrypt0_to_vec (lib_cose L) m = Ok bs"
    "encrypt0_from_slice (lib_cose L) bs = Ok (m\<lparr>encrypt0_protected := p\<rparr>)"
    "parsed_header p = parsed_header (encrypt0_protected m)"
    "encrypt0_aad (lib_cose L) p = encrypt0_aad (lib_cose L) (encrypt0_protected m)"
  using crypto_lib_okD(2) [OF assms(1)] assms(2) unfolding encrypt0_roundtrip_def
  by (metis protected_header.select_convs(2))

lemma enc_string_message_encodable:
  "algorithm_encodable (cipher_algorithm C) \<Longrightarrow>
   cose_encrypt0_encodable (enc_string_message L C key f nonce padded)"
  using content_format_into_header_encodable [of f]
  by (simp add: cose_encrypt0_encodable_def enc_string_message_def Let_def fresh_protected_def
        enc_string_header_def header_encodable_def split: option.splits)

lemma enc_string_header_format [simp]:
  "content_format_try_from (enc_string_header alg kid f) =
     (if f = content_format.CoseSign1 \<or> f = content_format.CoseEncrypt0
      then Err (EncStringError CoseMissingContentType) else Ok f)"
proof -
  have "content_format_try_from (enc_string_header alg kid f)
      = content_format_try_from (content_format_into_header f)"
    by (rule content_format_try_from_cong) (simp add: enc_string_header_def)
  then show ?thesis by (simp add: content_format_roundtrip)
qed

lemma enc_string_header_simps [simp]:
  "header_alg (enc_string_header alg kid f) = Some alg"
  "header_key_id (enc_string_header alg kid f) = kid"
  by (simp_all add: enc_string_header_def)

lemma padded_content:
  "(if should_pad_content f then pad_text bs else Ok bs) = Ok (padded_content f bs)"
  "(if should_pad_content f then unpad_bytes (padded_content f bs) else Ok (padded_content f bs)) = Ok bs"
  using pad_text_Ok [of bs] by (auto simp: padded_content_def)

lemma enc_string_message_functions:
  "encrypt_xchacha20_poly1305 L = encrypt_enc_string_message L (XChaCha20Poly1305_cipher L)"
  "decrypt_xchacha20_poly1305 L = decrypt_enc_string_message L (XChaCha20Poly1305_cipher L)"
  "encrypt_xaes256_gcm L = encrypt_enc_string_message L (XAes256Gcm_cipher L)"
  "decrypt_xaes256_gcm L = decrypt_enc_string_message L (XAes256Gcm_cipher L)"
  by (intro ext; simp add: encrypt_xchacha20_poly1305_def decrypt_xchacha20_poly1305_def
        encrypt_xaes256_gcm_def decrypt_xaes256_gcm_def encrypt_enc_string_message_def
        decrypt_enc_string_message_def padded_content(1) enc_string_message_def
        enc_string_header_def XChaCha20Poly1305_cipher_def XAes256Gcm_cipher_def
        encrypt0_builder_new_def Let_def cong: if_cong)+

context cose_framing
begin

lemma enc_string_message_reparse:
  assumes "crypto_lib_ok L" "algorithm_encodable (cipher_algorithm (cipher L))"
  obtains bs p where
    "encrypt_enc_string_message L (cipher L) plaintext key f nonce = Ok bs"
    "encrypt0_from_slice (lib_cose L) bs =
       Ok (enc_string_message L (cipher L) key f nonce (padded_content f plaintext)\<lparr>encrypt0_protected := p\<rparr>)"
    "parsed_header p = enc_string_header (cipher_algorithm (cipher L)) (aead_key_id key) f"
    "encrypt0_aad (lib_cose L) p = encrypt0_aad (lib_cose L)
       (fresh_protected (enc_string_header (cipher_algorithm (cipher L)) (aead_key_id key) f))"
proof -
  let ?m = "enc_string_message L (cipher L) key f nonce (padded_content f plaintext)"
  obtain bs p where "encrypt0_to_vec (lib_cose L) ?m = Ok bs"
    "encrypt0_from_slice (lib_cose L) bs = Ok (?m\<lparr>encrypt0_protected := p\<rparr>)"
    "parsed_header p = parsed_header (encrypt0_protected ?m)"
    "encrypt0_aad (lib_cose L) p = encrypt0_aad (lib_cose L) (encrypt0_protected ?m)"
    using encrypt0_reparse [OF assms(1) enc_string_message_encodable [OF assms(2)]] .
  then show thesis
    by (intro that [of bs p]) (simp_all add: encrypt_enc_string_message_def enc_string_message_def
        fresh_protected_def Let_def)
qed

lemma enc_string_message_roundtrip:
  assumes "crypto_lib_ok L" "algorithm_encodable (cipher_algorithm (cipher L))"
    and "length (aead_enc_key key) = key_len" "length nonce = nonce_len"
  shows "\<exists>bs. encrypt_enc_string_message L (cipher L) plaintext key f nonce = Ok bs
    \<and> (\<forall>key'. aead_key_ct_eq key' key \<longrightarrow> decrypt_enc_string_message L (cipher L) bs key' =
         (if unreadable_format f then Err (EncStringError CoseMissingContentType) else Ok (plaintext, f)))
    \<and> (\<forall>key'. aead_key_id key' \<noteq> aead_key_id key \<longrightarrow> decrypt_enc_string_message L (cipher L) bs key' =
         (if unreadable_format f then Err (EncStringError CoseMissingContentType) else Err WrongCoseKeyId))"
proof -
  obtain bs p where bs: "encrypt_enc_string_message L (cipher L) plaintext key f nonce = Ok bs"
    and parse: "encrypt0_from_slice (lib_cose L) bs =
       Ok (enc_string_message L (cipher L) key f nonce (padded_content f plaintext)\<lparr>encrypt0_protected := p\<rparr>)"
    and hdr: "parsed_header p = enc_string_header (cipher_algorithm (cipher L)) (aead_key_id key) f"
    and aad: "encrypt0_aad (lib_cose L) p = encrypt0_aad (lib_cose L)
       (fresh_protected (enc_string_header (cipher_algorithm (cipher L)) (aead_key_id key) f))"
    using enc_string_message_reparse [OF assms(1,2)] .
  have dec: "decrypt L (aead_enc_key key) nonce
      (encrypt L (aead_enc_key key) nonce (padded_content f plaintext) a) a = Ok (padded_content f plaintext)" for a
    by (rule decrypt_encrypt [OF assms(1,3,4)])
  have pad: "(if should_pad_content f then map_ok (\<lambda>data. (data, f)) (unpad_bytes (padded_content f plaintext))
      else Ok (padded_content f plaintext, f)) = Ok (plaintext, f)"
    using padded_content(2) [of f plaintext] by (auto split: if_splits)
  have "decrypt_enc_string_message L (cipher L) bs key' =
      (if unreadable_format f then Err (EncStringError CoseMissingContentType) else Ok (plaintext, f))"
    if "aead_key_ct_eq key' key" for key'
    using that parse hdr aad assms(4) pad
    by (simp add: decrypt_enc_string_message_def enc_string_message_def aead_key_ct_eq_def
          unreadable_format_def cipher_enc cipher_dec cipher_iv try_into_array_def dec Let_def)
  moreover have "decrypt_enc_string_message L (cipher L) bs key' =
      (if unreadable_format f then Err (EncStringError CoseMissingContentType) else Err WrongCoseKeyId)"
    if "aead_key_id key' \<noteq> aead_key_id key" for key'
    using that parse hdr
    by (simp add: decrypt_enc_string_message_def unreadable_format_def Let_def)
  ultimately show ?thesis using bs by blast
qed

text \<open>A message that declares another algorithm is rejected before the cipher is used.\<close>

lemma enc_string_message_wrong_algorithm:
  assumes "encrypt0_from_slice (lib_cose L) bs = Ok m"
    and "header_alg (parsed_header (encrypt0_protected m)) = Some alg" "alg \<noteq> cipher_algorithm (cipher L)"
  shows "decrypt_enc_string_message L (cipher L) bs key = Err WrongKeyType"
  using assms by (simp add: decrypt_enc_string_message_def Let_def)

end

lemma enc_string_algorithms_encodable:
  "algorithm_encodable (cipher_algorithm (XChaCha20Poly1305_cipher L))"
  "algorithm_encodable (cipher_algorithm (XAes256Gcm_cipher L))"
  by (simp_all add: XChaCha20Poly1305_cipher_def XAes256Gcm_cipher_def cose_constants)

lemmas xchacha_message_roundtrip =
  xchacha_cose.enc_string_message_roundtrip
    [OF _ enc_string_algorithms_encodable(1), folded enc_string_message_functions]

lemmas xaes_message_roundtrip =
  xaes_cose.enc_string_message_roundtrip
    [OF _ enc_string_algorithms_encodable(2), folded enc_string_message_functions]


section \<open>Properties\<close>

text \<open>C11: A COSE Encrypt0 message made by \<open>encrypt_cose0\<close> decrypts to the plaintext with the
  same content key under every policy that admits the cipher, for all four ciphers and with
  text padding, also after the message went through its serialized form.\<close>

theorem cose0_encrypt_decrypt:
  assumes "crypto_lib_ok L" "length cek = cipher_key_size (select_cipher L alg)" "length nonce = nonce_size alg"
    and "header_encodable h"
    and "case policy of Exactly expected \<Rightarrow> alg = expected | _ \<Rightarrow> True"
  shows "\<exists>m bs m'. encrypt_cose0 L alg encrypt0_builder_new h plaintext cek nonce = Ok m
     \<and> encrypt0_to_vec (lib_cose L) m = Ok bs \<and> encrypt0_from_slice (lib_cose L) bs = Ok m'
     \<and> decrypt_cose0 L m' policy cek = Ok plaintext"
proof -
  obtain padded where m: "encrypt_cose0 L alg encrypt0_builder_new h plaintext cek nonce =
       Ok (cipher_encrypt_cose0 L (select_cipher L alg) encrypt0_builder_new h padded cek nonce)"
    using encrypt_cose0_Ok [OF assms(2)] by metis
  let ?m = "cipher_encrypt_cose0 L (select_cipher L alg) encrypt0_builder_new h padded cek nonce"
  have "cose_encrypt0_encodable ?m"
    using assms(4) by (simp add: cose_encrypt0_encodable_def cipher_encrypt_cose0_def fresh_protected_def
        header_encodable_def Let_def)
  then obtain bs p where "encrypt0_to_vec (lib_cose L) ?m = Ok bs"
    "encrypt0_from_slice (lib_cose L) bs = Ok (?m\<lparr>encrypt0_protected := p\<rparr>)"
    "parsed_header p = parsed_header (encrypt0_protected ?m)"
    "encrypt0_aad (lib_cose L) p = encrypt0_aad (lib_cose L) (encrypt0_protected ?m)"
    using encrypt0_reparse [OF assms(1)] by metis
  with decrypt_encrypt_cose0 [OF assms(1-3) m _ _ assms(5)] m show ?thesis by blast
qed

theorem cose0_encrypt_decrypt_witness:
  "\<exists>m bs m'. encrypt_cose0 crypto_ref cose_content_encryption_algorithm.Aes256CbcHmacSha256 encrypt0_builder_new
        (content_format_into_header content_format.Utf8) [72, 105] (replicate 64 3) (replicate 16 5) = Ok m
     \<and> encrypt0_to_vec (lib_cose crypto_ref) m = Ok bs \<and> encrypt0_from_slice (lib_cose crypto_ref) bs = Ok m'
     \<and> decrypt_cose0 crypto_ref m' RequireProtectedHeaderAlgorithm (replicate 64 3) = Ok [72, 105]"
  by (rule cose0_encrypt_decrypt [OF crypto_ref_ok])
     (simp_all add: Aes256CbcHmacSha256Aead_cipher_def header_encodable_def content_type_names)

text \<open>The algorithm policy is enforced.  Decryption under \<open>Exactly\<close> succeeds only if the
  protected header declares that very algorithm; without a declared algorithm only the
  legacy policy goes on, and an unknown declared algorithm is rejected under every policy.\<close>

theorem algorithm_policy_enforced:
  "(decrypt_cose0 L m (Exactly expected) cek = Ok plaintext
      \<longrightarrow> (\<exists>a. header_alg (parsed_header (encrypt0_protected m)) = Some a
            \<and> content_encryption_algorithm_try_from a = Ok expected))
   \<and> (header_alg (parsed_header (encrypt0_protected m)) = None
      \<longrightarrow> (\<forall>d. policy \<noteq> ProtectedHeaderAlgorithmOrLegacyDefault d)
      \<longrightarrow> decrypt_cose0 L m policy cek = Err (EncStringError CoseMissingAlgorithm))
   \<and> (\<forall>a. header_alg (parsed_header (encrypt0_protected m)) = Some a
      \<longrightarrow> \<not> is_ok (content_encryption_algorithm_try_from a)
      \<longrightarrow> decrypt_cose0 L m policy cek = Err WrongKeyType)"
proof (intro conjI allI impI)
  assume "decrypt_cose0 L m (Exactly expected) cek = Ok plaintext"
  then show "\<exists>a. header_alg (parsed_header (encrypt0_protected m)) = Some a
            \<and> content_encryption_algorithm_try_from a = Ok expected"
    by (auto simp: decrypt_cose0_def result_simps dest: algorithm_from_header_Exactly)
next
  assume "header_alg (parsed_header (encrypt0_protected m)) = None"
    "\<forall>d. policy \<noteq> ProtectedHeaderAlgorithmOrLegacyDefault d"
  then show "decrypt_cose0 L m policy cek = Err (EncStringError CoseMissingAlgorithm)"
    by (cases policy) (simp_all add: decrypt_cose0_def algorithm_from_header_def)
next
  fix a assume "header_alg (parsed_header (encrypt0_protected m)) = Some a"
    "\<not> is_ok (content_encryption_algorithm_try_from a)"
  then show "decrypt_cose0 L m policy cek = Err WrongKeyType"
    by (auto simp: decrypt_cose0_def algorithm_from_header_def content_encryption_algorithm_try_from_def)
qed

theorem algorithm_policy_enforced_witness:
  "decrypt_cose0 crypto_ref encrypt0_builder_new RequireProtectedHeaderAlgorithm []
     = Err (EncStringError CoseMissingAlgorithm)"
  using algorithm_policy_enforced [of crypto_ref encrypt0_builder_new _ "[]" "[]" RequireProtectedHeaderAlgorithm]
  by (simp add: encrypt0_builder_new_def fresh_protected_def)

text \<open>C39: A message made with a format that is written into the header but not recognised when
  the header is read (\<open>CoseSign1\<close>, \<open>CoseEncrypt0\<close>) can never be decrypted again, although the
  encryption succeeds; the key that made it gets \<open>CoseMissingContentType\<close>.\<close>

theorem unreadable_formats_are_lost:
  assumes "crypto_lib_ok L" "aead_key_wf key" "length nonce = 24" "unreadable_format f"
  shows "\<exists>bs. encrypt_xchacha20_poly1305 L plaintext key f nonce = Ok bs
     \<and> decrypt_xchacha20_poly1305 L bs key = Err (EncStringError CoseMissingContentType)"
  using xchacha_message_roundtrip [OF assms(1) _ assms(3), of key plaintext f] assms(2,4)
  by (auto simp: aead_key_wf_def aead_key_ct_eq_def)

theorem unreadable_formats_are_lost_witness:
  "\<exists>bs. encrypt_xchacha20_poly1305 crypto_ref [1] (aead_key_make (replicate 32 7) (replicate 16 9))
        content_format.CoseEncrypt0 (replicate 24 0) = Ok bs
     \<and> decrypt_xchacha20_poly1305 crypto_ref bs (aead_key_make (replicate 32 7) (replicate 16 9))
        = Err (EncStringError CoseMissingContentType)"
  by (rule unreadable_formats_are_lost [OF crypto_ref_ok])
     (simp_all add: aead_key_make_def aead_key_wf_def KEY_ID_SIZE_def unreadable_format_def)

end
