(* ===== verification/Enc_String.thy ===== *)
theory Enc_String
  imports Cose_Symmetric
begin

text \<open>
  \<open>enc_string/mod.rs\<close> and \<open>enc_string/symmetric.rs\<close>: the encrypted string, its text and byte
  formats, and encryption and decryption with a symmetric key.  The byte arrays of the
  Rust variants are lists; \<open>enc_string_wf\<close> states their lengths, and that an \<open>Unparseable\<close>
  value holds a text that no known format accepts.
\<close>


section \<open>UTF-8\<close>

text \<open>The validity check of \<open>String::from_utf8\<close>.\<close>

definition utf8_cont :: "u8 \<Rightarrow> bool" where
  "utf8_cont b \<longleftrightarrow> 0x80 \<le> b \<and> b \<le> 0xBF"

fun valid_utf8 :: "bytes \<Rightarrow> bool" where
  "valid_utf8 [] = True"
| "valid_utf8 (a # bs) =
     (if a < 0x80 then valid_utf8 bs
      else if 0xC2 \<le> a \<and> a \<le> 0xDF then
        (case bs of b # cs \<Rightarrow> utf8_cont b \<and> valid_utf8 cs | _ \<Rightarrow> False)
      else if 0xE0 \<le> a \<and> a \<le> 0xEF then
        (case bs of b # c # cs \<Rightarrow>
           utf8_cont b \<and> utf8_cont c \<and> (a = 0xE0 \<longrightarrow> 0xA0 \<le> b) \<and> (a = 0xED \<longrightarrow> b \<le> 0x9F)
           \<and> valid_utf8 cs
         | _ \<Rightarrow> False)
      else if 0xF0 \<le> a \<and> a \<le> 0xF4 then
        (case bs of b # c # d # cs \<Rightarrow>
           utf8_cont b \<and> utf8_cont c \<and> utf8_cont d \<and> (a = 0xF0 \<longrightarrow> 0x90 \<le> b) \<and> (a = 0xF4 \<longrightarrow> b \<le> 0x8F)
           \<and> valid_utf8 cs
         | _ \<Rightarrow> False)
      else False)"

definition string_bytes :: "string \<Rightarrow> bytes" where
  "string_bytes s = map of_char s"

definition string_from_utf8 :: "bytes \<Rightarrow> string option" where
  "string_from_utf8 bs = (if valid_utf8 bs then Some (map (\<lambda>b. char_of (unat b)) bs) else None)"


section \<open>Parsing helpers\<close>

definition check_length :: "bytes \<Rightarrow> nat \<Rightarrow> (unit, crypto_error) result" where
  "check_length buf expected =
     (if length buf < expected then Err (EncStringError (InvalidLength expected (length buf))) else Ok ())"

definition from_b64_vec :: "b64_lib \<Rightarrow> string \<Rightarrow> (bytes, crypto_error) result" where
  "from_b64_vec E s = map_err (\<lambda>_. EncStringError InvalidBase64) (b64_try_from E s)"

definition from_b64 :: "nat \<Rightarrow> b64_lib \<Rightarrow> string \<Rightarrow> (bytes, crypto_error) result" where
  "from_b64 N E s =
     and_then (from_b64_vec E s) (\<lambda>bs. try_into_array N (EncStringError (InvalidLength N (length bs))) bs)"

definition split_enc_string :: "string \<Rightarrow> string \<times> string list" where
  "split_enc_string s =
     (let header_parts = split_on (CHR ''.'') s in
      if length header_parts = 2 then (header_parts ! 0, split_on (CHR ''|'') (header_parts ! 1))
      else let parts = split_on (CHR ''|'') s in
           if length parts = 3 then (''1'', parts) else (''0'', parts))"


section \<open>EncString\<close>

definition AES256_CBC_TYPE :: u8 where
  "AES256_CBC_TYPE = 0"

definition AES256_CBC_HMAC_TYPE :: u8 where
  "AES256_CBC_HMAC_TYPE = 2"

definition COSE_ENCRYPT0_TYPE :: u8 where
  "COSE_ENCRYPT0_TYPE = 7"

lemmas enc_types = AES256_CBC_TYPE_def AES256_CBC_HMAC_TYPE_def COSE_ENCRYPT0_TYPE_def

datatype enc_string =
    Aes256Cbc_B64 bytes bytes
  | Aes256Cbc_HmacSha256_B64 bytes bytes bytes
  | Cose_Encrypt0_B64 bytes
  | Unparseable string

text \<open>The arguments are \<open>iv\<close>, \<open>data\<close> for type 0, \<open>iv\<close>, \<open>mac\<close>, \<open>data\<close> for type 2 and \<open>data\<close> for type 7.\<close>

definition parse_known_format :: "b64_lib \<Rightarrow> string \<Rightarrow> enc_string option" where
  "parse_known_format E s =
     (let (enc_type, parts) = split_enc_string s in
      if enc_type = ''0'' \<and> length parts = 2 then
        (case (result_ok (from_b64 16 E (parts ! 0)), result_ok (from_b64_vec E (parts ! 1))) of
           (Some iv, Some data) \<Rightarrow> Some (Aes256Cbc_B64 iv data)
         | _ \<Rightarrow> None)
      else if enc_type = ''2'' \<and> length parts = 3 then
        (case (result_ok (from_b64 16 E (parts ! 0)), result_ok (from_b64_vec E (parts ! 1)),
               result_ok (from_b64 32 E (parts ! 2))) of
           (Some iv, Some data, Some mac) \<Rightarrow> Some (Aes256Cbc_HmacSha256_B64 iv mac data)
         | _ \<Rightarrow> None)
      else if enc_type = ''7'' \<and> length parts = 1 then
        (case result_ok (from_b64_vec E (parts ! 0)) of
           Some data \<Rightarrow> Some (Cose_Encrypt0_B64 data)
         | None \<Rightarrow> None)
      else None)"

definition enc_string_from :: "b64_lib \<Rightarrow> string \<Rightarrow> enc_string" where
  "enc_string_from E s =
     (case parse_known_format E s of Some e \<Rightarrow> e | None \<Rightarrow> Unparseable s)"

definition enc_string_from_str :: "b64_lib \<Rightarrow> string \<Rightarrow> (enc_string, crypto_error) result" where
  "enc_string_from_str E s =
     Ok (case parse_known_format E s of Some e \<Rightarrow> e | None \<Rightarrow> Unparseable s)"

definition parse_strict :: "b64_lib \<Rightarrow> string \<Rightarrow> (enc_string, crypto_error) result" where
  "parse_strict E s = ok_or UnparseableEncString (parse_known_format E s)"

definition try_from_optional :: "b64_lib \<Rightarrow> string option \<Rightarrow> (enc_string option, crypto_error) result" where
  "try_from_optional E s =
     (case s of None \<Rightarrow> Ok None | Some s \<Rightarrow> map_ok Some (enc_string_from_str E s))"

primrec enc_type :: "enc_string \<Rightarrow> u8 option" where
  "enc_type (Aes256Cbc_B64 iv data) = Some AES256_CBC_TYPE"
| "enc_type (Aes256Cbc_HmacSha256_B64 iv mac data) = Some AES256_CBC_HMAC_TYPE"
| "enc_type (Cose_Encrypt0_B64 data) = Some COSE_ENCRYPT0_TYPE"
| "enc_type (Unparseable raw) = None"

definition enc_string_key_id :: "crypto_lib \<Rightarrow> enc_string \<Rightarrow> key_id option" where
  "enc_string_key_id L self =
     (case self of
        Cose_Encrypt0_B64 data \<Rightarrow>
          (case encrypt0_from_slice (lib_cose L) data of
             Ok msg \<Rightarrow> result_ok (key_id_try_from (header_key_id (parsed_header (encrypt0_protected msg))))
           | Err _ \<Rightarrow> None)
      | _ \<Rightarrow> None)"

primrec key_algorithm_of :: "cose_content_encryption_algorithm \<Rightarrow> symmetric_key_algorithm" where
  "key_algorithm_of cose_content_encryption_algorithm.Aes256Gcm = symmetric_key_algorithm.Aes256Gcm"
| "key_algorithm_of cose_content_encryption_algorithm.XAes256Gcm = symmetric_key_algorithm.XAes256Gcm"
| "key_algorithm_of cose_content_encryption_algorithm.XChaCha20Poly1305 =
     symmetric_key_algorithm.XChaCha20Poly1305"
| "key_algorithm_of cose_content_encryption_algorithm.Aes256CbcHmacSha256 =
     symmetric_key_algorithm.Aes256CbcHmac"

definition enc_string_algorithm :: "crypto_lib \<Rightarrow> enc_string \<Rightarrow> symmetric_key_algorithm option" where
  "enc_string_algorithm L self =
     (case self of
        Aes256Cbc_HmacSha256_B64 _ _ _ \<Rightarrow> Some symmetric_key_algorithm.Aes256CbcHmac
      | Cose_Encrypt0_B64 data \<Rightarrow>
          (case encrypt0_from_slice (lib_cose L) data of
             Err _ \<Rightarrow> None
           | Ok msg \<Rightarrow>
               (case header_alg (parsed_header (encrypt0_protected msg)) of
                  None \<Rightarrow> None
                | Some algorithm \<Rightarrow>
                    map_option key_algorithm_of
                      (result_ok (content_encryption_algorithm_try_from algorithm))))
      | _ \<Rightarrow> None)"

definition from_buffer :: "bytes \<Rightarrow> (enc_string, crypto_error) result" where
  "from_buffer buf =
     (if buf = [] then Err (EncStringError NoType)
      else let enc_type = buf ! 0 in
        if enc_type = AES256_CBC_TYPE then
          and_then (check_length buf 18) (\<lambda>_.
            Ok (Aes256Cbc_B64 (take 16 (drop 1 buf)) (drop 17 buf)))
        else if enc_type = AES256_CBC_HMAC_TYPE then
          and_then (check_length buf 50) (\<lambda>_.
            Ok (Aes256Cbc_HmacSha256_B64 (take 16 (drop 1 buf)) (take 32 (drop 17 buf)) (drop 49 buf)))
        else if enc_type = COSE_ENCRYPT0_TYPE then Ok (Cose_Encrypt0_B64 (drop 1 buf))
        else Err (EncStringError (InvalidTypeSymm (string_of_nat (unat enc_type)) 1)))"

definition to_buffer :: "enc_string \<Rightarrow> (bytes, crypto_error) result" where
  "to_buffer self =
     and_then (ok_or UnparseableEncString (enc_type self)) (\<lambda>enc_type.
     (case self of
        Aes256Cbc_B64 iv data \<Rightarrow> Ok ([enc_type] @ iv @ data)
      | Aes256Cbc_HmacSha256_B64 iv mac data \<Rightarrow> Ok ([enc_type] @ iv @ mac @ data)
      | Cose_Encrypt0_B64 data \<Rightarrow> Ok ([enc_type] @ data)
      | Unparseable _ \<Rightarrow> Err UnparseableEncString))"

definition fmt_parts :: "b64_lib \<Rightarrow> u8 \<Rightarrow> bytes list \<Rightarrow> string" where
  "fmt_parts E ty parts =
     (let encoded_parts = map (b64_to_string E) parts
      in string_of_nat (unat ty) @ ''.'' @ join ''|'' encoded_parts)"

primrec enc_string_to_string :: "b64_lib \<Rightarrow> enc_string \<Rightarrow> string" where
  "enc_string_to_string E (Aes256Cbc_B64 iv data) = fmt_parts E AES256_CBC_TYPE [iv, data]"
| "enc_string_to_string E (Aes256Cbc_HmacSha256_B64 iv mac data) =
     fmt_parts E AES256_CBC_HMAC_TYPE [iv, data, mac]"
| "enc_string_to_string E (Cose_Encrypt0_B64 data) = fmt_parts E COSE_ENCRYPT0_TYPE [data]"
| "enc_string_to_string E (Unparseable raw) = raw"


section \<open>Encryption and decryption\<close>

text \<open>The last argument is the random IV or nonce.\<close>

definition encrypt_aes256_hmac :: "crypto_lib \<Rightarrow> bytes \<Rightarrow> bytes \<Rightarrow> bytes \<Rightarrow> (enc_string, crypto_error) result" where
  "encrypt_aes256_hmac L data_dec key iv =
     (let (mac, data) = Aes256CbcHmacSha256_encrypt L iv data_dec key
      in Ok (Aes256Cbc_HmacSha256_B64 iv mac data))"

definition enc_string_encrypt_xchacha20_poly1305 ::
  "crypto_lib \<Rightarrow> bytes \<Rightarrow> aead_key \<Rightarrow> content_format \<Rightarrow> bytes \<Rightarrow> (enc_string, crypto_error) result" where
  "enc_string_encrypt_xchacha20_poly1305 L data_dec key content_format nonce =
     map_ok Cose_Encrypt0_B64 (encrypt_xchacha20_poly1305 L data_dec key content_format nonce)"

definition enc_string_encrypt_xaes256_gcm ::
  "crypto_lib \<Rightarrow> bytes \<Rightarrow> aead_key \<Rightarrow> content_format \<Rightarrow> bytes \<Rightarrow> (enc_string, crypto_error) result" where
  "enc_string_encrypt_xaes256_gcm L data_dec key content_format nonce =
     map_ok Cose_Encrypt0_B64 (encrypt_xaes256_gcm L data_dec key content_format nonce)"

definition encrypt_with_key ::
  "crypto_lib \<Rightarrow> bytes \<Rightarrow> symmetric_crypto_key \<Rightarrow> content_format \<Rightarrow> bytes \<Rightarrow> (enc_string, crypto_error) result" where
  "encrypt_with_key L data key content_format nonce =
     (case key of
        Aes256CbcHmacKey key \<Rightarrow> encrypt_aes256_hmac L data key nonce
      | XChaCha20Poly1305Key inner_key \<Rightarrow>
          if key_operation.Encrypt \<notin> set (supported_operations inner_key)
          then Err (KeyOperationNotSupported key_operation.Encrypt)
          else enc_string_encrypt_xchacha20_poly1305 L data inner_key content_format nonce
      | XAes256GcmKey key \<Rightarrow>
          if key_operation.Encrypt \<notin> set (supported_operations key)
          then Err (KeyOperationNotSupported key_operation.Encrypt)
          else enc_string_encrypt_xaes256_gcm L data key content_format nonce
      | Aes256CbcKey _ \<Rightarrow> Err (OperationNotSupported EncryptionNotImplementedForKey)
      | Aes256GcmKey _ \<Rightarrow> Err (OperationNotSupported EncryptionNotImplementedForKey))"

definition decrypt_with_key ::
  "crypto_lib \<Rightarrow> enc_string \<Rightarrow> symmetric_crypto_key \<Rightarrow> (bytes, crypto_error) result" where
  "decrypt_with_key L self key =
     (case (self, key) of
        (Aes256Cbc_B64 _ _, Aes256CbcKey _) \<Rightarrow> Err (OperationNotSupported DecryptionNotImplementedForKey)
      | (Aes256Cbc_HmacSha256_B64 iv mac data, Aes256CbcHmacKey key) \<Rightarrow>
          map_err (\<lambda>_. crypto_error.Decrypt) (Aes256CbcHmacSha256_decrypt L iv data mac key)
      | (Cose_Encrypt0_B64 data, XChaCha20Poly1305Key key) \<Rightarrow>
          map_ok fst (decrypt_xchacha20_poly1305 L data key)
      | (Cose_Encrypt0_B64 data, XAes256GcmKey key) \<Rightarrow> map_ok fst (decrypt_xaes256_gcm L data key)
      | (Unparseable _, _) \<Rightarrow> Err UnparseableEncString
      | (_, XAes256GcmKey _) \<Rightarrow> Err WrongKeyType
      | _ \<Rightarrow> Err WrongKeyType)"

definition encrypt_string_with_key ::
  "crypto_lib \<Rightarrow> string \<Rightarrow> symmetric_crypto_key \<Rightarrow> bytes \<Rightarrow> (enc_string, crypto_error) result" where
  "encrypt_string_with_key L s key nonce =
     encrypt_with_key L (string_bytes s) key content_format.Utf8 nonce"

definition decrypt_string_with_key ::
  "crypto_lib \<Rightarrow> enc_string \<Rightarrow> symmetric_crypto_key \<Rightarrow> (string, crypto_error) result" where
  "decrypt_string_with_key L self key =
     and_then (decrypt_with_key L self key) (\<lambda>dec. ok_or InvalidUtf8String (string_from_utf8 dec))"

subsection \<open>Well-formed encrypted strings\<close>

primrec enc_string_wf :: "b64_lib \<Rightarrow> enc_string \<Rightarrow> bool" where
  "enc_string_wf E (Aes256Cbc_B64 iv data) = (length iv = 16)"
| "enc_string_wf E (Aes256Cbc_HmacSha256_B64 iv mac data) = (length iv = 16 \<and> length mac = 32)"
| "enc_string_wf E (Cose_Encrypt0_B64 data) = True"
| "enc_string_wf E (Unparseable raw) = (parse_known_format E raw = None)"

text \<open>The nonce length a key needs for an encrypted string.\<close>

primrec enc_string_nonce_size :: "symmetric_crypto_key \<Rightarrow> nat" where
  "enc_string_nonce_size (Aes256CbcKey k) = 16"
| "enc_string_nonce_size (Aes256CbcHmacKey k) = 16"
| "enc_string_nonce_size (XChaCha20Poly1305Key k) = 24"
| "enc_string_nonce_size (Aes256GcmKey k) = 12"
| "enc_string_nonce_size (XAes256GcmKey k) = 24"

text \<open>Keys that can encrypt strings: V1 keys, and COSE keys that allow the operation.\<close>

primrec can_encrypt :: "symmetric_crypto_key \<Rightarrow> bool" where
  "can_encrypt (Aes256CbcKey k) = False"
| "can_encrypt (Aes256CbcHmacKey k) = True"
| "can_encrypt (XChaCha20Poly1305Key k) = (key_operation.Encrypt \<in> set (supported_operations k))"
| "can_encrypt (Aes256GcmKey k) = False"
| "can_encrypt (XAes256GcmKey k) = (key_operation.Encrypt \<in> set (supported_operations k))"

section \<open>The text format\<close>

lemma set_join: "set (join sep ps) \<subseteq> set sep \<union> (\<Union>p \<in> set ps. set p)"
  by (induction sep ps rule: join.induct) auto

lemma digit_char_not_dot: "n < 10 \<Longrightarrow> digit_char n \<noteq> CHR ''.''"
proof
  assume "n < 10" "digit_char n = CHR ''.''"
  then have "of_char (digit_char n) = (of_char (CHR ''.'') :: nat)" by simp
  with \<open>n < 10\<close> show False by (simp add: digit_char_def)
qed

lemma split_fmt_parts:
  assumes "b64_lib_ok E" and "parts \<noteq> []" and "unat ty < 10"
  shows "split_enc_string (fmt_parts E ty parts) = (string_of_nat (unat ty), map (b64_to_string E) parts)"
proof -
  let ?body = "join ''|'' (map (b64_to_string E) parts)"
  have sep: "CHR ''.'' \<notin> set (b64_to_string E p)" for p
    by (rule b64.sep_notin_show [OF assms(1) separators_not_b64_letters(1)])
  have "CHR ''.'' \<notin> set ?body"
    using set_join [of "''|''" "map (b64_to_string E) parts"] sep by auto
  then have "split_on (CHR ''.'') (fmt_parts E ty parts) = [string_of_nat (unat ty), ?body]"
    using digit_char_not_dot [OF assms(3)]
    by (simp add: fmt_parts_def Let_def string_of_nat_small [OF assms(3)] split_on_no_sep)
  moreover have "split_on (CHR ''|'') ?body = map (b64_to_string E) parts"
    by (rule b64.split_shown_parts [OF assms(1) separators_not_b64_letters(2) assms(2)])
  ultimately show ?thesis by (simp add: split_enc_string_def Let_def)
qed

lemma from_b64_vec_show [codec_simps]: "b64_lib_ok E \<Longrightarrow> from_b64_vec E (b64_to_string E bs) = Ok bs"
  by (simp add: from_b64_vec_def b64.read_show)

lemma from_b64_show [codec_simps]:
  "b64_lib_ok E \<Longrightarrow> from_b64 N E (b64_to_string E bs) =
     (if length bs = N then Ok bs else Err (EncStringError (InvalidLength N (length bs))))"
  by (simp add: from_b64_def from_b64_vec_show try_into_array_def)

lemma from_b64_length: "from_b64 N E s = Ok bs \<Longrightarrow> length bs = N"
  by (auto simp: from_b64_def result_simps)

lemma string_of_enc_types [simp]:
  "string_of_nat (unat AES256_CBC_TYPE) = ''0''"
  "string_of_nat (unat AES256_CBC_HMAC_TYPE) = ''2''"
  "string_of_nat (unat COSE_ENCRYPT0_TYPE) = ''7''"
  by (simp_all add: enc_types string_of_nat_small digit_char_def char_of_def bit_0)

lemma parse_shown:
  assumes "b64_lib_ok E" and "enc_string_wf E e" and "enc_type e \<noteq> None"
  shows "parse_known_format E (enc_string_to_string E e) = Some e"
proof -
  have small: "unat AES256_CBC_TYPE < 10" "unat AES256_CBC_HMAC_TYPE < 10" "unat COSE_ENCRYPT0_TYPE < 10"
    by (simp_all add: enc_types)
  show ?thesis
    using assms(2,3)
    by (cases e) (simp_all add: parse_known_format_def split_fmt_parts [OF assms(1)] small
          from_b64_show [OF assms(1)] from_b64_vec_show [OF assms(1)])
qed

lemma from_str_to_string:
  "b64_lib_ok E \<Longrightarrow> enc_string_wf E e \<Longrightarrow> enc_string_from_str E (enc_string_to_string E e) = Ok e"
  using parse_shown [of E e] by (cases "enc_type e = None"; cases e) (simp_all add: enc_string_from_str_def)

lemma parse_known_format_wf:
  assumes "parse_known_format E s = Some e"
  shows "enc_string_wf E e \<and> enc_type e \<noteq> None"
  using assms
  by (auto simp: parse_known_format_def Let_def result_simps
        dest: from_b64_length split: prod.splits if_splits option.splits)

lemma from_str_wf: "enc_string_from_str E s = Ok e \<Longrightarrow> enc_string_wf E e"
  using parse_known_format_wf [of E s] by (auto simp: enc_string_from_str_def split: option.splits)

text \<open>Every text parses; the parsed value determines a text that parses to the same value.\<close>

lemma from_str_total: "enc_string_from_str E s = Ok (enc_string_from E s)"
  by (simp add: enc_string_from_str_def enc_string_from_def)

lemma from_str_stable:
  assumes "b64_lib_ok E"
  shows "enc_string_from E (enc_string_to_string E (enc_string_from E s)) = enc_string_from E s"
proof -
  have "enc_string_from_str E (enc_string_to_string E (enc_string_from E s)) = Ok (enc_string_from E s)"
    by (rule from_str_to_string [OF assms from_str_wf [OF from_str_total]])
  then show ?thesis by (simp add: from_str_total)
qed

lemma parse_strict_iff: "parse_strict E s = Ok e \<longleftrightarrow> enc_string_from E s = e \<and> enc_type e \<noteq> None"
  using parse_known_format_wf [of E s e]
  by (auto simp: parse_strict_def enc_string_from_def result_simps split: option.splits)

lemma unparseable_keeps_text:
  assumes "enc_type (enc_string_from E s) = None"
  shows "enc_string_to_string E (enc_string_from E s) = s"
proof (cases "parse_known_format E s")
  case (Some e)
  with parse_known_format_wf [OF Some] assms show ?thesis by (simp add: enc_string_from_def)
qed (simp add: enc_string_from_def)


section \<open>The byte format\<close>

lemma to_buffer_Ok_iff: "(\<exists>buf. to_buffer e = Ok buf) \<longleftrightarrow> enc_type e \<noteq> None"
  by (cases e) (simp_all add: to_buffer_def)

text \<open>The readers demand at least one byte of data behind the IV and the MAC.\<close>

lemma from_buffer_to_buffer:
  assumes "enc_string_wf E e" and "to_buffer e = Ok buf"
    and "case e of Aes256Cbc_B64 iv data \<Rightarrow> data \<noteq> []
         | Aes256Cbc_HmacSha256_B64 iv mac data \<Rightarrow> data \<noteq> [] | _ \<Rightarrow> True"
  shows "from_buffer buf = Ok e"
proof -
  have "Suc 0 \<le> length d" if "d \<noteq> []" for d :: bytes using that by (cases d) auto
  with assms show ?thesis
    by (cases e) (auto simp: to_buffer_def from_buffer_def check_length_def Let_def enc_types)
qed

lemma to_buffer_from_buffer:
  assumes "from_buffer buf = Ok e"
  shows "to_buffer e = Ok buf \<and> enc_string_wf E e"
proof -
  have split: "take m xs @ drop m xs = xs" for m and xs :: bytes by simp
  obtain t rest where buf: "buf = t # rest" using assms by (cases buf) (auto simp: from_buffer_def)
  have "take 32 (drop 16 rest) @ drop 48 rest = drop 16 rest"
    using append_take_drop_id [of 32 "drop 16 rest"] by (simp add: add.commute)
  then have "take 16 rest @ take 32 (drop 16 rest) @ drop 48 rest = rest" by simp
  with assms buf show ?thesis
    by (auto simp: from_buffer_def to_buffer_def check_length_def Let_def enc_types result_simps
          split: if_splits)
qed

section \<open>Encryption with a key\<close>

lemma decrypt_legacy_encrypted:
  assumes "crypto_lib_ok L" "length key = 64" "length iv = 16"
  shows "\<exists>mac data. encrypt_aes256_hmac L pt key iv = Ok (Aes256Cbc_HmacSha256_B64 iv mac data)
     \<and> length mac = 32
     \<and> decrypt_with_key L (Aes256Cbc_HmacSha256_B64 iv mac data) (Aes256CbcHmacKey key) = Ok pt"
proof -
  obtain mac data where e: "Aes256CbcHmacSha256_encrypt L iv pt key = (mac, data)" by fastforce
  then have "Aes256CbcHmacSha256_decrypt L iv data mac key = Ok pt"
    using legacy_decrypt_iff [OF crypto_lib_okD(7) [OF assms(1)] assms(2,3)] by simp
  moreover have "length mac = 32"
    using e crypto_lib_okD(8) [OF assms(1)]
    by (auto simp: Aes256CbcHmacSha256_encrypt_def calculate_mac_def hash_ok_def split_to_subkeys_def Let_def)
  ultimately show ?thesis
    using e by (simp add: encrypt_aes256_hmac_def decrypt_with_key_def)
qed

text \<open>
  Encryption succeeds exactly for the keys that can encrypt, and the result decrypts to the
  plaintext under the same key, except for the two formats that decryption does not know.
\<close>

lemma encrypt_with_key_Ok:
  assumes "crypto_lib_ok L" "symmetric_key_wf key" "can_encrypt key"
    and "length nonce = enc_string_nonce_size key"
  shows "\<exists>e. encrypt_with_key L pt key f nonce = Ok e \<and> enc_string_wf (lib_b64 L) e \<and> enc_type e \<noteq> None
     \<and> decrypt_with_key L e key =
         (if unreadable_format f \<and> (\<forall>k. key \<noteq> Aes256CbcHmacKey k)
          then Err (EncStringError CoseMissingContentType) else Ok pt)"
proof (cases key)
  case (Aes256CbcHmacKey k)
  then show ?thesis
    using decrypt_legacy_encrypted [OF assms(1), of k nonce pt] assms(2,4)
    by (auto simp: encrypt_with_key_def key_sizes)
next
  case (XChaCha20Poly1305Key k)
  with assms have "length (aead_enc_key k) = 32" "length nonce = 24" by (simp_all add: aead_key_wf_def)
  from xchacha_message_roundtrip [OF assms(1) this, of pt f]
  obtain bs where "encrypt_xchacha20_poly1305 L pt k f nonce = Ok bs"
    "decrypt_xchacha20_poly1305 L bs k =
       (if unreadable_format f then Err (EncStringError CoseMissingContentType) else Ok (pt, f))"
    by (auto simp: aead_key_ct_eq_def)
  with XChaCha20Poly1305Key assms(3) show ?thesis
    by (simp add: encrypt_with_key_def enc_string_encrypt_xchacha20_poly1305_def decrypt_with_key_def)
next
  case (XAes256GcmKey k)
  with assms have "length (aead_enc_key k) = 32" "length nonce = 24" by (simp_all add: aead_key_wf_def)
  from xaes_message_roundtrip [OF assms(1) this, of pt f]
  obtain bs where "encrypt_xaes256_gcm L pt k f nonce = Ok bs"
    "decrypt_xaes256_gcm L bs k =
       (if unreadable_format f then Err (EncStringError CoseMissingContentType) else Ok (pt, f))"
    by (auto simp: aead_key_ct_eq_def)
  with XAes256GcmKey assms(3) show ?thesis
    by (simp add: encrypt_with_key_def enc_string_encrypt_xaes256_gcm_def decrypt_with_key_def)
qed (use assms(3) in simp_all)

lemma encrypt_with_key_Err:
  "\<not> can_encrypt key \<Longrightarrow> \<exists>e. encrypt_with_key L pt key f nonce = Err e
     \<and> (e = KeyOperationNotSupported key_operation.Encrypt
        \<or> e = OperationNotSupported EncryptionNotImplementedForKey)"
  by (cases key) (simp_all add: encrypt_with_key_def)

lemma decrypt_with_key_operations:
  "decrypt_with_key L e (XChaCha20Poly1305Key (k\<lparr>supported_operations := ops\<rparr>)) = decrypt_with_key L e (XChaCha20Poly1305Key k)"
  "decrypt_with_key L e (XAes256GcmKey (k\<lparr>supported_operations := ops\<rparr>)) = decrypt_with_key L e (XAes256GcmKey k)"
proof -
  have fields: "aead_key_id (k\<lparr>supported_operations := ops\<rparr>) = aead_key_id k"
    "aead_enc_key (k\<lparr>supported_operations := ops\<rparr>) = aead_enc_key k" by simp_all
  have "decrypt_xchacha20_poly1305 L data (k\<lparr>supported_operations := ops\<rparr>) = decrypt_xchacha20_poly1305 L data k"
    "decrypt_xaes256_gcm L data (k\<lparr>supported_operations := ops\<rparr>) = decrypt_xaes256_gcm L data k" for data
    by (simp_all only: decrypt_xchacha20_poly1305_def decrypt_xaes256_gcm_def fields)
  then show "decrypt_with_key L e (XChaCha20Poly1305Key (k\<lparr>supported_operations := ops\<rparr>))
      = decrypt_with_key L e (XChaCha20Poly1305Key k)"
    "decrypt_with_key L e (XAes256GcmKey (k\<lparr>supported_operations := ops\<rparr>)) = decrypt_with_key L e (XAes256GcmKey k)"
    by (cases e; simp add: decrypt_with_key_def)+
qed

lemma decrypt_with_key_type:
  assumes "decrypt_with_key L e key = Ok pt"
  shows "(\<exists>iv mac data k. e = Aes256Cbc_HmacSha256_B64 iv mac data \<and> key = Aes256CbcHmacKey k)
       \<or> (\<exists>data k. e = Cose_Encrypt0_B64 data \<and> (key = XChaCha20Poly1305Key k \<or> key = XAes256GcmKey k))"
  using assms by (cases e; cases key) (simp_all add: decrypt_with_key_def)

lemma decrypt_with_key_ct_eq:
  assumes "symmetric_key_ct_eq key key'"
  shows "decrypt_with_key L e key = decrypt_with_key L e key'"
  using assms
  by (cases key; cases key'; cases e)
     (simp_all add: decrypt_with_key_def aead_key_ct_eq_def decrypt_xchacha20_poly1305_def
        decrypt_xaes256_gcm_def Let_def cong: if_cong)

text \<open>Text: UTF-8 strings come back as they went in.\<close>

lemma string_bytes_inverse: "map (\<lambda>b. char_of (unat b)) (string_bytes s) = s"
proof -
  have "unat (of_char c :: u8) = of_char c" for c :: char
  proof -
    have "(of_char c :: nat) < 256" using of_char_mod_256 [of c, where 'a = nat] by (metis mod_less_divisor zero_less_numeral)
    then show ?thesis using unat_of_nat_u8 [of "of_char c"] by (simp add: of_nat_of_char)
  qed
  then show ?thesis by (simp add: string_bytes_def comp_def)
qed

lemma decrypt_string_encrypted:
  assumes "crypto_lib_ok L" "symmetric_key_wf key" "can_encrypt key"
    and "length nonce = enc_string_nonce_size key" and "valid_utf8 (string_bytes s)"
  shows "\<exists>e. encrypt_string_with_key L s key nonce = Ok e \<and> decrypt_string_with_key L e key = Ok s"
proof -
  obtain e where "encrypt_with_key L (string_bytes s) key content_format.Utf8 nonce = Ok e"
    "decrypt_with_key L e key = Ok (string_bytes s)"
    using encrypt_with_key_Ok [OF assms(1-4), of "string_bytes s" content_format.Utf8]
    by (auto simp: unreadable_format_def)
  with assms(5) show ?thesis
    by (simp add: encrypt_string_with_key_def decrypt_string_with_key_def string_from_utf8_def
          string_bytes_inverse)
qed


section \<open>Properties\<close>

text \<open>C1: Every key that may encrypt produces an encrypted string that the same key decrypts to the
  original bytes, and that survives its text form on the way: the parsed text decrypts too.
  (The exception are COSE keys with a content format that headers do not give back.)\<close>

theorem encrypt_decrypt_through_text:
  assumes "crypto_lib_ok L" "symmetric_key_wf key" "can_encrypt key"
    and "length nonce = enc_string_nonce_size key" "\<not> unreadable_format f"
  shows "\<exists>e. encrypt_with_key L plaintext key f nonce = Ok e
     \<and> enc_string_from_str (lib_b64 L) (enc_string_to_string (lib_b64 L) e) = Ok e
     \<and> decrypt_with_key L e key = Ok plaintext"
  using encrypt_with_key_Ok [OF assms(1-4), of plaintext f] assms(5)
    from_str_to_string [OF crypto_lib_okD(1) [OF assms(1)]] by auto

theorem encrypt_decrypt_through_text_witness:
  "\<exists>e. encrypt_with_key crypto_ref [1, 2, 3] (Aes256CbcHmacKey (replicate 64 4)) content_format.OctetStream
          (replicate 16 8) = Ok e
     \<and> enc_string_from_str (lib_b64 crypto_ref) (enc_string_to_string (lib_b64 crypto_ref) e) = Ok e
     \<and> decrypt_with_key crypto_ref e (Aes256CbcHmacKey (replicate 64 4)) = Ok [1, 2, 3]"
  by (rule encrypt_decrypt_through_text [OF crypto_ref_ok])
     (simp_all add: key_sizes unreadable_format_def)



text \<open>Parsing an encrypted string never fails, and it is stable: printing the parsed value and
  parsing again gives the same value.  Values of a known type print to a text that the strict
  parser accepts; a text in no known format is kept unchanged.\<close>

theorem enc_string_text_format:
  assumes "b64_lib_ok E"
  shows "\<exists>e. enc_string_from_str E s = Ok e
     \<and> enc_string_from_str E (enc_string_to_string E e) = Ok e
     \<and> (if enc_type e = None then enc_string_to_string E e = s \<and> parse_strict E s = Err UnparseableEncString
        else parse_strict E s = Ok e \<and> parse_strict E (enc_string_to_string E e) = Ok e)"
proof -
  let ?e = "enc_string_from E s"
  have "parse_strict E s = Err UnparseableEncString" if "enc_type ?e = None"
    using that parse_known_format_wf [of E s]
    by (auto simp: parse_strict_def enc_string_from_def split: option.splits)
  then show ?thesis
    using from_str_stable [OF assms, of s] parse_strict_iff [of E s ?e]
      parse_strict_iff [of E "enc_string_to_string E ?e" ?e] unparseable_keeps_text [of E s]
    by (intro exI [of _ ?e]) (auto simp: from_str_total)
qed

theorem enc_string_text_format_witness:
  "\<exists>e. enc_string_from_str b64_ref ''0.QUJD|QUJD'' = Ok e
     \<and> enc_string_from_str b64_ref (enc_string_to_string b64_ref e) = Ok e"
  using enc_string_text_format [OF b64_ref_ok, of "''0.QUJD|QUJD''"] by blast

text \<open>The byte format is exact: a buffer that parses is the buffer that the parsed value
  writes, and a value written to a buffer parses back, unless it is a CBC value without data,
  which the reader rejects as too short.\<close>

theorem enc_string_buffer_format:
  "(from_buffer buf = Ok e \<longrightarrow> to_buffer e = Ok buf \<and> enc_string_wf E e)
   \<and> (to_buffer e' = Ok buf' \<longrightarrow> enc_string_wf E e' \<longrightarrow>
        from_buffer buf' =
          (case e' of
             Aes256Cbc_B64 iv data \<Rightarrow>
               if data = [] then Err (EncStringError (InvalidLength 18 17)) else Ok e'
           | Aes256Cbc_HmacSha256_B64 iv mac data \<Rightarrow>
               if data = [] then Err (EncStringError (InvalidLength 50 49)) else Ok e'
           | _ \<Rightarrow> Ok e'))"
proof (rule conjI; intro impI)
  show "to_buffer e = Ok buf \<and> enc_string_wf E e" if "from_buffer buf = Ok e"
    using that by (rule to_buffer_from_buffer)
next
  assume "to_buffer e' = Ok buf'" "enc_string_wf E e'"
  then show "from_buffer buf' =
          (case e' of
             Aes256Cbc_B64 iv data \<Rightarrow>
               if data = [] then Err (EncStringError (InvalidLength 18 17)) else Ok e'
           | Aes256Cbc_HmacSha256_B64 iv mac data \<Rightarrow>
               if data = [] then Err (EncStringError (InvalidLength 50 49)) else Ok e'
           | _ \<Rightarrow> Ok e')"
    using from_buffer_to_buffer [of E e' buf']
    by (cases e') (auto simp: to_buffer_def from_buffer_def check_length_def Let_def enc_types)
qed

theorem enc_string_buffer_format_witness:
  "from_buffer (7 # [1, 2]) = Ok (Cose_Encrypt0_B64 [1, 2]) \<and> to_buffer (Cose_Encrypt0_B64 [1, 2]) = Ok (7 # [1, 2])"
  using enc_string_buffer_format [of "7 # [1, 2]" "Cose_Encrypt0_B64 [1, 2]"]
  by (simp add: from_buffer_def enc_types Let_def)

end
