(* ===== verification/Master_Key.thy ===== *)
theory Master_Key
  imports Enc_String
begin

text \<open>
  Key derivation (\<open>keys/kdf.rs\<close>, \<open>store/cipher_suite.rs\<close>) and the keys that protect a user key:
  the master key (\<open>keys/master_key.rs\<close>), the PIN key (\<open>keys/pin_key.rs\<close>), the key connector key
  (\<open>keys/key_connector_key.rs\<close>), PRF keys (\<open>keys/prf.rs\<close>) and shareable keys
  (\<open>keys/shareable_key.rs\<close>).  PBKDF2 and Argon2 come from other crates and are parameters.  The
  arithmetic on \<open>u32\<close> is that of a release build, where it wraps.
\<close>


section \<open>Key derivation functions\<close>

record kdf_lib =
  lib_pbkdf2 :: "bytes \<Rightarrow> bytes \<Rightarrow> u32 \<Rightarrow> bytes"
  lib_argon2id :: "u32 \<Rightarrow> u32 \<Rightarrow> u32 \<Rightarrow> bytes \<Rightarrow> bytes \<Rightarrow> (bytes, string) result"

text \<open>Both functions are called for 32 bytes of output.\<close>

definition kdf_lib_ok :: "kdf_lib \<Rightarrow> bool" where
  "kdf_lib_ok K \<longleftrightarrow>
     (\<forall>p s n. length (lib_pbkdf2 K p s n) = 32)
     \<and> (\<forall>m i l p s bs. lib_argon2id K m i l p s = Ok bs \<longrightarrow> length bs = 32)"

definition PBKDF2_MIN_ITERATIONS :: u32 where
  "PBKDF2_MIN_ITERATIONS = 5000"

definition ARGON2ID_MIN_MEMORY :: u32 where
  "ARGON2ID_MIN_MEMORY = 16 * 1024"

definition ARGON2ID_MIN_ITERATIONS :: u32 where
  "ARGON2ID_MIN_ITERATIONS = 2"

definition ARGON2ID_MIN_PARALLELISM :: u32 where
  "ARGON2ID_MIN_PARALLELISM = 1"

text \<open>The fields of \<open>Argon2id\<close> are the iterations, the memory in MiB and the parallelism.\<close>

datatype kdf =
    PBKDF2 u32
  | Argon2id u32 u32 u32

definition default_pbkdf2 :: kdf where
  "default_pbkdf2 = PBKDF2 600000"

definition default_argon2 :: kdf where
  "default_argon2 = Argon2id 6 32 4"

definition pbkdf2 :: "kdf_lib \<Rightarrow> bytes \<Rightarrow> bytes \<Rightarrow> u32 \<Rightarrow> bytes" where
  "pbkdf2 K password salt rounds = lib_pbkdf2 K password salt rounds"

primrec derive_kdf_key ::
  "crypto_lib \<Rightarrow> kdf_lib \<Rightarrow> bytes \<Rightarrow> bytes \<Rightarrow> kdf \<Rightarrow> (bytes, crypto_error) result" where
  "derive_kdf_key L K secret salt (PBKDF2 iterations) =
     (if iterations < PBKDF2_MIN_ITERATIONS then Err InsufficientKdfParameters
      else Ok (pbkdf2 K secret salt iterations))"
| "derive_kdf_key L K secret salt (Argon2id iterations mem parallelism) =
     (let memory = mem * 1024
      in if memory < ARGON2ID_MIN_MEMORY \<or> iterations < ARGON2ID_MIN_ITERATIONS
            \<or> parallelism < ARGON2ID_MIN_PARALLELISM
         then Err InsufficientKdfParameters
         else let salt_sha = sha256 L salt
              in map_err Argon (lib_argon2id K memory iterations parallelism secret salt_sha))"

text \<open>\<open>trim\<close> and \<open>to_lowercase\<close> of \<open>str\<close>, on ASCII text.\<close>

definition char_is_whitespace :: "char \<Rightarrow> bool" where
  "char_is_whitespace c \<longleftrightarrow> (let n = of_char c :: nat in n = 32 \<or> 9 \<le> n \<and> n \<le> 13)"

definition str_trim :: "string \<Rightarrow> string" where
  "str_trim s = rev (dropWhile char_is_whitespace (rev (dropWhile char_is_whitespace s)))"

definition char_to_lowercase :: "char \<Rightarrow> char" where
  "char_to_lowercase c =
     (let n = of_char c :: nat in if 65 \<le> n \<and> n \<le> 90 then char_of (n + 32) else c)"

definition str_to_lowercase :: "string \<Rightarrow> string" where
  "str_to_lowercase s = map char_to_lowercase s"

definition kdf_derive ::
  "crypto_lib \<Rightarrow> kdf_lib \<Rightarrow> string \<Rightarrow> string \<Rightarrow> kdf \<Rightarrow> (bytes, crypto_error) result" where
  "kdf_derive L K password email k =
     derive_kdf_key L K (string_bytes password) (string_bytes (str_to_lowercase (str_trim email))) k"

definition dangerous_derive_kdf_material ::
  "crypto_lib \<Rightarrow> kdf_lib \<Rightarrow> bytes \<Rightarrow> bytes \<Rightarrow> kdf \<Rightarrow> (bytes, crypto_error) result" where
  "dangerous_derive_kdf_material L K password salt k = derive_kdf_key L K password salt k"


section \<open>Cipher suites\<close>

datatype cipher_suite = Standard | Fips

definition cipher_suite_default :: cipher_suite where
  "cipher_suite_default = Standard"

definition from_gov_mode :: "bool \<Rightarrow> cipher_suite" where
  "from_gov_mode gov_mode = (if gov_mode then Fips else Standard)"

primrec default_kdf_for_new_account :: "cipher_suite \<Rightarrow> kdf" where
  "default_kdf_for_new_account Standard = default_argon2"
| "default_kdf_for_new_account Fips = default_pbkdf2"

primrec is_kdf_compliant :: "cipher_suite \<Rightarrow> kdf \<Rightarrow> bool" where
  "is_kdf_compliant Standard k = True"
| "is_kdf_compliant Fips k = (case k of PBKDF2 _ \<Rightarrow> True | Argon2id _ _ _ \<Rightarrow> False)"


section \<open>Master keys\<close>

datatype hash_purpose = ServerAuthorization | LocalAuthorization

primrec hash_purpose_as_u32 :: "hash_purpose \<Rightarrow> u32" where
  "hash_purpose_as_u32 ServerAuthorization = 1"
| "hash_purpose_as_u32 LocalAuthorization = 2"

datatype master_key =
    KdfKey bytes
  | KeyConnectorKey bytes

primrec inner_bytes :: "master_key \<Rightarrow> bytes" where
  "inner_bytes (KdfKey key) = key"
| "inner_bytes (KeyConnectorKey key) = key"

definition master_key_generate :: "bytes \<Rightarrow> master_key" where
  "master_key_generate rng_key = KeyConnectorKey rng_key"

definition master_key_derive ::
  "crypto_lib \<Rightarrow> kdf_lib \<Rightarrow> string \<Rightarrow> string \<Rightarrow> kdf \<Rightarrow> (master_key, crypto_error) result" where
  "master_key_derive L K password email k = map_ok KdfKey (kdf_derive L K password email k)"

definition derive_master_key_hash :: "kdf_lib \<Rightarrow> master_key \<Rightarrow> bytes \<Rightarrow> hash_purpose \<Rightarrow> bytes" where
  "derive_master_key_hash K self password purpose =
     pbkdf2 K (inner_bytes self) password (hash_purpose_as_u32 purpose)"

text \<open>The two functions the master key and the PIN key share; the last argument is the IV.\<close>

definition encrypt_user_key ::
  "crypto_lib \<Rightarrow> bytes \<Rightarrow> symmetric_crypto_key \<Rightarrow> bytes \<Rightarrow> (enc_string, crypto_error) result" where
  "encrypt_user_key L master_key user_key iv =
     (let stretched_master_key = stretch_key L master_key;
          user_key_bytes = to_encoded L user_key
      in encrypt_aes256_hmac L user_key_bytes stretched_master_key iv)"

definition decrypt_user_key ::
  "crypto_lib \<Rightarrow> bytes \<Rightarrow> enc_string \<Rightarrow> (symmetric_crypto_key, crypto_error) result" where
  "decrypt_user_key L key user_key =
     and_then
       (case user_key of
          Aes256Cbc_B64 iv data \<Rightarrow>
            map_err (\<lambda>_. crypto_error.Decrypt) (Aes256Cbc_decrypt L iv data key)
        | Aes256Cbc_HmacSha256_B64 iv mac data \<Rightarrow>
            (let stretched_key = Aes256CbcHmacKey (stretch_key L key)
             in decrypt_with_key L user_key stretched_key)
        | Cose_Encrypt0_B64 data \<Rightarrow> Err (OperationNotSupported DecryptionNotImplementedForKey)
        | Unparseable raw \<Rightarrow> Err UnparseableEncString)
       (try_from_legacy_bytes L)"

definition master_key_encrypt_user_key ::
  "crypto_lib \<Rightarrow> master_key \<Rightarrow> symmetric_crypto_key \<Rightarrow> bytes \<Rightarrow> (enc_string, crypto_error) result" where
  "master_key_encrypt_user_key L self user_key iv = encrypt_user_key L (inner_bytes self) user_key iv"

definition master_key_decrypt_user_key ::
  "crypto_lib \<Rightarrow> master_key \<Rightarrow> enc_string \<Rightarrow> (symmetric_crypto_key, crypto_error) result" where
  "master_key_decrypt_user_key L self user_key = decrypt_user_key L (inner_bytes self) user_key"

text \<open>\<open>make_user_key\<close>: the random bytes are the new encryption key, MAC key and IV.\<close>

definition make_user_key ::
  "crypto_lib \<Rightarrow> master_key \<Rightarrow> bytes \<Rightarrow> bytes \<Rightarrow> bytes \<Rightarrow> (symmetric_crypto_key \<times> enc_string, crypto_error) result" where
  "make_user_key L master_key rng_enc rng_mac iv =
     (let user_key = make_aes256_cbc_hmac_key rng_enc rng_mac
      in and_then (master_key_encrypt_user_key L master_key user_key iv) (\<lambda>protected.
           Ok (user_key, protected)))"

definition master_key_to_base64 :: "crypto_lib \<Rightarrow> master_key \<Rightarrow> string" where
  "master_key_to_base64 L self = b64_to_string (lib_b64 L) (inner_bytes self)"

definition master_key_try_from_vec :: "bytes \<Rightarrow> (master_key, crypto_error) result" where
  "master_key_try_from_vec value = map_ok KdfKey (try_into_array 32 InvalidKey value)"

definition master_key_try_from_key :: "symmetric_crypto_key \<Rightarrow> (master_key, crypto_error) result" where
  "master_key_try_from_key value =
     (case value of Aes256CbcKey key \<Rightarrow> Ok (KdfKey key) | _ \<Rightarrow> Err InvalidKey)"


section \<open>PIN keys, key connector keys, PRF keys and shareable keys\<close>

datatype pin_key = PinKey (pin_key_material: bytes)

definition pin_key_derive ::
  "crypto_lib \<Rightarrow> kdf_lib \<Rightarrow> bytes \<Rightarrow> bytes \<Rightarrow> kdf \<Rightarrow> (pin_key, crypto_error) result" where
  "pin_key_derive L K password email k = map_ok PinKey (derive_kdf_key L K password email k)"

definition pin_key_encrypt_user_key ::
  "crypto_lib \<Rightarrow> pin_key \<Rightarrow> symmetric_crypto_key \<Rightarrow> bytes \<Rightarrow> (enc_string, crypto_error) result" where
  "pin_key_encrypt_user_key L self user_key iv =
     (let stretched_key = Aes256CbcHmacKey (stretch_key L (pin_key_material self))
      in encrypt_with_key L (to_encoded L user_key) stretched_key content_format.BitwardenLegacyKey iv)"

definition pin_key_decrypt_user_key ::
  "crypto_lib \<Rightarrow> pin_key \<Rightarrow> enc_string \<Rightarrow> (symmetric_crypto_key, crypto_error) result" where
  "pin_key_decrypt_user_key L self user_key = decrypt_user_key L (pin_key_material self) user_key"

definition pin_key_encrypt_string ::
  "crypto_lib \<Rightarrow> pin_key \<Rightarrow> string \<Rightarrow> bytes \<Rightarrow> (enc_string, crypto_error) result" where
  "pin_key_encrypt_string L key s iv =
     encrypt_string_with_key L s (Aes256CbcHmacKey (stretch_key L (pin_key_material key))) iv"

definition pin_key_decrypt_string ::
  "crypto_lib \<Rightarrow> pin_key \<Rightarrow> enc_string \<Rightarrow> (string, crypto_error) result" where
  "pin_key_decrypt_string L key s =
     (let stretched_key = Aes256CbcHmacKey (stretch_key L (pin_key_material key))
      in decrypt_string_with_key L s stretched_key)"

datatype key_connector_key = KeyConnectorKey (key_connector_material: bytes)

definition key_connector_encrypt_user_key ::
  "crypto_lib \<Rightarrow> key_connector_key \<Rightarrow> symmetric_crypto_key \<Rightarrow> bytes \<Rightarrow> (enc_string, crypto_error) result" where
  "key_connector_encrypt_user_key L self user_key iv =
     (let stretched_key = stretch_key L (key_connector_material self);
          user_key_bytes = to_encoded L user_key
      in encrypt_aes256_hmac L user_key_bytes stretched_key iv)"

definition key_connector_decrypt_user_key ::
  "crypto_lib \<Rightarrow> key_connector_key \<Rightarrow> enc_string \<Rightarrow> (symmetric_crypto_key, crypto_error) result" where
  "key_connector_decrypt_user_key L self user_key =
     and_then
       (case user_key of
          Aes256Cbc_B64 iv data \<Rightarrow>
            map_err (\<lambda>_. crypto_error.Decrypt) (Aes256Cbc_decrypt L iv data (key_connector_material self))
        | Aes256Cbc_HmacSha256_B64 iv mac data \<Rightarrow>
            (let stretched_key = Aes256CbcHmacKey (stretch_key L (key_connector_material self))
             in decrypt_with_key L user_key stretched_key)
        | Unparseable raw \<Rightarrow> Err UnparseableEncString
        | _ \<Rightarrow> Err (OperationNotSupported EncryptionNotImplementedForKey))
       (try_from_legacy_bytes L)"

text \<open>The argument is the field \<open>key\<close> of the response of the key connector service.\<close>

definition key_connector_try_from :: "crypto_lib \<Rightarrow> string \<Rightarrow> (key_connector_key, crypto_error) result" where
  "key_connector_try_from L s =
     and_then (map_err (\<lambda>_. InvalidKey) (b64_try_from (lib_b64 L) s)) (\<lambda>bytes.
       map_ok key_connector_key.KeyConnectorKey (try_into_array 32 InvalidKeyLen bytes))"

text \<open>\<open>None\<close> is the \<open>InvalidInputError\<close>.\<close>

definition derive_symmetric_key_from_prf :: "crypto_lib \<Rightarrow> bytes \<Rightarrow> symmetric_crypto_key option" where
  "derive_symmetric_key_from_prf L prf =
     (if length prf < 32 then None
      else let secret = take 32 prf
           in if list_all (\<lambda>b. b = 0) secret then None
              else Some (Aes256CbcHmacKey (stretch_key L secret)))"

definition derive_shareable_key :: "crypto_lib \<Rightarrow> bytes \<Rightarrow> string \<Rightarrow> string option \<Rightarrow> bytes" where
  "derive_shareable_key L secret name info =
     (let res = hmac_sha256 L (string_bytes (''bitwarden-'' @ name)) secret
      in expect (hkdf_expand L res info 64))"
text \<open>Functions that satisfy the laws, for examples.\<close>

definition kdf_ref :: kdf_lib where
  "kdf_ref = \<lparr>lib_pbkdf2 = (\<lambda>p s n. replicate 32 (of_nat (length p + length s))),
     lib_argon2id = (\<lambda>m i l p s. Ok (replicate 32 (of_nat (length p * length s))))\<rparr>"


section \<open>The contract of the protectors of a user key\<close>

lemma hkdf_expand_length:
  "crypto_lib_ok L \<Longrightarrow> 32 \<le> length prk \<Longrightarrow> n \<le> 255 * 32
   \<Longrightarrow> \<exists>bs. hkdf_expand L prk info n = Ok bs \<and> length bs = n"
  using crypto_lib_okD(8) [of L] by (auto simp: hkdf_expand_def hash_ok_def Let_def)

lemma stretch_key_length:
  assumes "crypto_lib_ok L" "length key = 32"
  shows "length (stretch_key L key) = 64"
proof -
  obtain e where "hkdf_expand L key (Some ''enc'') 32 = Ok e" "length e = 32"
    using hkdf_expand_length [OF assms(1), of key 32 "Some ''enc''"] assms(2) by auto
  moreover obtain m where "hkdf_expand L key (Some ''mac'') 32 = Ok m" "length m = 32"
    using hkdf_expand_length [OF assms(1), of key 32 "Some ''mac''"] assms(2) by auto
  ultimately show ?thesis by (simp add: stretch_key_def Aes256CbcHmacKey_new_def)
qed

lemma derive_shareable_key_length:
  assumes "crypto_lib_ok L"
  shows "length (derive_shareable_key L secret name info) = 64"
proof -
  have "length (hmac_sha256 L (string_bytes (''bitwarden-'' @ name)) secret) = 32"
    using crypto_lib_okD(8) [OF assms] by (simp add: hash_ok_def)
  then obtain bs where
    "hkdf_expand L (hmac_sha256 L (string_bytes (''bitwarden-'' @ name)) secret) info 64 = Ok bs"
    "length bs = 64"
    using hkdf_expand_length [OF assms,
      of "hmac_sha256 L (string_bytes (''bitwarden-'' @ name)) secret" 64 info] by auto
  then show ?thesis by (simp add: derive_shareable_key_def Let_def)
qed

text \<open>
  A protector has 32 secret bytes.  It writes a user key under the stretched secret, and reads
  what any protector with the same secret wrote.
\<close>

locale user_key_protector =
  fixes secret :: "'k \<Rightarrow> bytes"
    and protect :: "crypto_lib \<Rightarrow> 'k \<Rightarrow> symmetric_crypto_key \<Rightarrow> bytes \<Rightarrow> (enc_string, crypto_error) result"
    and recover :: "crypto_lib \<Rightarrow> 'k \<Rightarrow> enc_string \<Rightarrow> (symmetric_crypto_key, crypto_error) result"
  assumes protect_stretched:
    "protect L k uk iv = encrypt_aes256_hmac L (to_encoded L uk) (stretch_key L (secret k)) iv"
    and recover_authenticated:
    "recover L k (Aes256Cbc_HmacSha256_B64 iv mac data) =
       and_then (decrypt_with_key L (Aes256Cbc_HmacSha256_B64 iv mac data)
         (Aes256CbcHmacKey (stretch_key L (secret k)))) (try_from_legacy_bytes L)"
    and recover_unparseable: "recover L k (Unparseable raw) = Err UnparseableEncString"
    and recover_cose: "\<exists>e. recover L k (Cose_Encrypt0_B64 data) = Err (OperationNotSupported e)"
begin

lemma protect_recover_shared:
  assumes "crypto_lib_ok L" "length (secret k) = 32" "secret k' = secret k"
    and "symmetric_key_wf uk" "length iv = 16"
  shows "\<exists>e. protect L k uk iv = Ok e \<and> enc_type e = Some AES256_CBC_HMAC_TYPE
     \<and> recover L k' e = Ok (normalize_ops uk)"
proof -
  define w where "w = Aes256CbcHmacKey (stretch_key L (secret k))"
  have len: "length (stretch_key L (secret k)) = 64" by (rule stretch_key_length [OF assms(1,2)])
  obtain e where e: "encrypt_aes256_hmac L (to_encoded L uk) (stretch_key L (secret k)) iv = Ok e"
    "decrypt_with_key L e w = Ok (to_encoded L uk)"
    using decrypt_legacy_encrypted [OF assms(1) len assms(5), of "to_encoded L uk"]
    by (auto simp: w_def)
  then obtain mac data where e': "e = Aes256Cbc_HmacSha256_B64 iv mac data"
    by (auto simp: encrypt_aes256_hmac_def split: prod.splits)
  then have "recover L k' e = and_then (decrypt_with_key L e w) (try_from_legacy_bytes L)"
    using recover_authenticated [of L k' iv mac data] assms(3) by (simp add: w_def)
  also have "\<dots> = Ok (normalize_ops uk)"
    using try_from_legacy_to_encoded [OF assms(1,4)] by (simp add: e(2) result_simps)
  finally show ?thesis using e(1) e' by (simp add: protect_stretched)
qed

end

interpretation master: user_key_protector inner_bytes master_key_encrypt_user_key master_key_decrypt_user_key
  by unfold_locales
    (simp_all add: master_key_encrypt_user_key_def master_key_decrypt_user_key_def
      encrypt_user_key_def decrypt_user_key_def Let_def result_simps)

interpretation pin: user_key_protector pin_key_material pin_key_encrypt_user_key pin_key_decrypt_user_key
  by unfold_locales
    (simp_all add: pin_key_encrypt_user_key_def pin_key_decrypt_user_key_def encrypt_with_key_def
      decrypt_user_key_def Let_def result_simps)

interpretation connector: user_key_protector key_connector_material
  key_connector_encrypt_user_key key_connector_decrypt_user_key
  by unfold_locales
    (simp_all add: key_connector_encrypt_user_key_def key_connector_decrypt_user_key_def
      Let_def result_simps)

text \<open>The protectors decrypt with the shared function, except for the error of COSE strings.\<close>

lemma protectors_agree:
  "key_connector_decrypt_user_key L (key_connector_key.KeyConnectorKey s) e =
     (case e of Cose_Encrypt0_B64 d \<Rightarrow> Err (OperationNotSupported EncryptionNotImplementedForKey)
      | _ \<Rightarrow> decrypt_user_key L s e)"
  by (cases e) (simp_all add: key_connector_decrypt_user_key_def decrypt_user_key_def result_simps)

lemma argon2_memory_mult: "((m :: u32) + 2 ^ 22) * 1024 = m * 1024"
proof -
  have "(2 :: u32) ^ 22 * 1024 = 0" by simp
  then show ?thesis by (simp only: distrib_right add_0_right)
qed

lemma derive_kdf_key_length:
  "crypto_lib_ok L \<Longrightarrow> kdf_lib_ok K \<Longrightarrow> derive_kdf_key L K s salt k = Ok bs \<Longrightarrow> length bs = 32"
  by (cases k) (auto simp: kdf_lib_ok_def pbkdf2_def Let_def result_simps split: if_splits)


section \<open>Properties\<close>

text \<open>C34: A user key that a master key, a PIN key or a key connector key protects is recovered by
  each of them that has the same 32 secret bytes; its operations come back in registry order.\<close>

theorem user_key_protection_roundtrip:
  assumes "crypto_lib_ok L" "length s = 32" "symmetric_key_wf uk" "length iv = 16"
  shows "\<exists>e. master_key_encrypt_user_key L (KdfKey s) uk iv = Ok e
     \<and> pin_key_encrypt_user_key L (PinKey s) uk iv = Ok e
     \<and> key_connector_encrypt_user_key L (key_connector_key.KeyConnectorKey s) uk iv = Ok e
     \<and> master_key_decrypt_user_key L (KdfKey s) e = Ok (normalize_ops uk)
     \<and> pin_key_decrypt_user_key L (PinKey s) e = Ok (normalize_ops uk)
     \<and> key_connector_decrypt_user_key L (key_connector_key.KeyConnectorKey s) e = Ok (normalize_ops uk)"
proof -
  obtain e where e: "master_key_encrypt_user_key L (KdfKey s) uk iv = Ok e"
    "master_key_decrypt_user_key L (KdfKey s) e = Ok (normalize_ops uk)"
    using master.protect_recover_shared [OF assms(1) _ _ assms(3,4), of "KdfKey s" "KdfKey s"] assms(2)
    by auto
  moreover obtain e' where e': "pin_key_encrypt_user_key L (PinKey s) uk iv = Ok e'"
    "pin_key_decrypt_user_key L (PinKey s) e' = Ok (normalize_ops uk)"
    using pin.protect_recover_shared [OF assms(1) _ _ assms(3,4), of "PinKey s" "PinKey s"] assms(2)
    by auto
  moreover obtain e'' where e'':
    "key_connector_encrypt_user_key L (key_connector_key.KeyConnectorKey s) uk iv = Ok e''"
    "key_connector_decrypt_user_key L (key_connector_key.KeyConnectorKey s) e'' = Ok (normalize_ops uk)"
    using connector.protect_recover_shared [OF assms(1) _ _ assms(3,4),
      of "key_connector_key.KeyConnectorKey s" "key_connector_key.KeyConnectorKey s"] assms(2)
    by auto
  moreover have "e' = e" "e'' = e"
    using e(1) e'(1) e''(1)
    by (simp_all add: master.protect_stretched pin.protect_stretched connector.protect_stretched)
  ultimately show ?thesis by blast
qed

theorem user_key_protection_roundtrip_witness:
  "\<exists>e. master_key_encrypt_user_key crypto_ref (KdfKey (replicate 32 1))
           (Aes256CbcHmacKey (replicate 64 2)) (replicate 16 3) = Ok e
     \<and> pin_key_decrypt_user_key crypto_ref (PinKey (replicate 32 1)) e
         = Ok (Aes256CbcHmacKey (replicate 64 2))"
  using user_key_protection_roundtrip [OF crypto_ref_ok, of "replicate 32 1"
      "Aes256CbcHmacKey (replicate 64 2)" "replicate 16 3"]
  by (auto simp: key_sizes)

text \<open>Key derivation fails for insufficient parameters exactly when a parameter is below its
  minimum, the memory being the 32-bit product of MiB and 1024; otherwise it calls the function
  with the given parameters, and what it derives is 32 bytes long.\<close>

theorem kdf_minimums_enforced:
  assumes "crypto_lib_ok L" "kdf_lib_ok K"
  shows "(derive_kdf_key L K secret salt (PBKDF2 n) = Err InsufficientKdfParameters \<longleftrightarrow> unat n < 5000)
     \<and> (derive_kdf_key L K secret salt (Argon2id i m p) = Err InsufficientKdfParameters \<longleftrightarrow>
          unat m * 1024 mod 2 ^ 32 < 16384 \<or> unat i < 2 \<or> unat p < 1)
     \<and> (derive_kdf_key L K secret salt k = Ok bs \<longrightarrow> length bs = 32)"
proof -
  have "unat (m * 1024) = unat m * 1024 mod 2 ^ 32"
    by (simp add: unat_word_ariths)
  then have "m * 1024 < ARGON2ID_MIN_MEMORY \<longleftrightarrow> unat m * 1024 mod 2 ^ 32 < 16384"
    by (simp add: word_less_nat_alt ARGON2ID_MIN_MEMORY_def)
  then show ?thesis
    using derive_kdf_key_length [OF assms, of secret salt k bs]
    by (auto simp: word_less_nat_alt PBKDF2_MIN_ITERATIONS_def ARGON2ID_MIN_ITERATIONS_def
        ARGON2ID_MIN_PARALLELISM_def Let_def result_simps)
qed

theorem kdf_minimums_enforced_witness:
  "derive_kdf_key crypto_ref kdf_ref [] [] (PBKDF2 4999) = Err InsufficientKdfParameters
   \<and> derive_kdf_key crypto_ref kdf_ref [] [] (Argon2id 2 15 1) = Err InsufficientKdfParameters
   \<and> derive_kdf_key crypto_ref kdf_ref [] [] (Argon2id 2 16 1) \<noteq> Err InsufficientKdfParameters"
proof -
  have "kdf_lib_ok kdf_ref" by (simp add: kdf_lib_ok_def kdf_ref_def)
  from kdf_minimums_enforced [OF crypto_ref_ok this, of "[]" "[]" 4999]
    kdf_minimums_enforced [OF crypto_ref_ok this, of "[]" "[]" 0 2 15 1]
    kdf_minimums_enforced [OF crypto_ref_ok this, of "[]" "[]" 0 2 16 1]
  show ?thesis by simp
qed


text \<open>The default KDF of a cipher suite is allowed under that suite and meets the minimums of the
  derivation; under the FIPS suite it is PBKDF2, which is all that suite allows.\<close>

theorem default_kdf_is_usable:
  "is_kdf_compliant suite (default_kdf_for_new_account suite)
   \<and> derive_kdf_key L K secret salt (default_kdf_for_new_account suite) \<noteq> Err InsufficientKdfParameters
   \<and> (is_kdf_compliant Fips k \<longleftrightarrow> (\<exists>n. k = PBKDF2 n))"
  by (cases suite; cases k)
    (simp_all add: default_argon2_def default_pbkdf2_def PBKDF2_MIN_ITERATIONS_def Let_def result_simps
      ARGON2ID_MIN_MEMORY_def ARGON2ID_MIN_ITERATIONS_def ARGON2ID_MIN_PARALLELISM_def)

end
