(* ===== verification/Shared_Key.thy ===== *)
theory Shared_Key
  imports Master_Key
begin

text \<open>
  Public-key encryption: key pairs (\<open>keys/public_key_encryption.rs\<close>, \<open>rsa.rs\<close>), keys shared by
  encapsulation (\<open>UnsignedSharedKey\<close> of \<open>enc_string/asymmetric.rs\<close>) and the trusted device keys
  of \<open>keys/device_key.rs\<close>.  The crate \<open>rsa\<close> is a parameter; its key types are type variables.
\<close>


section \<open>The external RSA functions\<close>

datatype oaep_digest = OaepSha1 | OaepSha256

record ('pub, 'priv) rsa_lib =
  rsa_to_public_key :: "'priv \<Rightarrow> 'pub"
  rsa_modulus_len :: "'pub \<Rightarrow> nat"
  rsa_to_public_key_der :: "'pub \<Rightarrow> bytes option"
  rsa_from_public_key_der :: "bytes \<Rightarrow> 'pub option"
  rsa_to_pkcs8_der :: "'priv \<Rightarrow> bytes option"
  rsa_from_pkcs8_der :: "bytes \<Rightarrow> 'priv option"
  rsa_from_pkcs8_pem :: "string \<Rightarrow> 'priv option"
  rsa_encrypt_oaep_sha1 :: "bytes \<Rightarrow> 'pub \<Rightarrow> bytes \<Rightarrow> (bytes, string) result"
  rsa_decrypt_oaep :: "oaep_digest \<Rightarrow> 'priv \<Rightarrow> bytes \<Rightarrow> bytes option"

text \<open>
  Encoded keys decode to themselves.  OAEP with SHA-1 takes messages of up to 42 bytes less than
  the modulus, and decryption with the matching private key and digest inverts it.
\<close>

definition rsa_lib_ok :: "('pub, 'priv) rsa_lib \<Rightarrow> bool" where
  "rsa_lib_ok R \<longleftrightarrow>
     (\<forall>k d. rsa_to_public_key_der R k = Some d \<longrightarrow> rsa_from_public_key_der R d = Some k)
     \<and> (\<forall>k d. rsa_to_pkcs8_der R k = Some d \<longrightarrow> rsa_from_pkcs8_der R d = Some k)
     \<and> (\<forall>rng k m. length m + 42 \<le> rsa_modulus_len R k \<longrightarrow> is_ok (rsa_encrypt_oaep_sha1 R rng k m))
     \<and> (\<forall>rng k m c. rsa_encrypt_oaep_sha1 R rng (rsa_to_public_key R k) m = Ok c
          \<longrightarrow> rsa_decrypt_oaep R OaepSha1 k c = Some m)"


section \<open>Key pairs\<close>

datatype 'pub public_key = RsaOaepSha1 'pub

datatype 'priv private_key = RsaOaepSha1 'priv

definition public_key_from_der :: "('pub, 'priv) rsa_lib \<Rightarrow> bytes \<Rightarrow> ('pub public_key, crypto_error) result" where
  "public_key_from_der R der = map_ok public_key.RsaOaepSha1 (ok_or InvalidKey (rsa_from_public_key_der R der))"

primrec public_key_to_der :: "('pub, 'priv) rsa_lib \<Rightarrow> 'pub public_key \<Rightarrow> (bytes, crypto_error) result" where
  "public_key_to_der R (public_key.RsaOaepSha1 public_key) = ok_or InvalidKey (rsa_to_public_key_der R public_key)"

definition public_key_from_str ::
  "crypto_lib \<Rightarrow> ('pub, 'priv) rsa_lib \<Rightarrow> string \<Rightarrow> ('pub public_key, unit) result" where
  "public_key_from_str L R s =
     and_then (map_err (\<lambda>_. ()) (b64_try_from (lib_b64 L) s)) (\<lambda>bytes.
       map_err (\<lambda>_. ()) (public_key_from_der R bytes))"

definition public_key_to_string :: "crypto_lib \<Rightarrow> ('pub, 'priv) rsa_lib \<Rightarrow> 'pub public_key \<Rightarrow> string" where
  "public_key_to_string L R self =
     (case public_key_to_der R self of
        Ok der \<Rightarrow> b64_to_string (lib_b64 L) der
      | Err _ \<Rightarrow> ''[INVALID PUBLIC KEY]'')"

definition private_key_from_pem :: "('pub, 'priv) rsa_lib \<Rightarrow> string \<Rightarrow> ('priv private_key, crypto_error) result" where
  "private_key_from_pem R pem = map_ok private_key.RsaOaepSha1 (ok_or InvalidKey (rsa_from_pkcs8_pem R pem))"

definition private_key_from_der :: "('pub, 'priv) rsa_lib \<Rightarrow> bytes \<Rightarrow> ('priv private_key, crypto_error) result" where
  "private_key_from_der R der = map_ok private_key.RsaOaepSha1 (ok_or InvalidKey (rsa_from_pkcs8_der R der))"

primrec private_key_to_der :: "('pub, 'priv) rsa_lib \<Rightarrow> 'priv private_key \<Rightarrow> (bytes, crypto_error) result" where
  "private_key_to_der R (private_key.RsaOaepSha1 private_key) = ok_or InvalidKey (rsa_to_pkcs8_der R private_key)"

primrec to_public_key :: "('pub, 'priv) rsa_lib \<Rightarrow> 'priv private_key \<Rightarrow> 'pub public_key" where
  "to_public_key R (private_key.RsaOaepSha1 private_key) = public_key.RsaOaepSha1 (rsa_to_public_key R private_key)"

text \<open>\<open>make_key_pair\<close>: the key that was generated and the IV are arguments.\<close>

record rsa_key_pair =
  key_pair_public :: bytes
  key_pair_private :: enc_string

definition make_key_pair ::
  "crypto_lib \<Rightarrow> ('pub, 'priv) rsa_lib \<Rightarrow> symmetric_crypto_key \<Rightarrow> 'priv \<Rightarrow> bytes \<Rightarrow> (rsa_key_pair, crypto_error) result" where
  "make_key_pair L R key priv_key iv =
     (let pub_key = rsa_to_public_key R priv_key
      in and_then (ok_or (RsaErr CreatePublicKey) (rsa_to_public_key_der R pub_key)) (\<lambda>spki.
         and_then (ok_or (RsaErr CreatePrivateKey) (rsa_to_pkcs8_der R priv_key)) (\<lambda>pkcs.
         and_then
           (case key of
              Aes256CbcHmacKey key \<Rightarrow> encrypt_aes256_hmac L pkcs key iv
            | XChaCha20Poly1305Key _ \<Rightarrow> Err (OperationNotSupported EncryptionNotImplementedForKey)
            | Aes256CbcKey _ \<Rightarrow> Err (OperationNotSupported EncryptionNotImplementedForKey)
            | Aes256GcmKey _ \<Rightarrow> Err (OperationNotSupported EncryptionNotImplementedForKey)
            | XAes256GcmKey _ \<Rightarrow> Err (OperationNotSupported EncryptionNotImplementedForKey)) (\<lambda>protected.
         Ok \<lparr>key_pair_public = spki, key_pair_private = protected\<rparr>))))"

definition encrypt_rsa2048_oaep_sha1 ::
  "('pub, 'priv) rsa_lib \<Rightarrow> bytes \<Rightarrow> 'pub \<Rightarrow> bytes \<Rightarrow> (bytes, crypto_error) result" where
  "encrypt_rsa2048_oaep_sha1 R rng public_key data =
     map_err (\<lambda>e. RsaErr (RsaLibrary e)) (rsa_encrypt_oaep_sha1 R rng public_key data)"


section \<open>Shared keys\<close>

datatype unsigned_shared_key =
    Rsa2048_OaepSha256_B64 bytes
  | Rsa2048_OaepSha1_B64 bytes
  | Rsa2048_OaepSha256_HmacSha256_B64 bytes bytes
  | Rsa2048_OaepSha1_HmacSha256_B64 bytes bytes

primrec shared_key_enc_type :: "unsigned_shared_key \<Rightarrow> u8" where
  "shared_key_enc_type (Rsa2048_OaepSha256_B64 d) = 3"
| "shared_key_enc_type (Rsa2048_OaepSha1_B64 d) = 4"
| "shared_key_enc_type (Rsa2048_OaepSha256_HmacSha256_B64 d m) = 5"
| "shared_key_enc_type (Rsa2048_OaepSha1_HmacSha256_B64 d m) = 6"

primrec shared_key_parts :: "unsigned_shared_key \<Rightarrow> bytes list" where
  "shared_key_parts (Rsa2048_OaepSha256_B64 d) = [d]"
| "shared_key_parts (Rsa2048_OaepSha1_B64 d) = [d]"
| "shared_key_parts (Rsa2048_OaepSha256_HmacSha256_B64 d m) = [d, m]"
| "shared_key_parts (Rsa2048_OaepSha1_HmacSha256_B64 d m) = [d, m]"

definition shared_key_from_str :: "b64_lib \<Rightarrow> string \<Rightarrow> (unsigned_shared_key, crypto_error) result" where
  "shared_key_from_str E s =
     (let (ty, parts) = split_enc_string s
      in if ty = ''3'' \<and> length parts = 1 then map_ok Rsa2048_OaepSha256_B64 (from_b64_vec E (parts ! 0))
         else if ty = ''4'' \<and> length parts = 1 then map_ok Rsa2048_OaepSha1_B64 (from_b64_vec E (parts ! 0))
         else if ty = ''5'' \<and> length parts = 2 then
           and_then (from_b64_vec E (parts ! 0)) (\<lambda>data.
           and_then (from_b64_vec E (parts ! 1)) (\<lambda>mac.
             Ok (Rsa2048_OaepSha256_HmacSha256_B64 data mac)))
         else if ty = ''6'' \<and> length parts = 2 then
           and_then (from_b64_vec E (parts ! 0)) (\<lambda>data.
           and_then (from_b64_vec E (parts ! 1)) (\<lambda>mac.
             Ok (Rsa2048_OaepSha1_HmacSha256_B64 data mac)))
         else Err (EncStringError (InvalidTypeAsymm ty (length parts))))"

definition shared_key_to_string :: "b64_lib \<Rightarrow> unsigned_shared_key \<Rightarrow> string" where
  "shared_key_to_string E self = fmt_parts E (shared_key_enc_type self) (shared_key_parts self)"

primrec encapsulate_key_unsigned ::
  "crypto_lib \<Rightarrow> ('pub, 'priv) rsa_lib \<Rightarrow> bytes \<Rightarrow> symmetric_crypto_key \<Rightarrow> 'pub public_key
   \<Rightarrow> (unsigned_shared_key, crypto_error) result" where
  "encapsulate_key_unsigned L R rng encapsulated_key (public_key.RsaOaepSha1 rsa_public_key) =
     map_ok Rsa2048_OaepSha1_B64
       (encrypt_rsa2048_oaep_sha1 R rng rsa_public_key (to_encoded L encapsulated_key))"

primrec decapsulate_key_unsigned ::
  "crypto_lib \<Rightarrow> ('pub, 'priv) rsa_lib \<Rightarrow> unsigned_shared_key \<Rightarrow> 'priv private_key
   \<Rightarrow> (symmetric_crypto_key, crypto_error) result" where
  "decapsulate_key_unsigned L R self (private_key.RsaOaepSha1 rsa_private_key) =
     and_then (ok_or KeyDecrypt
       (case self of
          Rsa2048_OaepSha256_B64 data \<Rightarrow> rsa_decrypt_oaep R OaepSha256 rsa_private_key data
        | Rsa2048_OaepSha1_B64 data \<Rightarrow> rsa_decrypt_oaep R OaepSha1 rsa_private_key data
        | Rsa2048_OaepSha256_HmacSha256_B64 data _ \<Rightarrow> rsa_decrypt_oaep R OaepSha256 rsa_private_key data
        | Rsa2048_OaepSha1_HmacSha256_B64 data _ \<Rightarrow> rsa_decrypt_oaep R OaepSha1 rsa_private_key data))
     (try_from_legacy_bytes L)"


section \<open>Device keys\<close>

datatype device_key = DeviceKey symmetric_crypto_key

record trust_device_response =
  trusted_device_key :: bytes
  protected_user_key :: unsigned_shared_key
  protected_device_private_key :: enc_string
  protected_device_public_key :: enc_string

text \<open>The random choices of \<open>trust_device\<close>.\<close>

record 'priv trust_device_rng =
  rng_device_enc :: bytes
  rng_device_mac :: bytes
  rng_private_key :: 'priv
  rng_oaep :: bytes
  rng_public_nonce :: bytes
  rng_private_iv :: bytes

primrec device_key_to_base64 :: "crypto_lib \<Rightarrow> device_key \<Rightarrow> bytes" where
  "device_key_to_base64 L (DeviceKey key) = to_encoded L key"

definition trust_device ::
  "crypto_lib \<Rightarrow> ('pub, 'priv) rsa_lib \<Rightarrow> 'priv trust_device_rng \<Rightarrow> symmetric_crypto_key
   \<Rightarrow> (trust_device_response, crypto_error) result" where
  "trust_device L R rng user_key =
     (let device_key = make_aes256_cbc_hmac_key (rng_device_enc rng) (rng_device_mac rng);
          device_private_key = private_key.RsaOaepSha1 (rng_private_key rng)
      in and_then (encapsulate_key_unsigned L R (rng_oaep rng) user_key (to_public_key R device_private_key)) (\<lambda>protected_user_key.
         and_then (public_key_to_der R (to_public_key R device_private_key)) (\<lambda>public_der.
         and_then (encrypt_with_key L public_der user_key content_format.SPKIPublicKeyDer (rng_public_nonce rng)) (\<lambda>protected_public.
         and_then (private_key_to_der R device_private_key) (\<lambda>private_der.
         and_then (encrypt_with_key L private_der device_key content_format.Pkcs8PrivateKey (rng_private_iv rng)) (\<lambda>protected_private.
         Ok \<lparr>trusted_device_key = device_key_to_base64 L (DeviceKey device_key),
             protected_user_key = protected_user_key,
             protected_device_private_key = protected_private,
             protected_device_public_key = protected_public\<rparr>))))))"

primrec device_decrypt_user_key ::
  "crypto_lib \<Rightarrow> ('pub, 'priv) rsa_lib \<Rightarrow> device_key \<Rightarrow> enc_string \<Rightarrow> unsigned_shared_key
   \<Rightarrow> (symmetric_crypto_key, crypto_error) result" where
  "device_decrypt_user_key L R (DeviceKey key) protected_private protected_user =
     and_then (decrypt_with_key L protected_private key) (\<lambda>device_private_key.
     and_then (private_key_from_der R device_private_key) (\<lambda>device_private_key.
       decapsulate_key_unsigned L R protected_user device_private_key))"

definition device_key_try_from :: "crypto_lib \<Rightarrow> string \<Rightarrow> (device_key, crypto_error) result" where
  "device_key_try_from L value = map_ok DeviceKey (symmetric_key_from_string L value)"

text \<open>Functions that satisfy the laws, for examples: keys are single bytes.\<close>

definition rsa_ref :: "(u8, u8) rsa_lib" where
  "rsa_ref = \<lparr>rsa_to_public_key = (\<lambda>k. k), rsa_modulus_len = (\<lambda>k. 256),
     rsa_to_public_key_der = (\<lambda>k. Some [k]),
     rsa_from_public_key_der = (\<lambda>d. case d of [k] \<Rightarrow> Some k | _ \<Rightarrow> None),
     rsa_to_pkcs8_der = (\<lambda>k. Some [0, k]),
     rsa_from_pkcs8_der = (\<lambda>d. case d of [z, k] \<Rightarrow> if z = 0 then Some k else None | _ \<Rightarrow> None),
     rsa_from_pkcs8_pem = (\<lambda>s. None),
     rsa_encrypt_oaep_sha1 = (\<lambda>rng k m. if length m + 42 \<le> 256 then Ok (k # m) else Err ''message too long''),
     rsa_decrypt_oaep = (\<lambda>h k c. case c of [] \<Rightarrow> None | b # m \<Rightarrow> if b = k \<and> h = OaepSha1 then Some m else None)\<rparr>"


section \<open>Lemmas\<close>

lemma rsa_ref_ok: "rsa_lib_ok rsa_ref"
  by (auto simp: rsa_lib_ok_def rsa_ref_def is_ok_def split: if_splits)

lemma rsa_lib_okD:
  assumes "rsa_lib_ok R"
  shows "rsa_to_public_key_der R pub = Some d \<Longrightarrow> rsa_from_public_key_der R d = Some pub"
    and "rsa_to_pkcs8_der R priv = Some d \<Longrightarrow> rsa_from_pkcs8_der R d = Some priv"
    and "length m + 42 \<le> rsa_modulus_len R pub \<Longrightarrow> \<exists>c. rsa_encrypt_oaep_sha1 R rng pub m = Ok c"
    and "rsa_encrypt_oaep_sha1 R rng (rsa_to_public_key R priv) m = Ok c
      \<Longrightarrow> rsa_decrypt_oaep R OaepSha1 priv c = Some m"
  using assms by (auto simp: rsa_lib_ok_def is_ok_iff)

lemma der_roundtrips:
  assumes "rsa_lib_ok R"
  shows "public_key_to_der R pub = Ok d \<Longrightarrow> public_key_from_der R d = Ok pub"
    and "private_key_to_der R priv = Ok d \<Longrightarrow> private_key_from_der R d = Ok priv"
  using rsa_lib_okD(1,2) [OF assms]
  by (cases pub; cases priv; auto simp: public_key_from_der_def private_key_from_der_def result_simps)+

lemma shared_key_show:
  assumes "b64_lib_ok E"
  shows "split_enc_string (shared_key_to_string E k)
     = (string_of_nat (unat (shared_key_enc_type k)), map (b64_to_string E) (shared_key_parts k))"
  unfolding shared_key_to_string_def
  by (rule split_fmt_parts [OF assms]; cases k; simp)

lemma encapsulate_Ok:
  assumes "rsa_lib_ok R" and "length (to_encoded L key) + 42 \<le> rsa_modulus_len R (rsa_to_public_key R k)"
  shows "\<exists>e. encapsulate_key_unsigned L R rng key (to_public_key R (private_key.RsaOaepSha1 k)) = Ok e"
  using rsa_lib_okD(3) [OF assms(1,2), of rng] by (auto simp: encrypt_rsa2048_oaep_sha1_def)

lemma decapsulate_encapsulated:
  assumes "crypto_lib_ok L" "rsa_lib_ok R" "symmetric_key_wf key"
    and "encapsulate_key_unsigned L R rng key (to_public_key R priv) = Ok e"
  shows "decapsulate_key_unsigned L R e priv = Ok (normalize_ops key)"
proof (cases priv)
  case (RsaOaepSha1 k)
  with assms(4) obtain c where "e = Rsa2048_OaepSha1_B64 c"
    "rsa_encrypt_oaep_sha1 R rng (rsa_to_public_key R k) (to_encoded L key) = Ok c"
    by (auto simp: encrypt_rsa2048_oaep_sha1_def result_simps)
  with RsaOaepSha1 rsa_lib_okD(4) [OF assms(2)] show ?thesis
    by (simp add: try_from_legacy_to_encoded [OF assms(1,3)])
qed

lemma string_of_shared_key_types [simp]:
  "string_of_nat 3 = ''3''" "string_of_nat 4 = ''4''" "string_of_nat 5 = ''5''" "string_of_nat 6 = ''6''"
  by (simp_all add: string_of_nat_small digit_char_def char_of_def bit_0)


section \<open>Properties\<close>

text \<open>A symmetric key that fits into the modulus can be encapsulated for a public key; the shared
  key survives its text form, and the owner of the private key decapsulates the same key from it.\<close>

theorem shared_key_roundtrip:
  assumes "crypto_lib_ok L" "rsa_lib_ok R" "symmetric_key_wf key"
    and "length (to_encoded L key) + 42 \<le> rsa_modulus_len R (rsa_to_public_key R k)"
  shows "\<exists>e. encapsulate_key_unsigned L R rng key (to_public_key R (private_key.RsaOaepSha1 k)) = Ok e
     \<and> shared_key_from_str (lib_b64 L) (shared_key_to_string (lib_b64 L) e) = Ok e
     \<and> decapsulate_key_unsigned L R e (private_key.RsaOaepSha1 k) = Ok (normalize_ops key)"
proof -
  have E: "b64_lib_ok (lib_b64 L)" by (rule crypto_lib_okD(1) [OF assms(1)])
  have "shared_key_from_str (lib_b64 L) (shared_key_to_string (lib_b64 L) e) = Ok e" for e
    by (cases e) (simp_all add: shared_key_from_str_def shared_key_show [OF E] from_b64_vec_show [OF E])
  then show ?thesis
    using encapsulate_Ok [OF assms(2,4), of rng] decapsulate_encapsulated [OF assms(1-3)] by blast
qed

theorem shared_key_roundtrip_witness:
  "\<exists>e. encapsulate_key_unsigned crypto_ref rsa_ref [] (Aes256CbcHmacKey (replicate 64 2))
         (public_key.RsaOaepSha1 7) = Ok e
     \<and> decapsulate_key_unsigned crypto_ref rsa_ref e (private_key.RsaOaepSha1 7)
         = Ok (Aes256CbcHmacKey (replicate 64 2))"
proof -
  have [simp]: "rsa_modulus_len rsa_ref k = 256" "rsa_to_public_key rsa_ref k = k" for k
    by (simp_all add: rsa_ref_def)
  show ?thesis
    using shared_key_roundtrip [OF crypto_ref_ok rsa_ref_ok, of "Aes256CbcHmacKey (replicate 64 2)" 7 "[]"]
    by (auto simp: key_sizes to_encoded_def)
qed

text \<open>Trusting a device with a user key that may encrypt succeeds, and the device key of the
  response, in its Base64 form, recovers the user key from the two protected values; the user key
  decrypts the public key of the device.\<close>

theorem device_trust_roundtrip:
  assumes "crypto_lib_ok L" "rsa_lib_ok R" "symmetric_key_wf uk" "can_encrypt uk"
    and "length (rng_device_enc rng) = 32" "length (rng_device_mac rng) = 32"
    and "length (rng_public_nonce rng) = enc_string_nonce_size uk" "length (rng_private_iv rng) = 16"
    and "length (to_encoded L uk) + 42 \<le> rsa_modulus_len R (rsa_to_public_key R (rng_private_key rng))"
    and "rsa_to_public_key_der R (rsa_to_public_key R (rng_private_key rng)) = Some public_der"
    and "rsa_to_pkcs8_der R (rng_private_key rng) = Some private_der"
  shows "\<exists>r dk. trust_device L R rng uk = Ok r
     \<and> device_key_try_from L (b64_to_string (lib_b64 L) (trusted_device_key r)) = Ok dk
     \<and> device_decrypt_user_key L R dk (protected_device_private_key r) (protected_user_key r)
         = Ok (normalize_ops uk)
     \<and> decrypt_with_key L (protected_device_public_key r) uk = Ok public_der"
proof -
  define dk where "dk = Aes256CbcHmacKey (rng_device_enc rng @ rng_device_mac rng)"
  have dk: "symmetric_key_wf dk" "can_encrypt dk" "enc_string_nonce_size dk = 16" "normalize_ops dk = dk"
    using assms(5,6) by (simp_all add: dk_def key_sizes)
  obtain u where u: "encapsulate_key_unsigned L R (rng_oaep rng) uk
      (to_public_key R (private_key.RsaOaepSha1 (rng_private_key rng))) = Ok u"
    "decapsulate_key_unsigned L R u (private_key.RsaOaepSha1 (rng_private_key rng)) = Ok (normalize_ops uk)"
    using encapsulate_Ok [OF assms(2,9), of "rng_oaep rng"] decapsulate_encapsulated [OF assms(1-3)] by blast
  obtain e where e: "encrypt_with_key L public_der uk content_format.SPKIPublicKeyDer (rng_public_nonce rng) = Ok e"
    "decrypt_with_key L e uk = Ok public_der"
    using encrypt_with_key_Ok [OF assms(1,3,4,7), of public_der content_format.SPKIPublicKeyDer]
    by (auto simp: unreadable_format_def)
  obtain e' where e': "encrypt_with_key L private_der dk content_format.Pkcs8PrivateKey (rng_private_iv rng) = Ok e'"
    "decrypt_with_key L e' dk = Ok private_der"
    using encrypt_with_key_Ok [OF assms(1) dk(1,2), of "rng_private_iv rng" private_der content_format.Pkcs8PrivateKey]
      assms(8) dk(3) by (auto simp: unreadable_format_def)
  have "private_key_from_der R private_der = Ok (private_key.RsaOaepSha1 (rng_private_key rng))"
    by (rule der_roundtrips(2) [OF assms(2)]) (simp add: assms(11))
  then have "device_decrypt_user_key L R (DeviceKey dk) e' u = Ok (normalize_ops uk)"
    using e'(2) u(2) by simp
  moreover have "device_key_try_from L (b64_to_string (lib_b64 L) (to_encoded L dk)) = Ok (DeviceKey dk)"
    using try_from_legacy_to_encoded [OF assms(1) dk(1)] dk(4)
    by (simp add: device_key_try_from_def symmetric_key_from_string_def
        b64.read_show [OF crypto_lib_okD(1) [OF assms(1)]])
  moreover have "trust_device L R rng uk = Ok \<lparr>trusted_device_key = to_encoded L dk, protected_user_key = u,
      protected_device_private_key = e', protected_device_public_key = e\<rparr>"
    using u(1) e(1) e'(1) assms(10,11)
    by (simp add: trust_device_def make_aes256_cbc_hmac_key_def dk_def [symmetric] Let_def result_simps)
  ultimately show ?thesis using e(2) by (intro exI [of _ "\<lparr>trusted_device_key = to_encoded L dk,
      protected_user_key = u, protected_device_private_key = e', protected_device_public_key = e\<rparr>"]
      exI [of _ "DeviceKey dk"]) simp
qed

theorem device_trust_roundtrip_witness:
  "\<exists>r dk. trust_device crypto_ref rsa_ref
       \<lparr>rng_device_enc = replicate 32 1, rng_device_mac = replicate 32 2, rng_private_key = 7, rng_oaep = [],
        rng_public_nonce = replicate 16 4, rng_private_iv = replicate 16 5\<rparr>
       (Aes256CbcHmacKey (replicate 64 3)) = Ok r
     \<and> device_decrypt_user_key crypto_ref rsa_ref dk (protected_device_private_key r) (protected_user_key r)
         = Ok (Aes256CbcHmacKey (replicate 64 3))"
proof -
  have [simp]: "rsa_modulus_len rsa_ref k = 256" "rsa_to_public_key rsa_ref k = k"
    "rsa_to_public_key_der rsa_ref k = Some [k]" "rsa_to_pkcs8_der rsa_ref k = Some [0, k]" for k
    by (simp_all add: rsa_ref_def)
  show ?thesis
    using device_trust_roundtrip [OF crypto_ref_ok rsa_ref_ok, of "Aes256CbcHmacKey (replicate 64 3)"
      "\<lparr>rng_device_enc = replicate 32 1, rng_device_mac = replicate 32 2, rng_private_key = 7, rng_oaep = [],
        rng_public_nonce = replicate 16 4, rng_private_iv = replicate 16 5\<rparr>" "[7]" "[0, 7]"]
    by (auto simp: key_sizes to_encoded_def)
qed

end
