(* ===== verification/Key_Store.thy ===== *)
theory Key_Store
  imports Shared_Key
begin

text \<open>
  The key store of \<open>bitwarden-crypto\<close>: the in-memory backend (\<open>store/backend/\<close>), the store and its
  parallel list operations (\<open>store/mod.rs\<close>), and the contexts through which keys are used
  (\<open>store/context.rs\<close>).  Operations on \<open>&mut self\<close> return the result and the context they leave
  behind, also when they fail.  A context holds the value its lock guard gives access to; the
  ids \<open>LocalId::new()\<close> draws and all random bytes are arguments.  Signing keys are values of a type
  variable; their own operations are not part of this theory.
\<close>


section \<open>The backend\<close>

record ('k, 'v) basic_backend =
  backend_keys :: "'k \<rightharpoonup> 'v"

definition backend_new :: "('k, 'v) basic_backend" where
  "backend_new = \<lparr>backend_keys = Map.empty\<rparr>"

definition backend_upsert :: "'k \<Rightarrow> 'v \<Rightarrow> ('k, 'v) basic_backend \<Rightarrow> ('k, 'v) basic_backend" where
  "backend_upsert key_id key self = self\<lparr>backend_keys := (backend_keys self)(key_id \<mapsto> key)\<rparr>"

definition backend_get :: "('k, 'v) basic_backend \<Rightarrow> 'k \<Rightarrow> 'v option" where
  "backend_get self key_id = backend_keys self key_id"

definition backend_remove :: "'k \<Rightarrow> ('k, 'v) basic_backend \<Rightarrow> ('k, 'v) basic_backend" where
  "backend_remove key_id self = self\<lparr>backend_keys := (backend_keys self)(key_id := None)\<rparr>"

definition backend_clear :: "('k, 'v) basic_backend \<Rightarrow> ('k, 'v) basic_backend" where
  "backend_clear self = self\<lparr>backend_keys := Map.empty\<rparr>"

definition backend_retain :: "('k \<Rightarrow> bool) \<Rightarrow> ('k, 'v) basic_backend \<Rightarrow> ('k, 'v) basic_backend" where
  "backend_retain f self = self\<lparr>backend_keys := (\<lambda>k. if f k then backend_keys self k else None)\<rparr>"

definition create_store :: "('k, 'v) basic_backend" where
  "create_store = backend_new"


section \<open>The store and its contexts\<close>

record ('priv, 'sig) key_store_inner =
  symmetric_keys :: "(symmetric_key_slot_id, symmetric_crypto_key) basic_backend"
  private_keys :: "(private_key_slot_id, 'priv private_key) basic_backend"
  signing_keys :: "(signing_key_slot_id, 'sig) basic_backend"
  security_state_version :: u64
  store_cipher_suite :: cipher_suite

definition key_store_default :: "('priv, 'sig) key_store_inner" where
  "key_store_default =
     \<lparr>symmetric_keys = create_store, private_keys = create_store, signing_keys = create_store,
      security_state_version = 1, store_cipher_suite = cipher_suite_default\<rparr>"

definition key_store_clear :: "('priv, 'sig) key_store_inner \<Rightarrow> ('priv, 'sig) key_store_inner" where
  "key_store_clear keys =
     keys\<lparr>symmetric_keys := backend_clear (symmetric_keys keys),
          private_keys := backend_clear (private_keys keys),
          signing_keys := backend_clear (signing_keys keys)\<rparr>"

definition set_security_state_version :: "u64 \<Rightarrow> ('priv, 'sig) key_store_inner \<Rightarrow> ('priv, 'sig) key_store_inner" where
  "set_security_state_version version data = data\<lparr>security_state_version := version\<rparr>"

definition set_cipher_suite :: "cipher_suite \<Rightarrow> ('priv, 'sig) key_store_inner \<Rightarrow> ('priv, 'sig) key_store_inner" where
  "set_cipher_suite suite data = data\<lparr>store_cipher_suite := suite\<rparr>"

datatype ('priv, 'sig) global_keys =
    ReadOnly "('priv, 'sig) key_store_inner"
  | ReadWrite "('priv, 'sig) key_store_inner"

primrec global_get :: "('priv, 'sig) global_keys \<Rightarrow> ('priv, 'sig) key_store_inner" where
  "global_get (ReadOnly keys) = keys"
| "global_get (ReadWrite keys) = keys"

text \<open>\<open>get_mut\<close> and the update made through the reference it returns.\<close>

primrec global_get_mut ::
  "(('priv, 'sig) key_store_inner \<Rightarrow> ('priv, 'sig) key_store_inner)
   \<Rightarrow> ('priv, 'sig) global_keys \<Rightarrow> (('priv, 'sig) global_keys, crypto_error) result" where
  "global_get_mut f (ReadOnly keys) = Err ReadOnlyKeyStore"
| "global_get_mut f (ReadWrite keys) = Ok (ReadWrite (f keys))"

record ('priv, 'sig) key_store_context =
  global_keys :: "('priv, 'sig) global_keys"
  local_symmetric_keys :: "(symmetric_key_slot_id, symmetric_crypto_key) basic_backend"
  local_private_keys :: "(private_key_slot_id, 'priv private_key) basic_backend"
  local_signing_keys :: "(signing_key_slot_id, 'sig) basic_backend"
  ctx_security_state_version :: u64
  ctx_cipher_suite :: cipher_suite

definition context_ro :: "('priv, 'sig) key_store_inner \<Rightarrow> ('priv, 'sig) key_store_context" where
  "context_ro data =
     \<lparr>global_keys = ReadOnly data, local_symmetric_keys = create_store,
      local_private_keys = create_store, local_signing_keys = create_store,
      ctx_security_state_version = security_state_version data, ctx_cipher_suite = store_cipher_suite data\<rparr>"

definition context_mut :: "('priv, 'sig) key_store_inner \<Rightarrow> ('priv, 'sig) key_store_context" where
  "context_mut inner =
     \<lparr>global_keys = ReadWrite inner, local_symmetric_keys = create_store,
      local_private_keys = create_store, local_signing_keys = create_store,
      ctx_security_state_version = security_state_version inner, ctx_cipher_suite = store_cipher_suite inner\<rparr>"

subsection \<open>Updating a context\<close>

type_synonym ('c, 'a) action = "'c \<Rightarrow> ('a, crypto_error) result \<times> 'c"

definition act_then ::
  "('c \<Rightarrow> ('a, 'e) result \<times> 'c) \<Rightarrow> ('a \<Rightarrow> 'c \<Rightarrow> ('b, 'e) result \<times> 'c) \<Rightarrow> 'c \<Rightarrow> ('b, 'e) result \<times> 'c" where
  "act_then m f ctx = (case m ctx of (Ok x, ctx') \<Rightarrow> f x ctx' | (Err e, ctx') \<Rightarrow> (Err e, ctx'))"

text \<open>An action from a computation on \<open>&self\<close>.\<close>

definition act_read :: "('c \<Rightarrow> ('a, 'e) result) \<Rightarrow> 'c \<Rightarrow> ('a, 'e) result \<times> 'c" where
  "act_read r ctx = (r ctx, ctx)"

text \<open>\<open>map_err\<close> on the result of an action.\<close>

definition act_map_err :: "('e \<Rightarrow> 'f) \<Rightarrow> ('c \<Rightarrow> ('a, 'e) result \<times> 'c) \<Rightarrow> 'c \<Rightarrow> ('a, 'f) result \<times> 'c" where
  "act_map_err g m ctx = (case m ctx of (r, ctx') \<Rightarrow> (map_err g r, ctx'))"

definition update_global ::
  "(('priv, 'sig) key_store_inner \<Rightarrow> ('priv, 'sig) key_store_inner)
   \<Rightarrow> (('priv, 'sig) key_store_context, unit) action" where
  "update_global f ctx =
     (case global_get_mut f (global_keys ctx) of
        Ok g \<Rightarrow> (Ok (), ctx\<lparr>global_keys := g\<rparr>)
      | Err e \<Rightarrow> (Err e, ctx))"

definition clear_local :: "('priv, 'sig) key_store_context \<Rightarrow> ('priv, 'sig) key_store_context" where
  "clear_local self =
     self\<lparr>local_symmetric_keys := backend_clear (local_symmetric_keys self),
          local_private_keys := backend_clear (local_private_keys self),
          local_signing_keys := backend_clear (local_signing_keys self)\<rparr>"

definition get_security_state_version :: "('priv, 'sig) key_store_context \<Rightarrow> u64" where
  "get_security_state_version self = ctx_security_state_version self"

definition retain_symmetric_keys ::
  "(symmetric_key_slot_id \<Rightarrow> bool) \<Rightarrow> ('priv, 'sig) key_store_context \<Rightarrow> ('priv, 'sig) key_store_context" where
  "retain_symmetric_keys f self =
     (let self = snd (update_global (\<lambda>keys. keys\<lparr>symmetric_keys := backend_retain f (symmetric_keys keys)\<rparr>) self)
      in self\<lparr>local_symmetric_keys := backend_retain f (local_symmetric_keys self)\<rparr>)"

definition retain_private_keys ::
  "(private_key_slot_id \<Rightarrow> bool) \<Rightarrow> ('priv, 'sig) key_store_context \<Rightarrow> ('priv, 'sig) key_store_context" where
  "retain_private_keys f self =
     (let self = snd (update_global (\<lambda>keys. keys\<lparr>private_keys := backend_retain f (private_keys keys)\<rparr>) self)
      in self\<lparr>local_private_keys := backend_retain f (local_private_keys self)\<rparr>)"

subsection \<open>The symmetric keys of a context\<close>

definition get_symmetric_key ::
  "('priv, 'sig) key_store_context \<Rightarrow> symmetric_key_slot_id \<Rightarrow> (symmetric_crypto_key, crypto_error) result" where
  "get_symmetric_key self key_id =
     ok_or (MissingKeyId (SymmetricSlot key_id))
       (if symmetric_is_local key_id then backend_get (local_symmetric_keys self) key_id
        else backend_get (symmetric_keys (global_get (global_keys self))) key_id)"

definition set_symmetric_key ::
  "symmetric_key_slot_id \<Rightarrow> symmetric_crypto_key \<Rightarrow> (('priv, 'sig) key_store_context, unit) action" where
  "set_symmetric_key key_id key self =
     (if symmetric_is_local key_id
      then (Ok (), self\<lparr>local_symmetric_keys := backend_upsert key_id key (local_symmetric_keys self)\<rparr>)
      else update_global (\<lambda>keys. keys\<lparr>symmetric_keys := backend_upsert key_id key (symmetric_keys keys)\<rparr>) self)"

definition drop_symmetric_key :: "symmetric_key_slot_id \<Rightarrow> (('priv, 'sig) key_store_context, unit) action" where
  "drop_symmetric_key key_id self =
     (if symmetric_is_local key_id
      then (Ok (), self\<lparr>local_symmetric_keys := backend_remove key_id (local_symmetric_keys self)\<rparr>)
      else update_global (\<lambda>keys. keys\<lparr>symmetric_keys := backend_remove key_id (symmetric_keys keys)\<rparr>) self)"

definition persist_symmetric_key ::
  "symmetric_key_slot_id \<Rightarrow> symmetric_key_slot_id \<Rightarrow> (('priv, 'sig) key_store_context, unit) action" where
  "persist_symmetric_key from to self =
     (if \<not> symmetric_is_local from \<or> symmetric_is_local to then (Err InvalidKeyStoreOperation, self)
      else act_then (act_read (\<lambda>ctx. get_symmetric_key ctx from)) (\<lambda>key.
           act_then (drop_symmetric_key from) (\<lambda>_.
           set_symmetric_key to key)) self)"

definition add_local_symmetric_key ::
  "local_id \<Rightarrow> symmetric_crypto_key \<Rightarrow> ('priv, 'sig) key_store_context
   \<Rightarrow> symmetric_key_slot_id \<times> ('priv, 'sig) key_store_context" where
  "add_local_symmetric_key local_id key self =
     (let key_id = symmetric_new_local local_id
      in (key_id, self\<lparr>local_symmetric_keys := backend_upsert key_id key (local_symmetric_keys self)\<rparr>))"

definition has_symmetric_key :: "('priv, 'sig) key_store_context \<Rightarrow> symmetric_key_slot_id \<Rightarrow> bool" where
  "has_symmetric_key self key_id = is_ok (get_symmetric_key self key_id)"

subsection \<open>The private keys of a context\<close>

definition get_private_key ::
  "('priv, 'sig) key_store_context \<Rightarrow> private_key_slot_id \<Rightarrow> ('priv private_key, crypto_error) result" where
  "get_private_key self key_id =
     ok_or (MissingKeyId (PrivateSlot key_id))
       (if private_is_local key_id then backend_get (local_private_keys self) key_id
        else backend_get (private_keys (global_get (global_keys self))) key_id)"

definition set_private_key ::
  "private_key_slot_id \<Rightarrow> 'priv private_key \<Rightarrow> (('priv, 'sig) key_store_context, unit) action" where
  "set_private_key key_id key self =
     (if private_is_local key_id
      then (Ok (), self\<lparr>local_private_keys := backend_upsert key_id key (local_private_keys self)\<rparr>)
      else update_global (\<lambda>keys. keys\<lparr>private_keys := backend_upsert key_id key (private_keys keys)\<rparr>) self)"

definition drop_private_key :: "private_key_slot_id \<Rightarrow> (('priv, 'sig) key_store_context, unit) action" where
  "drop_private_key key_id self =
     (if private_is_local key_id
      then (Ok (), self\<lparr>local_private_keys := backend_remove key_id (local_private_keys self)\<rparr>)
      else update_global (\<lambda>keys. keys\<lparr>private_keys := backend_remove key_id (private_keys keys)\<rparr>) self)"

definition persist_private_key ::
  "private_key_slot_id \<Rightarrow> private_key_slot_id \<Rightarrow> (('priv, 'sig) key_store_context, unit) action" where
  "persist_private_key from to self =
     (if \<not> private_is_local from \<or> private_is_local to then (Err InvalidKeyStoreOperation, self)
      else act_then (act_read (\<lambda>ctx. get_private_key ctx from)) (\<lambda>key.
           act_then (drop_private_key from) (\<lambda>_.
           set_private_key to key)) self)"

definition add_local_private_key ::
  "local_id \<Rightarrow> 'priv private_key \<Rightarrow> ('priv, 'sig) key_store_context
   \<Rightarrow> private_key_slot_id \<times> ('priv, 'sig) key_store_context" where
  "add_local_private_key local_id key self =
     (let key_id = private_new_local local_id
      in (key_id, self\<lparr>local_private_keys := backend_upsert key_id key (local_private_keys self)\<rparr>))"

definition has_private_key :: "('priv, 'sig) key_store_context \<Rightarrow> private_key_slot_id \<Rightarrow> bool" where
  "has_private_key self key_id = is_ok (get_private_key self key_id)"

subsection \<open>The signing keys of a context\<close>

definition get_signing_key ::
  "('priv, 'sig) key_store_context \<Rightarrow> signing_key_slot_id \<Rightarrow> ('sig, crypto_error) result" where
  "get_signing_key self key_id =
     ok_or (MissingKeyId (SigningSlot key_id))
       (if signing_is_local key_id then backend_get (local_signing_keys self) key_id
        else backend_get (signing_keys (global_get (global_keys self))) key_id)"

definition set_signing_key ::
  "signing_key_slot_id \<Rightarrow> 'sig \<Rightarrow> (('priv, 'sig) key_store_context, unit) action" where
  "set_signing_key key_id key self =
     (if signing_is_local key_id
      then (Ok (), self\<lparr>local_signing_keys := backend_upsert key_id key (local_signing_keys self)\<rparr>)
      else update_global (\<lambda>keys. keys\<lparr>signing_keys := backend_upsert key_id key (signing_keys keys)\<rparr>) self)"

definition drop_signing_key :: "signing_key_slot_id \<Rightarrow> (('priv, 'sig) key_store_context, unit) action" where
  "drop_signing_key key_id self =
     (if signing_is_local key_id
      then (Ok (), self\<lparr>local_signing_keys := backend_remove key_id (local_signing_keys self)\<rparr>)
      else update_global (\<lambda>keys. keys\<lparr>signing_keys := backend_remove key_id (signing_keys keys)\<rparr>) self)"

definition persist_signing_key ::
  "signing_key_slot_id \<Rightarrow> signing_key_slot_id \<Rightarrow> (('priv, 'sig) key_store_context, unit) action" where
  "persist_signing_key from to self =
     (if \<not> signing_is_local from \<or> signing_is_local to then (Err InvalidKeyStoreOperation, self)
      else act_then (act_read (\<lambda>ctx. get_signing_key ctx from)) (\<lambda>key.
           act_then (drop_signing_key from) (\<lambda>_.
           set_signing_key to key)) self)"

definition add_local_signing_key ::
  "local_id \<Rightarrow> 'sig \<Rightarrow> ('priv, 'sig) key_store_context
   \<Rightarrow> signing_key_slot_id \<times> ('priv, 'sig) key_store_context" where
  "add_local_signing_key local_id key self =
     (let key_id = signing_new_local local_id
      in (key_id, self\<lparr>local_signing_keys := backend_upsert key_id key (local_signing_keys self)\<rparr>))"

definition has_signing_key :: "('priv, 'sig) key_store_context \<Rightarrow> signing_key_slot_id \<Rightarrow> bool" where
  "has_signing_key self key_id = is_ok (get_signing_key self key_id)"

subsection \<open>Making keys\<close>

definition act_pure :: "('c \<Rightarrow> 'a \<times> 'c) \<Rightarrow> 'c \<Rightarrow> ('a, 'e) result \<times> 'c" where
  "act_pure f ctx = (let (x, ctx') = f ctx in (Ok x, ctx'))"

definition generate_symmetric_key ::
  "local_id \<Rightarrow> bytes \<Rightarrow> bytes \<Rightarrow> ('priv, 'sig) key_store_context
   \<Rightarrow> symmetric_key_slot_id \<times> ('priv, 'sig) key_store_context" where
  "generate_symmetric_key local_id rng_enc rng_mac self =
     add_local_symmetric_key local_id (make_aes256_cbc_hmac_key rng_enc rng_mac) self"

definition make_symmetric_key ::
  "symmetric_key_algorithm \<Rightarrow> local_id \<Rightarrow> bytes \<Rightarrow> bytes \<Rightarrow> key_id \<Rightarrow> ('priv, 'sig) key_store_context
   \<Rightarrow> symmetric_key_slot_id \<times> ('priv, 'sig) key_store_context" where
  "make_symmetric_key algorithm local_id rng_enc rng_mac rng_id self =
     add_local_symmetric_key local_id (symmetric_key_make algorithm rng_enc rng_mac rng_id) self"

definition make_private_key ::
  "local_id \<Rightarrow> 'priv \<Rightarrow> ('priv, 'sig) key_store_context
   \<Rightarrow> private_key_slot_id \<times> ('priv, 'sig) key_store_context" where
  "make_private_key local_id rng_key self =
     add_local_private_key local_id (private_key.RsaOaepSha1 rng_key) self"

definition ctx_derive_shareable_key ::
  "crypto_lib \<Rightarrow> local_id \<Rightarrow> bytes \<Rightarrow> string \<Rightarrow> string option
   \<Rightarrow> (('priv, 'sig) key_store_context, symmetric_key_slot_id) action" where
  "ctx_derive_shareable_key L local_id secret name info =
     (let key_id = symmetric_new_local local_id
      in act_then (set_symmetric_key key_id (Aes256CbcHmacKey (derive_shareable_key L secret name info)))
           (\<lambda>_ ctx. (Ok key_id, ctx)))"

subsection \<open>Reading keys\<close>

definition get_symmetric_key_id ::
  "crypto_lib \<Rightarrow> ('priv, 'sig) key_store_context \<Rightarrow> symmetric_key_slot_id \<Rightarrow> key_id option" where
  "get_symmetric_key_id L self key_slot_id =
     (case get_symmetric_key self key_slot_id of
        Ok key \<Rightarrow> symmetric_key_id L key
      | Err _ \<Rightarrow> None)"

definition get_public_key ::
  "('pub, 'priv) rsa_lib \<Rightarrow> ('priv, 'sig) key_store_context \<Rightarrow> private_key_slot_id
   \<Rightarrow> ('pub public_key, crypto_error) result" where
  "get_public_key R self private_key_id = map_ok (to_public_key R) (get_private_key self private_key_id)"

definition get_symmetric_key_algorithm ::
  "('priv, 'sig) key_store_context \<Rightarrow> symmetric_key_slot_id \<Rightarrow> (symmetric_key_algorithm, crypto_error) result" where
  "get_symmetric_key_algorithm self key_id =
     and_then (get_symmetric_key self key_id) (\<lambda>key.
     (case key of
        Aes256CbcKey _ \<Rightarrow> Err (OperationNotSupported EncryptionNotImplementedForKey)
      | Aes256CbcHmacKey _ \<Rightarrow> Ok symmetric_key_algorithm.Aes256CbcHmac
      | XChaCha20Poly1305Key _ \<Rightarrow> Ok symmetric_key_algorithm.XChaCha20Poly1305
      | Aes256GcmKey _ \<Rightarrow> Ok symmetric_key_algorithm.Aes256Gcm
      | XAes256GcmKey _ \<Rightarrow> Ok symmetric_key_algorithm.XAes256Gcm))"

definition is_v1_symmetric_key ::
  "('priv, 'sig) key_store_context \<Rightarrow> symmetric_key_slot_id \<Rightarrow> (bool, crypto_error) result" where
  "is_v1_symmetric_key self key_id =
     map_ok (\<lambda>algorithm. algorithm = symmetric_key_algorithm.Aes256CbcHmac)
       (get_symmetric_key_algorithm self key_id)"

subsection \<open>Encrypting and wrapping with the keys of a context\<close>

definition encrypt_data_with_symmetric_key ::
  "crypto_lib \<Rightarrow> ('priv, 'sig) key_store_context \<Rightarrow> symmetric_key_slot_id \<Rightarrow> bytes \<Rightarrow> content_format \<Rightarrow> bytes
   \<Rightarrow> (enc_string, crypto_error) result" where
  "encrypt_data_with_symmetric_key L self key data content_format nonce =
     and_then (get_symmetric_key self key) (\<lambda>key.
     (case key of
        Aes256CbcKey _ \<Rightarrow> Err (OperationNotSupported EncryptionNotImplementedForKey)
      | Aes256CbcHmacKey key \<Rightarrow> encrypt_aes256_hmac L data key nonce
      | XChaCha20Poly1305Key key \<Rightarrow>
          if key_operation.Encrypt \<notin> set (supported_operations key)
          then Err (KeyOperationNotSupported key_operation.Encrypt)
          else enc_string_encrypt_xchacha20_poly1305 L data key content_format nonce
      | Aes256GcmKey _ \<Rightarrow> Err (OperationNotSupported EncryptionNotImplementedForKey)
      | XAes256GcmKey key \<Rightarrow>
          if key_operation.Encrypt \<notin> set (supported_operations key)
          then Err (KeyOperationNotSupported key_operation.Encrypt)
          else enc_string_encrypt_xaes256_gcm L data key content_format nonce))"

definition decrypt_data_with_symmetric_key ::
  "crypto_lib \<Rightarrow> ('priv, 'sig) key_store_context \<Rightarrow> symmetric_key_slot_id \<Rightarrow> enc_string
   \<Rightarrow> (bytes, crypto_error) result" where
  "decrypt_data_with_symmetric_key L self key data =
     and_then (get_symmetric_key self key) (\<lambda>key.
     (case (data, key) of
        (Aes256Cbc_B64 _ _, Aes256CbcKey _) \<Rightarrow> Err (OperationNotSupported DecryptionNotImplementedForKey)
      | (Aes256Cbc_HmacSha256_B64 iv mac data, Aes256CbcHmacKey key) \<Rightarrow>
          map_err (\<lambda>_. crypto_error.Decrypt) (Aes256CbcHmacSha256_decrypt L iv data mac key)
      | (Cose_Encrypt0_B64 data, XChaCha20Poly1305Key key) \<Rightarrow>
          map_ok fst (decrypt_xchacha20_poly1305 L data key)
      | (Cose_Encrypt0_B64 data, XAes256GcmKey key) \<Rightarrow> map_ok fst (decrypt_xaes256_gcm L data key)
      | (Unparseable _, _) \<Rightarrow> Err UnparseableEncString
      | _ \<Rightarrow> Err InvalidKey))"

definition wrap_symmetric_key ::
  "crypto_lib \<Rightarrow> ('priv, 'sig) key_store_context \<Rightarrow> symmetric_key_slot_id \<Rightarrow> symmetric_key_slot_id \<Rightarrow> bytes
   \<Rightarrow> (enc_string, crypto_error) result" where
  "wrap_symmetric_key L self wrapping_key key_to_wrap nonce =
     and_then (get_symmetric_key self wrapping_key) (\<lambda>wrapping_key_instance.
     and_then (get_symmetric_key self key_to_wrap) (\<lambda>key_to_wrap_instance.
     (case wrapping_key_instance of
        Aes256CbcHmacKey _ \<Rightarrow>
          encrypt_data_with_symmetric_key L self wrapping_key (to_encoded L key_to_wrap_instance)
            content_format.BitwardenLegacyKey nonce
      | XChaCha20Poly1305Key _ \<Rightarrow>
          (let encoded = to_encoded_raw L key_to_wrap_instance
           in encrypt_data_with_symmetric_key L self wrapping_key (encoded_into_vec encoded)
                (encoded_content_format encoded) nonce)
      | XAes256GcmKey _ \<Rightarrow>
          (let encoded = to_encoded_raw L key_to_wrap_instance
           in encrypt_data_with_symmetric_key L self wrapping_key (encoded_into_vec encoded)
                (encoded_content_format encoded) nonce)
      | _ \<Rightarrow> Err (OperationNotSupported EncryptionNotImplementedForKey))))"

text \<open>The match on the content format, the same for both COSE wrapping keys.\<close>

definition unwrapped_symmetric_key ::
  "crypto_lib \<Rightarrow> bytes \<times> content_format \<Rightarrow> (symmetric_crypto_key, crypto_error) result" where
  "unwrapped_symmetric_key L content =
     (let (content_bytes, content_format) = content
      in case content_format of
           content_format.BitwardenLegacyKey \<Rightarrow> try_from_legacy_bytes L content_bytes
         | content_format.CoseKey \<Rightarrow> try_from_cose L content_bytes
         | _ \<Rightarrow> Err InvalidKey)"

definition decrypt_wrapped_symmetric_key ::
  "crypto_lib \<Rightarrow> enc_string \<Rightarrow> symmetric_crypto_key \<Rightarrow> (symmetric_crypto_key, crypto_error) result" where
  "decrypt_wrapped_symmetric_key L wrapped_key wrapping_key =
     (case (wrapped_key, wrapping_key) of
        (Aes256Cbc_B64 _ _, Aes256CbcKey _) \<Rightarrow> Err (OperationNotSupported DecryptionNotImplementedForKey)
      | (Aes256Cbc_HmacSha256_B64 iv mac data, Aes256CbcHmacKey key) \<Rightarrow>
          and_then (map_err (\<lambda>_. crypto_error.Decrypt) (Aes256CbcHmacSha256_decrypt L iv data mac key))
            (try_from_legacy_bytes L)
      | (Cose_Encrypt0_B64 data, XChaCha20Poly1305Key key) \<Rightarrow>
          and_then (decrypt_xchacha20_poly1305 L data key) (unwrapped_symmetric_key L)
      | (Cose_Encrypt0_B64 data, XAes256GcmKey key) \<Rightarrow>
          and_then (decrypt_xaes256_gcm L data key) (unwrapped_symmetric_key L)
      | (Unparseable _, _) \<Rightarrow> Err UnparseableEncString
      | _ \<Rightarrow> Err InvalidKey)"

definition unwrap_symmetric_key ::
  "crypto_lib \<Rightarrow> local_id \<Rightarrow> symmetric_key_slot_id \<Rightarrow> enc_string
   \<Rightarrow> (('priv, 'sig) key_store_context, symmetric_key_slot_id) action" where
  "unwrap_symmetric_key L local_id wrapping_key wrapped_key =
     act_then (act_read (\<lambda>ctx. and_then (get_symmetric_key ctx wrapping_key) (\<lambda>wrapping_key.
       decrypt_wrapped_symmetric_key L wrapped_key wrapping_key))) (\<lambda>key.
     let new_key_id = symmetric_new_local local_id
     in act_then (set_symmetric_key new_key_id key) (\<lambda>_ ctx. (Ok new_key_id, ctx)))"

definition wrap_private_key ::
  "crypto_lib \<Rightarrow> ('pub, 'priv) rsa_lib \<Rightarrow> ('priv, 'sig) key_store_context \<Rightarrow> symmetric_key_slot_id
   \<Rightarrow> private_key_slot_id \<Rightarrow> bytes \<Rightarrow> (enc_string, crypto_error) result" where
  "wrap_private_key L R self wrapping_key key_to_wrap nonce =
     and_then (get_symmetric_key self wrapping_key) (\<lambda>wrapping_key.
     and_then (get_private_key self key_to_wrap) (\<lambda>private_key.
     and_then (private_key_to_der R private_key) (\<lambda>der.
       encrypt_with_key L der wrapping_key content_format.Pkcs8PrivateKey nonce)))"

definition unwrap_private_key ::
  "crypto_lib \<Rightarrow> ('pub, 'priv) rsa_lib \<Rightarrow> local_id \<Rightarrow> symmetric_key_slot_id \<Rightarrow> enc_string
   \<Rightarrow> (('priv, 'sig) key_store_context, private_key_slot_id) action" where
  "unwrap_private_key L R local_id wrapping_key wrapped_key =
     act_then (act_read (\<lambda>ctx.
       and_then (get_symmetric_key ctx wrapping_key) (\<lambda>wrapping_key.
       and_then (decrypt_with_key L wrapped_key wrapping_key) (\<lambda>private_key_bytes.
         private_key_from_der R private_key_bytes)))) (\<lambda>private_key.
     act_pure (add_local_private_key local_id private_key))"


subsection \<open>Decryptable values\<close>

text \<open>The implementations of \<open>Decryptable\<close> in \<open>traits/decryptable.rs\<close>.\<close>

definition decrypt_bytes ::
  "crypto_lib \<Rightarrow> enc_string \<Rightarrow> symmetric_key_slot_id \<Rightarrow> (('priv, 'sig) key_store_context, bytes) action" where
  "decrypt_bytes L self key = act_read (\<lambda>ctx. decrypt_data_with_symmetric_key L ctx key self)"

definition decrypt_string ::
  "crypto_lib \<Rightarrow> enc_string \<Rightarrow> symmetric_key_slot_id \<Rightarrow> (('priv, 'sig) key_store_context, string) action" where
  "decrypt_string L self key =
     act_then (decrypt_bytes L self key) (\<lambda>bytes.
       act_read (\<lambda>_. ok_or InvalidUtf8String (string_from_utf8 bytes)))"

definition decrypt_option ::
  "('item \<Rightarrow> 'k \<Rightarrow> ('c, 'out) action) \<Rightarrow> 'item option \<Rightarrow> 'k \<Rightarrow> ('c, 'out option) action" where
  "decrypt_option decrypt self key =
     (case self of
        None \<Rightarrow> act_read (\<lambda>_. Ok None)
      | Some value \<Rightarrow> act_then (decrypt value key) (\<lambda>out. act_read (\<lambda>_. Ok (Some out))))"

fun decrypt_vec ::
  "('item \<Rightarrow> 'k \<Rightarrow> ('c, 'out) action) \<Rightarrow> 'item list \<Rightarrow> 'k \<Rightarrow> ('c, 'out list) action" where
  "decrypt_vec decrypt [] key = act_read (\<lambda>_. Ok [])"
| "decrypt_vec decrypt (value # values) key =
     act_then (decrypt value key) (\<lambda>out.
     act_then (decrypt_vec decrypt values key) (\<lambda>outs.
       act_read (\<lambda>_. Ok (out # outs))))"


section \<open>The list operations of the store\<close>

text \<open>
  The number of threads, and which of several errors a parallel \<open>collect\<close> reports, depend on
  the thread pool: both are arguments.  An item gives its key slot by \<open>key_identifier\<close> and an
  action on a context by \<open>decrypt\<close> or \<open>encrypt_composite\<close>.
\<close>

definition MINIMUM_CHUNK_SIZE :: nat where
  "MINIMUM_CHUNK_SIZE = 50"

definition batch_chunk_size :: "nat \<Rightarrow> nat \<Rightarrow> nat" where
  "batch_chunk_size num_threads len =
     (let items_per_thread = (len + num_threads - 1) div num_threads
      in max items_per_thread MINIMUM_CHUNK_SIZE)"

text \<open>The loop over one chunk, in one context that is cleared after every item.\<close>

fun run_chunk :: "('item \<Rightarrow> 'k) \<Rightarrow> ('item \<Rightarrow> 'k \<Rightarrow> (('priv, 'sig) key_store_context, 'out) action)
   \<Rightarrow> ('priv, 'sig) key_store_context \<Rightarrow> 'item list \<Rightarrow> ('out, crypto_error) result list" where
  "run_chunk key_identifier op ctx [] = []"
| "run_chunk key_identifier op ctx (item # items) =
     (let (r, ctx) = op item (key_identifier item) ctx
      in r # run_chunk key_identifier op (clear_local ctx) items)"

definition run_chunks :: "nat \<Rightarrow> ('item \<Rightarrow> 'k) \<Rightarrow> ('item \<Rightarrow> 'k \<Rightarrow> (('priv, 'sig) key_store_context, 'out) action)
   \<Rightarrow> ('priv, 'sig) key_store_inner \<Rightarrow> 'item list \<Rightarrow> ('out, crypto_error) result list" where
  "run_chunks num_threads key_identifier op self data =
     concat (map (run_chunk key_identifier op (context_ro self)) (chunks (batch_chunk_size num_threads (length data)) data))"

fun errors_of :: "('a, 'e) result list \<Rightarrow> 'e list" where
  "errors_of [] = []"
| "errors_of (Ok x # rs) = errors_of rs"
| "errors_of (Err e # rs) = e # errors_of rs"

fun oks_of :: "('a, 'e) result list \<Rightarrow> 'a list" where
  "oks_of [] = []"
| "oks_of (Ok x # rs) = x # oks_of rs"
| "oks_of (Err e # rs) = oks_of rs"

definition par_collect :: "nat \<Rightarrow> ('a, 'e) result list \<Rightarrow> ('a list, 'e) result" where
  "par_collect schedule rs =
     (let es = errors_of rs in if es = [] then Ok (oks_of rs) else Err (es ! (schedule mod length es)))"

definition decrypt_list :: "nat \<Rightarrow> nat \<Rightarrow> ('item \<Rightarrow> 'k) \<Rightarrow> ('item \<Rightarrow> 'k \<Rightarrow> (('priv, 'sig) key_store_context, 'out) action)
   \<Rightarrow> ('priv, 'sig) key_store_inner \<Rightarrow> 'item list \<Rightarrow> ('out list, crypto_error) result" where
  "decrypt_list num_threads schedule key_identifier op self data =
     par_collect schedule (run_chunks num_threads key_identifier op self data)"

definition encrypt_list :: "nat \<Rightarrow> nat \<Rightarrow> ('item \<Rightarrow> 'k) \<Rightarrow> ('item \<Rightarrow> 'k \<Rightarrow> (('priv, 'sig) key_store_context, 'out) action)
   \<Rightarrow> ('priv, 'sig) key_store_inner \<Rightarrow> 'item list \<Rightarrow> ('out list, crypto_error) result" where
  "encrypt_list num_threads schedule key_identifier op self data =
     par_collect schedule (run_chunks num_threads key_identifier op self data)"

definition decrypt_list_with_failures :: "nat \<Rightarrow> ('item \<Rightarrow> 'k) \<Rightarrow> ('item \<Rightarrow> 'k \<Rightarrow> (('priv, 'sig) key_store_context, 'out) action)
   \<Rightarrow> ('priv, 'sig) key_store_inner \<Rightarrow> 'item list \<Rightarrow> 'out list \<times> 'item list" where
  "decrypt_list_with_failures num_threads key_identifier op self data =
     (let results = map2 (\<lambda>item r. map_err (\<lambda>_. item) r) data (run_chunks num_threads key_identifier op self data)
      in (oks_of results, errors_of results))"

definition store_decrypt :: "('item \<Rightarrow> 'k) \<Rightarrow> ('item \<Rightarrow> 'k \<Rightarrow> (('priv, 'sig) key_store_context, 'out) action)
   \<Rightarrow> ('priv, 'sig) key_store_inner \<Rightarrow> 'item \<Rightarrow> ('out, crypto_error) result" where
  "store_decrypt key_identifier op self data = fst (op data (key_identifier data) (context_ro self))"

definition store_encrypt :: "('item \<Rightarrow> 'k) \<Rightarrow> ('item \<Rightarrow> 'k \<Rightarrow> (('priv, 'sig) key_store_context, 'out) action)
   \<Rightarrow> ('priv, 'sig) key_store_inner \<Rightarrow> 'item \<Rightarrow> ('out, crypto_error) result" where
  "store_encrypt key_identifier op self data = fst (op data (key_identifier data) (context_ro self))"


section \<open>Steps of a context\<close>

text \<open>
  Every operation on a mutable context, as one step.  Unwrapping a private key does not depend on
  the type of public keys, which is fixed here.
\<close>

inductive ctx_step :: "('priv, 'sig) key_store_context \<Rightarrow> ('priv, 'sig) key_store_context \<Rightarrow> bool" where
  clear_local_step: "ctx_step c (clear_local c)"
| retain_symmetric_step: "ctx_step c (retain_symmetric_keys f c)"
| retain_private_step: "ctx_step c (retain_private_keys f' c)"
| set_symmetric_step: "ctx_step c (snd (set_symmetric_key k v c))"
| set_private_step: "ctx_step c (snd (set_private_key k' v' c))"
| set_signing_step: "ctx_step c (snd (set_signing_key k'' v'' c))"
| drop_symmetric_step: "ctx_step c (snd (drop_symmetric_key k c))"
| drop_private_step: "ctx_step c (snd (drop_private_key k' c))"
| drop_signing_step: "ctx_step c (snd (drop_signing_key k'' c))"
| persist_symmetric_step: "ctx_step c (snd (persist_symmetric_key k to c))"
| persist_private_step: "ctx_step c (snd (persist_private_key k' to' c))"
| persist_signing_step: "ctx_step c (snd (persist_signing_key k'' to'' c))"
| add_local_symmetric_step: "ctx_step c (snd (add_local_symmetric_key l v c))"
| add_local_private_step: "ctx_step c (snd (add_local_private_key l v' c))"
| add_local_signing_step: "ctx_step c (snd (add_local_signing_key l v'' c))"
| generate_symmetric_step: "ctx_step c (snd (generate_symmetric_key l enc mac c))"
| make_symmetric_step: "ctx_step c (snd (make_symmetric_key alg l enc mac kid c))"
| make_private_step: "ctx_step c (snd (make_private_key l rsa c))"
| derive_shareable_step: "ctx_step c (snd (ctx_derive_shareable_key L l secret name info c))"
| unwrap_symmetric_step: "ctx_step c (snd (unwrap_symmetric_key L l k wrapped c))"
| unwrap_private_step: "ctx_step c (snd (unwrap_private_key L (R :: (bytes, _) rsa_lib) l k wrapped c))"

abbreviation ctx_steps :: "('priv, 'sig) key_store_context \<Rightarrow> ('priv, 'sig) key_store_context \<Rightarrow> bool" where
  "ctx_steps \<equiv> ctx_step\<^sup>*\<^sup>*"

text \<open>Local slots live in the context, all other slots in the store.\<close>

definition slots_ok :: "('k \<Rightarrow> bool) \<Rightarrow> ('k, 'v) basic_backend \<Rightarrow> bool" where
  "slots_ok allowed b \<longleftrightarrow> (\<forall>k v. backend_get b k = Some v \<longrightarrow> allowed k)"

definition store_wf :: "('priv, 'sig) key_store_inner \<Rightarrow> bool" where
  "store_wf s \<longleftrightarrow>
     slots_ok (\<lambda>k. \<not> symmetric_is_local k) (symmetric_keys s)
     \<and> slots_ok (\<lambda>k. \<not> private_is_local k) (private_keys s)
     \<and> slots_ok (\<lambda>k. \<not> signing_is_local k) (signing_keys s)"

definition ctx_wf :: "('priv, 'sig) key_store_context \<Rightarrow> bool" where
  "ctx_wf c \<longleftrightarrow> store_wf (global_get (global_keys c))
     \<and> slots_ok symmetric_is_local (local_symmetric_keys c)
     \<and> slots_ok private_is_local (local_private_keys c)
     \<and> slots_ok signing_is_local (local_signing_keys c)"

text \<open>What no operation changes: the mode, the version, the suite, and a store open for reading.\<close>

definition ctx_frame :: "('priv, 'sig) key_store_context \<Rightarrow> ('priv, 'sig) key_store_context \<Rightarrow> bool" where
  "ctx_frame c d \<longleftrightarrow>
     ctx_security_state_version d = ctx_security_state_version c \<and> ctx_cipher_suite d = ctx_cipher_suite c
     \<and> (case global_keys c of
          ReadOnly s \<Rightarrow> global_keys d = ReadOnly s
        | ReadWrite s \<Rightarrow> \<exists>s'. global_keys d = ReadWrite s'
            \<and> security_state_version s' = security_state_version s
            \<and> store_cipher_suite s' = store_cipher_suite s)"


text \<open>An operation that keeps both invariants, whatever its result.\<close>

definition keeps :: "(('priv, 'sig) key_store_context \<Rightarrow> ('priv, 'sig) key_store_context) \<Rightarrow> bool" where
  "keeps f \<longleftrightarrow> (\<forall>c. ctx_frame c (f c) \<and> (ctx_wf c \<longrightarrow> ctx_wf (f c)))"

definition writable :: "('priv, 'sig) key_store_context \<Rightarrow> bool" where
  "writable c \<longleftrightarrow> (case global_keys c of ReadOnly s \<Rightarrow> False | ReadWrite s \<Rightarrow> True)"

section \<open>The store behind its lock\<close>

text \<open>
  \<open>KeyStore\<close> is an \<open>Arc<RwLock<KeyStoreInner>>\<close>: any number of read-only contexts, or one with
  write access, is open at a time, and the operations of the store itself need the lock alone.  A
  call that would wait for the lock is a step that is not enabled.  Writes through a context reach
  the store at once.
\<close>

record ('priv, 'sig) locked_store =
  stored :: "('priv, 'sig) key_store_inner"
  readers :: "('priv, 'sig) key_store_context list"
  writer :: "('priv, 'sig) key_store_context option"

definition store_init :: "('priv, 'sig) locked_store" where
  "store_init = \<lparr>stored = key_store_default, readers = [], writer = None\<rparr>"

definition lock_free :: "('priv, 'sig) locked_store \<Rightarrow> bool" where
  "lock_free s \<longleftrightarrow> readers s = [] \<and> writer s = None"

inductive store_step :: "('priv, 'sig) locked_store \<Rightarrow> ('priv, 'sig) locked_store \<Rightarrow> bool" where
  open_reader: "writer s = None \<Longrightarrow> store_step s (s\<lparr>readers := context_ro (stored s) # readers s\<rparr>)"
| open_writer: "lock_free s \<Longrightarrow> store_step s (s\<lparr>writer := Some (context_mut (stored s))\<rparr>)"
| reader_step: "i < length (readers s) \<Longrightarrow> ctx_step (readers s ! i) d
     \<Longrightarrow> store_step s (s\<lparr>readers := (readers s)[i := d]\<rparr>)"
| writer_step: "writer s = Some c \<Longrightarrow> ctx_step c d
     \<Longrightarrow> store_step s (s\<lparr>writer := Some d, stored := global_get (global_keys d)\<rparr>)"
| close_reader: "readers s = cs @ c # ds \<Longrightarrow> store_step s (s\<lparr>readers := cs @ ds\<rparr>)"
| close_writer: "store_step s (s\<lparr>writer := None\<rparr>)"
| clear_store: "lock_free s \<Longrightarrow> store_step s (s\<lparr>stored := key_store_clear (stored s)\<rparr>)"
| set_version: "lock_free s \<Longrightarrow> store_step s (s\<lparr>stored := set_security_state_version v (stored s)\<rparr>)"
| set_suite: "lock_free s \<Longrightarrow> store_step s (s\<lparr>stored := set_cipher_suite suite (stored s)\<rparr>)"

text \<open>A context agrees with the store it was opened on.\<close>

definition sees_store :: "('priv, 'sig) key_store_inner \<Rightarrow> ('priv, 'sig) key_store_context \<Rightarrow> bool" where
  "sees_store s c \<longleftrightarrow> ctx_wf c \<and> global_get (global_keys c) = s
     \<and> ctx_security_state_version c = security_state_version s \<and> ctx_cipher_suite c = store_cipher_suite s"

definition lock_inv :: "('priv, 'sig) locked_store \<Rightarrow> bool" where
  "lock_inv s \<longleftrightarrow> store_wf (stored s)
     \<and> (\<forall>c \<in> set (readers s). sees_store (stored s) c \<and> \<not> writable c)
     \<and> (\<forall>c. writer s = Some c \<longrightarrow> readers s = [] \<and> sees_store (stored s) c \<and> writable c)"

end
