(* ===== verification/Key_Store_Laws.thy ===== *)
theory Key_Store_Laws
  imports Key_Store
begin

text \<open>
  The laws of the key store: the contract of a backend, what every operation of a context keeps,
  the operations on the three families of keys (proved once, for the shared code), wrapping and
  unwrapping, the parallel list operations, and the lock around the store.
\<close>


section \<open>The contract of a backend\<close>

locale store_backend =
  fixes new :: 'b
    and upsert :: "'k \<Rightarrow> 'v \<Rightarrow> 'b \<Rightarrow> 'b"
    and get :: "'b \<Rightarrow> 'k \<Rightarrow> 'v option"
    and remove :: "'k \<Rightarrow> 'b \<Rightarrow> 'b"
    and clear :: "'b \<Rightarrow> 'b"
    and retain :: "('k \<Rightarrow> bool) \<Rightarrow> 'b \<Rightarrow> 'b"
  assumes get_new: "get new k = None"
    and get_upsert: "get (upsert k v b) k' = (if k' = k then Some v else get b k')"
    and get_remove: "get (remove k b) k' = (if k' = k then None else get b k')"
    and get_clear: "get (clear b) k = None"
    and get_retain: "get (retain f b) k = (if f k then get b k else None)"
begin

lemmas get_simps = get_new get_upsert get_remove get_clear get_retain

lemma only_upsert: "\<forall>k v. get b k = Some v \<longrightarrow> P k \<Longrightarrow> P k \<Longrightarrow> \<forall>k' v'. get (upsert k v b) k' = Some v' \<longrightarrow> P k'"
  by (simp add: get_upsert)

lemma only_smaller:
  assumes "\<forall>k v. get b k = Some v \<longrightarrow> P k"
  shows "\<forall>k' v. get (remove k b) k' = Some v \<longrightarrow> P k'" and "\<forall>k v. get (retain f b) k = Some v \<longrightarrow> P k"
  using assms by (simp_all add: get_remove get_retain)

end

interpretation basic: store_backend backend_new backend_upsert backend_get backend_remove backend_clear backend_retain
  by unfold_locales
    (simp_all add: backend_new_def backend_upsert_def backend_get_def backend_remove_def
      backend_clear_def backend_retain_def)

lemma slots_ok_ops:
  "slots_ok P create_store"
  "slots_ok P (backend_clear b)"
  "slots_ok P b \<Longrightarrow> P k \<Longrightarrow> slots_ok P (backend_upsert k v b)"
  "slots_ok P b \<Longrightarrow> slots_ok P (backend_remove k b)"
  "slots_ok P b \<Longrightarrow> slots_ok P (backend_retain f b)"
proof -
  show "slots_ok P b \<Longrightarrow> P k \<Longrightarrow> slots_ok P (backend_upsert k v b)"
    unfolding slots_ok_def by (rule basic.only_upsert)
  show "slots_ok P b \<Longrightarrow> slots_ok P (backend_remove k b)"
    unfolding slots_ok_def by (rule basic.only_smaller(1))
  show "slots_ok P b \<Longrightarrow> slots_ok P (backend_retain f b)"
    unfolding slots_ok_def by (rule basic.only_smaller(2))
qed (simp_all add: slots_ok_def create_store_def basic.get_new basic.get_clear)

lemma backend_clear_new: "backend_clear b = backend_new" for b :: "('k, 'v) basic_backend"
  by (cases b) (simp add: backend_clear_def backend_new_def)


section \<open>What every operation of a context keeps\<close>

lemma update_global_eq:
  "update_global f c = (case global_keys c of
     ReadOnly s \<Rightarrow> (Err ReadOnlyKeyStore, c)
   | ReadWrite s \<Rightarrow> (Ok (), c\<lparr>global_keys := ReadWrite (f s)\<rparr>))"
  by (cases "global_keys c") (simp_all add: update_global_def)

named_theorems keeps_intros

lemma keepsD: "keeps f \<Longrightarrow> ctx_frame c (f c) \<and> (ctx_wf c \<longrightarrow> ctx_wf (f c))"
  by (simp add: keeps_def)

lemma keeps_id [keeps_intros]: "keeps (\<lambda>c. c)"
  by (auto simp: keeps_def ctx_frame_def split: global_keys.splits)

lemma ctx_frame_trans: "ctx_frame c d \<Longrightarrow> ctx_frame d e \<Longrightarrow> ctx_frame c e"
  by (auto simp: ctx_frame_def split: global_keys.splits)

lemma keeps_comp: "keeps f \<Longrightarrow> keeps g \<Longrightarrow> keeps (\<lambda>c. g (f c))"
  unfolding keeps_def using ctx_frame_trans by metis

lemma keeps_act_then [keeps_intros]:
  assumes "keeps (\<lambda>c. snd (m c))" and "\<And>x. keeps (\<lambda>c. snd (f x c))"
  shows "keeps (\<lambda>c. snd (act_then m f c))"
  unfolding keeps_def
proof
  fix c
  obtain r d where m: "m c = (r, d)" by fastforce
  then have d: "ctx_frame c d" "ctx_wf c \<longrightarrow> ctx_wf d" using keepsD [OF assms(1), of c] by simp_all
  show "ctx_frame c (snd (act_then m f c)) \<and> (ctx_wf c \<longrightarrow> ctx_wf (snd (act_then m f c)))"
  proof (cases r)
    case (Ok x)
    then have "snd (act_then m f c) = snd (f x d)" by (simp add: act_then_def m)
    moreover have "ctx_frame d (snd (f x d)) \<and> (ctx_wf d \<longrightarrow> ctx_wf (snd (f x d)))"
      by (rule keepsD [OF assms(2)])
    ultimately show ?thesis using d ctx_frame_trans [of c d "snd (f x d)"] by simp
  next
    case (Err e)
    with m d show ?thesis by (simp add: act_then_def)
  qed
qed

lemma keeps_read [keeps_intros]: "keeps (\<lambda>c. snd (act_read r c))"
  using keeps_id by (simp add: act_read_def)

lemma keeps_if [keeps_intros]: "keeps f \<Longrightarrow> keeps g \<Longrightarrow> keeps (\<lambda>c. if b then f c else g c)"
  by (cases b) simp_all

lemma keeps_local_updates [keeps_intros]:
  "symmetric_is_local k \<Longrightarrow> keeps (\<lambda>c. c\<lparr>local_symmetric_keys := backend_upsert k v (local_symmetric_keys c)\<rparr>)"
  "private_is_local k' \<Longrightarrow> keeps (\<lambda>c. c\<lparr>local_private_keys := backend_upsert k' v' (local_private_keys c)\<rparr>)"
  "signing_is_local k'' \<Longrightarrow> keeps (\<lambda>c. c\<lparr>local_signing_keys := backend_upsert k'' v'' (local_signing_keys c)\<rparr>)"
  "keeps (\<lambda>c. c\<lparr>local_symmetric_keys := backend_remove k (local_symmetric_keys c)\<rparr>)"
  "keeps (\<lambda>c. c\<lparr>local_private_keys := backend_remove k' (local_private_keys c)\<rparr>)"
  "keeps (\<lambda>c. c\<lparr>local_signing_keys := backend_remove k'' (local_signing_keys c)\<rparr>)"
  "keeps (\<lambda>c. c\<lparr>local_symmetric_keys := backend_retain f (local_symmetric_keys c)\<rparr>)"
  "keeps (\<lambda>c. c\<lparr>local_private_keys := backend_retain f' (local_private_keys c)\<rparr>)"
  by (simp_all add: keeps_def ctx_frame_def ctx_wf_def slots_ok_ops split: global_keys.splits)

lemma keeps_update_global:
  assumes "\<And>s. store_wf s \<Longrightarrow> store_wf (f s)"
    and "\<And>s. security_state_version (f s) = security_state_version s \<and> store_cipher_suite (f s) = store_cipher_suite s"
  shows "keeps (\<lambda>c. snd (update_global f c))"
  using assms by (auto simp: keeps_def update_global_eq ctx_frame_def ctx_wf_def split: global_keys.splits)

lemma keeps_global_updates [keeps_intros]:
  "\<not> symmetric_is_local k \<Longrightarrow> keeps (\<lambda>c. snd (update_global (\<lambda>s. s\<lparr>symmetric_keys := backend_upsert k v (symmetric_keys s)\<rparr>) c))"
  "\<not> private_is_local k' \<Longrightarrow> keeps (\<lambda>c. snd (update_global (\<lambda>s. s\<lparr>private_keys := backend_upsert k' v' (private_keys s)\<rparr>) c))"
  "\<not> signing_is_local k'' \<Longrightarrow> keeps (\<lambda>c. snd (update_global (\<lambda>s. s\<lparr>signing_keys := backend_upsert k'' v'' (signing_keys s)\<rparr>) c))"
  "keeps (\<lambda>c. snd (update_global (\<lambda>s. s\<lparr>symmetric_keys := backend_remove k (symmetric_keys s)\<rparr>) c))"
  "keeps (\<lambda>c. snd (update_global (\<lambda>s. s\<lparr>private_keys := backend_remove k' (private_keys s)\<rparr>) c))"
  "keeps (\<lambda>c. snd (update_global (\<lambda>s. s\<lparr>signing_keys := backend_remove k'' (signing_keys s)\<rparr>) c))"
  "keeps (\<lambda>c. snd (update_global (\<lambda>s. s\<lparr>symmetric_keys := backend_retain f (symmetric_keys s)\<rparr>) c))"
  "keeps (\<lambda>c. snd (update_global (\<lambda>s. s\<lparr>private_keys := backend_retain f' (private_keys s)\<rparr>) c))"
  by (rule keeps_update_global; simp add: store_wf_def slots_ok_ops)+

lemma keeps_set [keeps_intros]:
  "keeps (\<lambda>c. snd (set_symmetric_key k v c))"
  "keeps (\<lambda>c. snd (set_private_key k' v' c))"
  "keeps (\<lambda>c. snd (set_signing_key k'' v'' c))"
  unfolding set_symmetric_key_def set_private_key_def set_signing_key_def
  by (cases "symmetric_is_local k"; cases "private_is_local k'"; cases "signing_is_local k''";
      simp add: keeps_intros)+

lemma keeps_drop [keeps_intros]:
  "keeps (\<lambda>c. snd (drop_symmetric_key k c))"
  "keeps (\<lambda>c. snd (drop_private_key k' c))"
  "keeps (\<lambda>c. snd (drop_signing_key k'' c))"
  unfolding drop_symmetric_key_def drop_private_key_def drop_signing_key_def
  by (cases "symmetric_is_local k"; cases "private_is_local k'"; cases "signing_is_local k''";
      simp add: keeps_intros)+

lemma keeps_persist [keeps_intros]:
  "keeps (\<lambda>c. snd (persist_symmetric_key k to c))"
  "keeps (\<lambda>c. snd (persist_private_key k' to' c))"
  "keeps (\<lambda>c. snd (persist_signing_key k'' to'' c))"
  unfolding persist_symmetric_key_def persist_private_key_def persist_signing_key_def if_distrib [of snd] snd_conv
  by (intro keeps_intros)+

lemma new_local_is_local [simp]:
  "symmetric_is_local (symmetric_new_local l)" "private_is_local (private_new_local l)"
  "signing_is_local (signing_new_local l)"
  by (simp_all add: symmetric_new_local_def private_new_local_def signing_new_local_def)

lemma keeps_add_local [keeps_intros]:
  "keeps (\<lambda>c. snd (add_local_symmetric_key l v c))"
  "keeps (\<lambda>c. snd (add_local_private_key l v' c))"
  "keeps (\<lambda>c. snd (add_local_signing_key l v'' c))"
  by (simp_all add: add_local_symmetric_key_def add_local_private_key_def add_local_signing_key_def
      Let_def keeps_intros)

lemma keeps_make [keeps_intros]:
  "keeps (\<lambda>c. snd (generate_symmetric_key l enc mac c))"
  "keeps (\<lambda>c. snd (make_symmetric_key alg l enc mac kid c))"
  "keeps (\<lambda>c. snd (make_private_key l rsa c))"
  unfolding generate_symmetric_key_def make_symmetric_key_def make_private_key_def
  by (rule keeps_add_local)+

lemma keeps_pure [keeps_intros]: "keeps (\<lambda>c. snd (f c)) \<Longrightarrow> keeps (\<lambda>c. snd (act_pure f c))"
  by (simp add: act_pure_def split_beta Let_def)

lemma keeps_return [keeps_intros]: "keeps (\<lambda>c. snd (Ok x, c))"
  using keeps_id by simp

lemma keeps_wrapping [keeps_intros]:
  "keeps (\<lambda>c. snd (ctx_derive_shareable_key L l secret name info c))"
  "keeps (\<lambda>c. snd (unwrap_symmetric_key L l k wrapped c))"
  "keeps (\<lambda>c. snd (unwrap_private_key L R l k wrapped c))"
  unfolding ctx_derive_shareable_key_def unwrap_symmetric_key_def unwrap_private_key_def Let_def
  by (intro keeps_intros)+

lemma keeps_retain [keeps_intros]:
  "keeps (retain_symmetric_keys f)" "keeps (retain_private_keys f')"
  unfolding retain_symmetric_keys_def retain_private_keys_def Let_def
  by (rule keeps_comp [OF keeps_global_updates(7) keeps_local_updates(7)])
    (rule keeps_comp [OF keeps_global_updates(8) keeps_local_updates(8)])

lemma keeps_clear_local [keeps_intros]: "keeps clear_local"
  by (simp add: keeps_def clear_local_def ctx_frame_def ctx_wf_def slots_ok_ops split: global_keys.splits)

lemma ctx_step_keeps: "ctx_step c d \<Longrightarrow> ctx_frame c d \<and> (ctx_wf c \<longrightarrow> ctx_wf d)"
  by (induction rule: ctx_step.induct) (rule keeps_intros [THEN keepsD])+


section \<open>The three families of keys\<close>

text \<open>
  Symmetric, private and signing keys are handled by the same code.  The locale states it once:
  where a context and a store keep the keys of the family, and what the five operations do.
\<close>

locale slot_family =
  fixes is_local :: "'k \<Rightarrow> bool"
    and new_local :: "local_id \<Rightarrow> 'k"
    and slot :: "'k \<Rightarrow> slot_debug"
    and local_of :: "('priv, 'sig) key_store_context \<Rightarrow> ('k, 'v) basic_backend"
    and put_local :: "('k, 'v) basic_backend \<Rightarrow> ('priv, 'sig) key_store_context \<Rightarrow> ('priv, 'sig) key_store_context"
    and global_of :: "('priv, 'sig) key_store_inner \<Rightarrow> ('k, 'v) basic_backend"
    and put_global :: "('k, 'v) basic_backend \<Rightarrow> ('priv, 'sig) key_store_inner \<Rightarrow> ('priv, 'sig) key_store_inner"
    and get_key :: "('priv, 'sig) key_store_context \<Rightarrow> 'k \<Rightarrow> ('v, crypto_error) result"
    and set_key :: "'k \<Rightarrow> 'v \<Rightarrow> (('priv, 'sig) key_store_context, unit) action"
    and drop_key :: "'k \<Rightarrow> (('priv, 'sig) key_store_context, unit) action"
    and persist_key :: "'k \<Rightarrow> 'k \<Rightarrow> (('priv, 'sig) key_store_context, unit) action"
    and add_local_key :: "local_id \<Rightarrow> 'v \<Rightarrow> ('priv, 'sig) key_store_context \<Rightarrow> 'k \<times> ('priv, 'sig) key_store_context"
  assumes new_local: "is_local (new_local l)"
    and local_put_local: "local_of (put_local b c) = b"
    and local_put_store: "local_of (c\<lparr>global_keys := g\<rparr>) = local_of c"
    and store_put_local: "global_keys (put_local b c) = global_keys c"
    and global_put_global: "global_of (put_global b s) = b"
    and get_key_eq: "get_key c k = ok_or (MissingKeyId (slot k))
          (backend_get (if is_local k then local_of c else global_of (global_get (global_keys c))) k)"
    and set_key_eq: "set_key k v c = (if is_local k then (Ok (), put_local (backend_upsert k v (local_of c)) c)
          else update_global (\<lambda>s. put_global (backend_upsert k v (global_of s)) s) c)"
    and drop_key_eq: "drop_key k c = (if is_local k then (Ok (), put_local (backend_remove k (local_of c)) c)
          else update_global (\<lambda>s. put_global (backend_remove k (global_of s)) s) c)"
    and persist_key_eq: "persist_key k k' c =
          (if \<not> is_local k \<or> is_local k' then (Err InvalidKeyStoreOperation, c)
           else act_then (act_read (\<lambda>c. get_key c k)) (\<lambda>v. act_then (drop_key k) (\<lambda>_. set_key k' v)) c)"
    and add_local_key_eq: "add_local_key l v c = (new_local l, put_local (backend_upsert (new_local l) v (local_of c)) c)"
begin

lemmas family_eqs = local_put_local local_put_store store_put_local global_put_global

lemma set_key_result: "fst (set_key k v c) = (if is_local k \<or> writable c then Ok () else Err ReadOnlyKeyStore)"
  by (simp add: set_key_eq update_global_eq writable_def split: global_keys.splits)

lemma set_key_failed: "fst (set_key k v c) = Err e \<Longrightarrow> snd (set_key k v c) = c"
  by (simp add: set_key_eq update_global_eq split: global_keys.splits if_splits)

lemma get_after_set:
  "fst (set_key k v c) = Ok () \<Longrightarrow> get_key (snd (set_key k v c)) k' = (if k' = k then Ok v else get_key c k')"
  by (auto simp: set_key_eq get_key_eq update_global_eq family_eqs basic.get_upsert split: global_keys.splits if_splits)

lemma get_after_drop:
  "fst (drop_key k c) = Ok () \<Longrightarrow>
   get_key (snd (drop_key k c)) k' = (if k' = k then Err (MissingKeyId (slot k)) else get_key c k')"
  by (auto simp: drop_key_eq get_key_eq update_global_eq family_eqs basic.get_remove split: global_keys.splits if_splits)

lemma drop_local: "is_local k \<Longrightarrow> fst (drop_key k c) = Ok () \<and> writable (snd (drop_key k c)) = writable c"
  by (simp add: drop_key_eq writable_def store_put_local)

lemma get_after_add_local:
  "add_local_key l v c = (k, d) \<Longrightarrow> k = new_local l \<and> get_key d k' = (if k' = k then Ok v else get_key c k')"
  by (auto simp: add_local_key_eq get_key_eq family_eqs basic.get_upsert new_local split: if_splits)

text \<open>Moving a local key to the store: all outcomes.\<close>

lemma persist_key_cases:
  "persist_key k k' c =
     (if \<not> is_local k \<or> is_local k' then (Err InvalidKeyStoreOperation, c)
      else case get_key c k of
        Err e \<Rightarrow> (Err e, c)
      | Ok v \<Rightarrow> if writable c then set_key k' v (snd (drop_key k c)) else (Err ReadOnlyKeyStore, snd (drop_key k c)))"
proof (cases "\<not> is_local k \<or> is_local k'")
  case True
  then show ?thesis by (simp add: persist_key_eq)
next
  case loc: False
  show ?thesis
  proof (cases "get_key c k")
    case (Ok v)
    have "drop_key k c = (Ok (), snd (drop_key k c))" using drop_local [of k c] loc by (metis prod.collapse)
    then have p: "persist_key k k' c = set_key k' v (snd (drop_key k c))"
      using loc Ok by (auto simp: persist_key_eq act_then_def act_read_def split: prod.splits)
    have "set_key k' v d = (Err ReadOnlyKeyStore, d)" if "\<not> writable d" for d
      using set_key_result [of k' v d] set_key_failed [of k' v d] that loc by (metis prod.collapse)
    then show ?thesis using p loc Ok drop_local [of k c] by simp
  next
    case (Err e)
    then show ?thesis using loc by (simp add: persist_key_eq act_then_def act_read_def)
  qed
qed

lemma get_after_persist:
  assumes "is_local k" "\<not> is_local k'" "get_key c k = Ok v" "writable c"
  shows "fst (persist_key k k' c) = Ok ()"
    and "get_key (snd (persist_key k k' c)) j =
      (if j = k' then Ok v else if j = k then Err (MissingKeyId (slot k)) else get_key c j)"
proof -
  let ?d = "snd (drop_key k c)"
  have p: "persist_key k k' c = set_key k' v ?d" using assms by (simp add: persist_key_cases)
  moreover have s: "fst (set_key k' v ?d) = Ok ()"
    using assms drop_local [of k c] by (simp add: set_key_result)
  ultimately show "fst (persist_key k k' c) = Ok ()" by simp
  show "get_key (snd (persist_key k k' c)) j =
      (if j = k' then Ok v else if j = k then Err (MissingKeyId (slot k)) else get_key c j)"
    using get_after_set [OF s, of j] get_after_drop [of k c j] drop_local [OF assms(1)] p by simp
qed

lemma persist_read_only:
  assumes "is_local k" "\<not> is_local k'" "get_key c k = Ok v" "\<not> writable c"
  shows "fst (persist_key k k' c) = Err ReadOnlyKeyStore"
    and "get_key (snd (persist_key k k' c)) k = Err (MissingKeyId (slot k))"
  using assms get_after_drop [of k c k] drop_local [OF assms(1)] by (simp_all add: persist_key_cases)

end

interpretation symm: slot_family symmetric_is_local symmetric_new_local SymmetricSlot
  local_symmetric_keys "\<lambda>b c. c\<lparr>local_symmetric_keys := b\<rparr>" symmetric_keys "\<lambda>b s. s\<lparr>symmetric_keys := b\<rparr>"
  get_symmetric_key set_symmetric_key drop_symmetric_key persist_symmetric_key add_local_symmetric_key
  by unfold_locales
    (simp_all add: get_symmetric_key_def set_symmetric_key_def drop_symmetric_key_def
      persist_symmetric_key_def add_local_symmetric_key_def Let_def)

interpretation priv: slot_family private_is_local private_new_local PrivateSlot
  local_private_keys "\<lambda>b c. c\<lparr>local_private_keys := b\<rparr>" private_keys "\<lambda>b s. s\<lparr>private_keys := b\<rparr>"
  get_private_key set_private_key drop_private_key persist_private_key add_local_private_key
  by unfold_locales
    (simp_all add: get_private_key_def set_private_key_def drop_private_key_def
      persist_private_key_def add_local_private_key_def Let_def)

interpretation sign: slot_family signing_is_local signing_new_local SigningSlot
  local_signing_keys "\<lambda>b c. c\<lparr>local_signing_keys := b\<rparr>" signing_keys "\<lambda>b s. s\<lparr>signing_keys := b\<rparr>"
  get_signing_key set_signing_key drop_signing_key persist_signing_key add_local_signing_key
  by unfold_locales
    (simp_all add: get_signing_key_def set_signing_key_def drop_signing_key_def
      persist_signing_key_def add_local_signing_key_def Let_def)


section \<open>Wrapping keys\<close>

lemma encrypt_data_eq:
  "get_symmetric_key c k = Ok key \<Longrightarrow>
   encrypt_data_with_symmetric_key L c k data f nonce = encrypt_with_key L data key f nonce"
  by (cases key) (simp_all add: encrypt_data_with_symmetric_key_def encrypt_with_key_def)


lemma unwrapped_encoded:
  assumes "crypto_lib_ok L" "symmetric_key_wf key"
  shows "unwrapped_symmetric_key L (encoded_into_vec (to_encoded_raw L key), encoded_content_format (to_encoded_raw L key))
    = Ok (normalize_ops key)"
proof (cases "to_encoded_raw L key")
  case (EncodedLegacyKey k)
  then have "to_encoded L key = k" by (simp add: to_encoded_def)
  with EncodedLegacyKey try_from_legacy_to_encoded [OF assms] show ?thesis
    by (simp add: unwrapped_symmetric_key_def)
next
  case (EncodedCoseKey k)
  with try_from_encoded_raw [OF assms] show ?thesis by (simp add: unwrapped_symmetric_key_def)
qed

lemma encoded_format_readable: "\<not> unreadable_format (encoded_content_format e)"
  by (cases e) (simp_all add: unreadable_format_def)

lemma wrap_decrypts:
  assumes "crypto_lib_ok L" "symmetric_key_wf wk" "symmetric_key_wf key" "can_encrypt wk"
    and "length nonce = enc_string_nonce_size wk"
    and "get_symmetric_key c w = Ok wk" "get_symmetric_key c k = Ok key"
  shows "\<exists>e. wrap_symmetric_key L c w k nonce = Ok e
     \<and> decrypt_wrapped_symmetric_key L e wk = Ok (normalize_ops key)"
proof (cases wk)
  case (Aes256CbcHmacKey x)
  then have "length x = 64" "length nonce = 16" using assms(2,5) by (simp_all add: key_sizes)
  from decrypt_legacy_encrypted [OF assms(1) this, of "to_encoded L key"]
  obtain mac data where "encrypt_aes256_hmac L (to_encoded L key) x nonce = Ok (Aes256Cbc_HmacSha256_B64 nonce mac data)"
    "decrypt_with_key L (Aes256Cbc_HmacSha256_B64 nonce mac data) (Aes256CbcHmacKey x) = Ok (to_encoded L key)"
    by auto
  then show ?thesis
    using assms(6,7) Aes256CbcHmacKey try_from_legacy_to_encoded [OF assms(1,3)]
    by (simp add: wrap_symmetric_key_def encrypt_data_eq encrypt_with_key_def decrypt_with_key_def
        decrypt_wrapped_symmetric_key_def)
next
  case (XChaCha20Poly1305Key x)
  then have "length (aead_enc_key x) = 32" "length nonce = 24" using assms(2,5) by (simp_all add: aead_key_wf_def)
  from xchacha_message_roundtrip [OF assms(1) this, of "encoded_into_vec (to_encoded_raw L key)"
      "encoded_content_format (to_encoded_raw L key)"]
  obtain bs where "encrypt_xchacha20_poly1305 L (encoded_into_vec (to_encoded_raw L key)) x
      (encoded_content_format (to_encoded_raw L key)) nonce = Ok bs"
    "decrypt_xchacha20_poly1305 L bs x =
       Ok (encoded_into_vec (to_encoded_raw L key), encoded_content_format (to_encoded_raw L key))"
    by (auto simp: encoded_format_readable aead_key_ct_eq_def)
  then show ?thesis
    using assms(4,6,7) XChaCha20Poly1305Key unwrapped_encoded [OF assms(1,3)]
    by (simp add: wrap_symmetric_key_def Let_def encrypt_data_eq encrypt_with_key_def
        enc_string_encrypt_xchacha20_poly1305_def decrypt_wrapped_symmetric_key_def)
next
  case (XAes256GcmKey x)
  then have "length (aead_enc_key x) = 32" "length nonce = 24" using assms(2,5) by (simp_all add: aead_key_wf_def)
  from xaes_message_roundtrip [OF assms(1) this, of "encoded_into_vec (to_encoded_raw L key)"
      "encoded_content_format (to_encoded_raw L key)"]
  obtain bs where "encrypt_xaes256_gcm L (encoded_into_vec (to_encoded_raw L key)) x
      (encoded_content_format (to_encoded_raw L key)) nonce = Ok bs"
    "decrypt_xaes256_gcm L bs x =
       Ok (encoded_into_vec (to_encoded_raw L key), encoded_content_format (to_encoded_raw L key))"
    by (auto simp: encoded_format_readable aead_key_ct_eq_def)
  then show ?thesis
    using assms(4,6,7) XAes256GcmKey unwrapped_encoded [OF assms(1,3)]
    by (simp add: wrap_symmetric_key_def Let_def encrypt_data_eq encrypt_with_key_def
        enc_string_encrypt_xaes256_gcm_def decrypt_wrapped_symmetric_key_def)
qed (use assms(4) in simp_all)

lemma unwrap_stores:
  assumes "get_symmetric_key c w = Ok wk" "decrypt_wrapped_symmetric_key L e wk = Ok key"
  shows "fst (unwrap_symmetric_key L l w e c) = Ok (symmetric_new_local l)"
    and "get_symmetric_key (snd (unwrap_symmetric_key L l w e c)) j =
      (if j = symmetric_new_local l then Ok key else get_symmetric_key c j)"
proof -
  let ?k = "symmetric_new_local l"
  have ok: "fst (set_symmetric_key ?k key c) = Ok ()" by (simp add: symm.set_key_result)
  then obtain d where d: "set_symmetric_key ?k key c = (Ok (), d)" by (metis prod.collapse)
  then have "unwrap_symmetric_key L l w e c = (Ok ?k, d)"
    using assms by (simp add: unwrap_symmetric_key_def act_then_def act_read_def Let_def)
  then show "fst (unwrap_symmetric_key L l w e c) = Ok ?k"
    and "get_symmetric_key (snd (unwrap_symmetric_key L l w e c)) j = (if j = ?k then Ok key else get_symmetric_key c j)"
    using symm.get_after_set [OF ok, of j] d by simp_all
qed

section \<open>The list operations\<close>

lemma errors_of_Nil: "errors_of rs = [] \<longleftrightarrow> rs = map Ok (oks_of rs)"
  by (induction rs rule: errors_of.induct) auto

lemma oks_of_map_Ok [simp]: "oks_of (map Ok xs) = xs" "errors_of (map Ok xs) = []"
  by (induction xs) simp_all

lemma set_errors_of: "set (errors_of rs) = {e. Err e \<in> set rs}"
  by (induction rs rule: errors_of.induct) auto

lemma par_collect_Ok: "par_collect n rs = Ok xs \<longleftrightarrow> rs = map Ok xs"
  by (auto simp: par_collect_def Let_def errors_of_Nil split: if_splits)

lemma par_collect_Err: "par_collect n rs = Err e \<Longrightarrow> Err e \<in> set rs"
  using nth_mem [of "n mod length (errors_of rs)" "errors_of rs"]
  by (auto simp: par_collect_def Let_def set_errors_of split: if_splits)

lemma clear_local_fresh: "ctx_frame (context_ro s) c \<Longrightarrow> clear_local c = context_ro s"
  by (cases c) (simp add: ctx_frame_def context_ro_def clear_local_def backend_clear_new create_store_def)

lemma ctx_steps_keep: "ctx_steps c d \<Longrightarrow> ctx_frame c d \<and> (ctx_wf c \<longrightarrow> ctx_wf d)"
proof (induction rule: rtranclp_induct)
  case base
  show ?case using keepsD [OF keeps_id, of c] by simp
next
  case (step d e)
  then show ?case using ctx_step_keeps [of d e] ctx_frame_trans [of c d e] by blast
qed

lemma run_chunk_fresh:
  assumes "\<And>item k c. ctx_frame c (snd (op item k c))"
  shows "run_chunk kid op (context_ro s) items = map (\<lambda>item. fst (op item (kid item) (context_ro s))) items"
proof (induction items)
  case Nil
  show ?case by simp
next
  case (Cons item items)
  have "clear_local (snd (op item (kid item) (context_ro s))) = context_ro s"
    by (rule clear_local_fresh [OF assms])
  with Cons.IH show ?case by (simp add: split_beta)
qed

lemma run_chunks_sequential:
  assumes "\<And>item k c. ctx_frame c (snd (op item k c))"
  shows "run_chunks n kid op s items = map (\<lambda>item. fst (op item (kid item) (context_ro s))) items"
proof -
  have "0 < batch_chunk_size n (length items)"
    by (simp add: batch_chunk_size_def MINIMUM_CHUNK_SIZE_def Let_def)
  then have "concat (chunks (batch_chunk_size n (length items)) items) = items" by (rule concat_chunks)
  moreover have "run_chunk kid op (context_ro s) = map (\<lambda>item. fst (op item (kid item) (context_ro s)))"
    by (rule ext) (rule run_chunk_fresh [OF assms])
  ultimately show ?thesis unfolding run_chunks_def by (simp only: map_concat [symmetric])
qed

lemma tag_results: "map2 g xs (map f xs) = map (\<lambda>x. g x (f x)) xs"
  by (induction xs) simp_all

lemma oks_of_tagged: "oks_of (map (\<lambda>x. map_err (\<lambda>_. x) (f x)) xs) = oks_of (map f xs)"
proof (induction xs)
  case (Cons x xs)
  then show ?case by (cases "f x") simp_all
qed simp

lemma errors_of_tagged:
  "errors_of (map (\<lambda>x. map_err (\<lambda>_. x) (f x)) xs) = filter (\<lambda>x. \<not> is_ok (f x)) xs"
proof (induction xs)
  case (Cons x xs)
  then show ?case by (cases "f x") simp_all
qed simp

section \<open>The lock\<close>

lemma sees_store_step:
  assumes "ctx_step c d" "sees_store s c" "\<not> writable c"
  shows "sees_store s d \<and> \<not> writable d"
  using ctx_step_keeps [OF assms(1)] assms(2,3)
  by (auto simp: sees_store_def writable_def ctx_frame_def split: global_keys.splits)

lemma sees_store_write:
  assumes "ctx_step c d" "sees_store s c" "writable c"
  shows "sees_store (global_get (global_keys d)) d \<and> writable d"
  using ctx_step_keeps [OF assms(1)] assms(2,3)
  by (auto simp: sees_store_def writable_def ctx_frame_def split: global_keys.splits)

lemma context_ro_sees: "store_wf s \<Longrightarrow> sees_store s (context_ro s) \<and> \<not> writable (context_ro s)"
  by (simp add: sees_store_def context_ro_def ctx_wf_def writable_def slots_ok_ops)

lemma context_mut_sees: "store_wf s \<Longrightarrow> sees_store s (context_mut s) \<and> writable (context_mut s)"
  by (simp add: sees_store_def context_mut_def ctx_wf_def writable_def slots_ok_ops)

lemma store_wf_ops:
  "store_wf key_store_default" "store_wf (key_store_clear s)"
  "store_wf s \<Longrightarrow> store_wf (set_security_state_version v s)"
  "store_wf s \<Longrightarrow> store_wf (set_cipher_suite suite s)"
  by (simp_all add: store_wf_def key_store_default_def key_store_clear_def set_security_state_version_def
      set_cipher_suite_def slots_ok_ops)

lemma store_step_inv: "store_step s t \<Longrightarrow> lock_inv s \<Longrightarrow> lock_inv t"
proof (induction rule: store_step.induct)
  case (open_reader s)
  then show ?case using context_ro_sees [of "stored s"] by (simp add: lock_inv_def)
next
  case (open_writer s)
  then show ?case using context_mut_sees [of "stored s"] by (simp add: lock_inv_def lock_free_def)
next
  case (reader_step i s d)
  then have "sees_store (stored s) (readers s ! i)" "\<not> writable (readers s ! i)" by (simp_all add: lock_inv_def)
  then have "sees_store (stored s) d \<and> \<not> writable d" by (rule sees_store_step [OF reader_step(2)])
  then have "\<forall>c \<in> set ((readers s)[i := d]). sees_store (stored s) c \<and> \<not> writable c"
    using reader_step(3) set_update_subset_insert [of "readers s" i d] by (auto simp: lock_inv_def)
  then show ?case using reader_step(1,3) by (auto simp: lock_inv_def)
next
  case (writer_step s c d)
  then have "sees_store (stored s) c" "writable c" by (simp_all add: lock_inv_def)
  then have "sees_store (global_get (global_keys d)) d \<and> writable d" by (rule sees_store_write [OF writer_step(2)])
  then show ?case using writer_step(1,3) by (simp add: lock_inv_def sees_store_def ctx_wf_def)
next
  case (close_reader s cs c ds)
  then show ?case by (auto simp: lock_inv_def)
qed (auto simp: lock_inv_def lock_free_def store_wf_ops)

lemma store_reachable_inv: "store_step\<^sup>*\<^sup>* store_init s \<Longrightarrow> lock_inv s"
proof (induction rule: rtranclp_induct)
  case base
  show ?case by (simp add: lock_inv_def store_init_def store_wf_ops)
next
  case (step s t)
  then show ?case by (blast intro: store_step_inv)
qed


section \<open>Properties\<close>

text \<open>C25: A key of a context, wrapped with another key of the context that may encrypt, is unwrapped
  with the same wrapping key into a new local slot; it is the same key with its operations in
  registry order, and no other slot changes.\<close>

theorem key_wrap_roundtrip:
  assumes "crypto_lib_ok L" "get_symmetric_key c w = Ok wk" "get_symmetric_key c k = Ok key"
    and "symmetric_key_wf wk" "symmetric_key_wf key" "can_encrypt wk" "length nonce = enc_string_nonce_size wk"
  shows "\<exists>e. wrap_symmetric_key L c w k nonce = Ok e
     \<and> fst (unwrap_symmetric_key L l w e c) = Ok (symmetric_new_local l)
     \<and> (\<forall>j. get_symmetric_key (snd (unwrap_symmetric_key L l w e c)) j =
          (if j = symmetric_new_local l then Ok (normalize_ops key) else get_symmetric_key c j))"
proof -
  obtain e where "wrap_symmetric_key L c w k nonce = Ok e"
    "decrypt_wrapped_symmetric_key L e wk = Ok (normalize_ops key)"
    using wrap_decrypts [OF assms(1,4-7,2,3)] by blast
  then show ?thesis using unwrap_stores [OF assms(2), of L e "normalize_ops key" l] by auto
qed

theorem key_wrap_roundtrip_witness:
  "\<exists>c :: (u8, unit) key_store_context. \<exists>e. get_symmetric_key c User = Ok (XAes256GcmKey (aead_key_make (replicate 32 1) (replicate 16 2)))
     \<and> wrap_symmetric_key crypto_ref c User Master (replicate 24 0) = Ok e
     \<and> get_symmetric_key (snd (unwrap_symmetric_key crypto_ref (LocalId 7) User e c)) (symmetric_key_slot_id.Local (LocalId 7))
         = Ok (Aes256CbcHmacKey (replicate 64 3))"
proof -
  define wk where "wk = XAes256GcmKey (aead_key_make (replicate 32 1) (replicate 16 2))"
  define c :: "(u8, unit) key_store_context" where "c = snd (set_symmetric_key User wk
    (snd (set_symmetric_key Master (Aes256CbcHmacKey (replicate 64 3)) (context_mut key_store_default))))"
  have c: "get_symmetric_key c User = Ok wk" "get_symmetric_key c Master = Ok (Aes256CbcHmacKey (replicate 64 3))"
    by (simp_all add: c_def set_symmetric_key_def get_symmetric_key_def update_global_eq context_mut_def
        basic.get_upsert)
  moreover have "symmetric_key_wf wk" "can_encrypt wk" "enc_string_nonce_size wk = 24"
    by (simp_all add: wk_def aead_key_make_def aead_key_wf_def KEY_ID_SIZE_def)
  ultimately show ?thesis
    using key_wrap_roundtrip [OF crypto_ref_ok c, of "replicate 24 0" "LocalId 7"]
    unfolding wk_def [symmetric] symmetric_new_local_def [symmetric]
    by (intro exI [of _ c]) (auto simp: key_sizes)
qed

text \<open>C36: Moving a local key to the store.  With write access the key is afterwards in its new slot
  and no longer in the old one, and all other slots are as before; without write access the
  operation fails and the local key is lost.\<close>

theorem persist_outcome:
  assumes "symmetric_is_local k" "\<not> symmetric_is_local k'" "get_symmetric_key c k = Ok v"
  shows "if writable c
     then fst (persist_symmetric_key k k' c) = Ok ()
       \<and> (\<forall>j. get_symmetric_key (snd (persist_symmetric_key k k' c)) j =
            (if j = k' then Ok v else if j = k then Err (MissingKeyId (SymmetricSlot k)) else get_symmetric_key c j))
     else fst (persist_symmetric_key k k' c) = Err ReadOnlyKeyStore
       \<and> get_symmetric_key (snd (persist_symmetric_key k k' c)) k = Err (MissingKeyId (SymmetricSlot k))"
  using symm.get_after_persist [OF assms] symm.persist_read_only [OF assms] by simp

theorem persist_outcome_witness:
  "fst (persist_symmetric_key (symmetric_key_slot_id.Local (LocalId 1)) User
     (snd (add_local_symmetric_key (LocalId 1) (Aes256CbcKey []) (context_ro (key_store_default :: (u8, unit) key_store_inner)))))
   = Err ReadOnlyKeyStore"
  using persist_outcome [of "symmetric_key_slot_id.Local (LocalId 1)" User
      "snd (add_local_symmetric_key (LocalId 1) (Aes256CbcKey []) (context_ro (key_store_default :: (u8, unit) key_store_inner)))"
      "Aes256CbcKey []"]
  by (simp add: add_local_symmetric_key_def get_symmetric_key_def context_ro_def writable_def
      symmetric_new_local_def basic.get_upsert Let_def)

text \<open>C5: Whatever the threads do with contexts and with the store, readers and a writer are never open
  together; every open context sees the current keys, security version and cipher suite of the
  store; and local slots are only ever in contexts, all other slots only in the store.\<close>

theorem store_lock_invariant:
  assumes "store_step\<^sup>*\<^sup>* store_init s"
  shows "lock_inv s"
  by (rule store_reachable_inv [OF assms])

theorem store_lock_invariant_witness:
  "lock_inv (store_init\<lparr>writer := Some (context_mut (key_store_default :: (u8, unit) key_store_inner))\<rparr>)"
proof -
  have "store_step (store_init :: (u8, unit) locked_store) (store_init\<lparr>writer := Some (context_mut (stored store_init))\<rparr>)"
    by (rule open_writer) (simp add: lock_free_def store_init_def)
  then have "store_step\<^sup>*\<^sup>* (store_init :: (u8, unit) locked_store) (store_init\<lparr>writer := Some (context_mut key_store_default)\<rparr>)"
    by (simp add: store_init_def)
  then show ?thesis by (rule store_lock_invariant)
qed

text \<open>A run of operations on a read-only context never changes what the context sees of the
  store, whether they succeed or fail.\<close>

theorem read_only_context_is_read_only:
  assumes "ctx_steps (context_ro s) c"
  shows "global_keys c = ReadOnly s \<and> ctx_security_state_version c = security_state_version s
     \<and> ctx_cipher_suite c = store_cipher_suite s \<and> clear_local c = context_ro s"
  using ctx_steps_keep [OF assms] clear_local_fresh [of s c] by (simp add: ctx_frame_def context_ro_def)

theorem read_only_context_is_read_only_witness:
  "global_keys (snd (set_symmetric_key User (Aes256CbcKey []) (context_ro (key_store_default :: (u8, unit) key_store_inner))))
     = ReadOnly key_store_default"
  using read_only_context_is_read_only [of "key_store_default :: (u8, unit) key_store_inner"
      "snd (set_symmetric_key User (Aes256CbcKey []) (context_ro key_store_default))"]
  by (simp add: r_into_rtranclp set_symmetric_step)

text \<open>C9: The parallel list operations do the same as handling the items one by one, each in a fresh
  context: they succeed exactly when every item does, with the outputs in order; the error they
  report is the error of an item; and the variant that keeps failures returns the outputs of the
  good items and the items that failed, both in order.  The items act on a context only by its
  operations.\<close>

theorem list_operations_are_itemwise:
  assumes "\<And>item k c. ctx_steps c (snd (op item k c))"
  shows "(decrypt_list n sched kid op s items = Ok outs \<longleftrightarrow> map (store_decrypt kid op s) items = map Ok outs)
     \<and> (decrypt_list n sched kid op s items = Err e \<longrightarrow> (\<exists>item \<in> set items. store_decrypt kid op s item = Err e))
     \<and> decrypt_list_with_failures n kid op s items =
         (oks_of (map (store_decrypt kid op s) items), filter (\<lambda>item. \<not> is_ok (store_decrypt kid op s item)) items)"
proof -
  have "run_chunks n kid op s items = map (store_decrypt kid op s) items"
    using run_chunks_sequential [of op n kid s items] ctx_steps_keep [OF assms]
    by (simp add: store_decrypt_def [abs_def])
  then show ?thesis
    using par_collect_Err [of sched "map (store_decrypt kid op s) items" e]
    by (simp add: decrypt_list_def decrypt_list_with_failures_def par_collect_Ok tag_results
        oks_of_tagged errors_of_tagged Let_def) (metis imageE)
qed

theorem list_operations_are_itemwise_witness:
  "\<exists>s :: (u8, unit) key_store_inner. \<exists>e. decrypt_list 4 0 snd (\<lambda>item. decrypt_bytes crypto_ref (fst item)) s
     [(e, User), (e, User)] = Ok [[1, 2], [1, 2]]"
proof -
  define s :: "(u8, unit) key_store_inner" where "s = key_store_default
    \<lparr>symmetric_keys := backend_upsert User (Aes256CbcHmacKey (replicate 64 3)) create_store\<rparr>"
  obtain mac data where d: "decrypt_with_key crypto_ref (Aes256Cbc_HmacSha256_B64 (replicate 16 0) mac data)
      (Aes256CbcHmacKey (replicate 64 3)) = Ok [1, 2]"
    using decrypt_legacy_encrypted [OF crypto_ref_ok, of "replicate 64 3" "replicate 16 0" "[1, 2]"] by auto
  define e where "e = Aes256Cbc_HmacSha256_B64 (replicate 16 0) mac data"
  let ?op = "\<lambda>item. decrypt_bytes crypto_ref (fst item) ::
    symmetric_key_slot_id \<Rightarrow> ((u8, unit) key_store_context, bytes) action"
  have "store_decrypt snd ?op s (e, User) = Ok [1, 2]"
    using d by (simp add: store_decrypt_def decrypt_bytes_def act_read_def decrypt_data_with_symmetric_key_def
        get_symmetric_key_def context_ro_def s_def basic.get_upsert e_def decrypt_with_key_def)
  then have "decrypt_list 4 0 snd ?op s [(e, User), (e, User)] = Ok [[1, 2], [1, 2]]"
    using list_operations_are_itemwise [of ?op 4 0 snd s "[(e, User), (e, User)]" "[[1, 2], [1, 2]]"]
    by (simp add: decrypt_bytes_def act_read_def)
  then show ?thesis by blast
qed

text \<open>Clearing a store gives a new store except for the security version and the cipher suite,
  which keep their values.\<close>

theorem clear_keeps_settings:
  "key_store_clear s = key_store_default
     \<lparr>security_state_version := security_state_version s, store_cipher_suite := store_cipher_suite s\<rparr>
   \<and> (key_store_clear s = key_store_default \<longleftrightarrow>
        security_state_version s = 1 \<and> store_cipher_suite s = cipher_suite_default)"
  by (cases s) (auto simp: key_store_clear_def key_store_default_def backend_clear_new create_store_def)

end
