(* ===== verification/Envelope_Headers.thy ===== *)
theory Envelope_Headers
  imports Key_Store_Laws
begin

text \<open>
  What the safe envelopes share (\<open>crates/bitwarden-crypto/src/safe\<close>): the object and content
  namespaces in a protected header (\<open>helpers.rs\<close>), the content namespaces of the four
  envelopes, the contained key id and the decoding of a sealed key (\<open>mod.rs\<close>), and the key
  hierarchy (\<open>key_hierarchy\<close>).  The \<open>ContentNamespace\<close> trait is the record
  \<open>content_namespace\<close>; its contract is the locale \<open>namespaced\<close>, which every envelope's
  namespace interprets.
\<close>

section \<open>Content namespaces\<close>

record 'n content_namespace =
  ns_try_from :: "int \<Rightarrow> 'n option"
  ns_into :: "'n \<Rightarrow> int"

datatype data_envelope_namespace =
    VaultItem
  | DataOrganizationInvite
  | RegistrationOpenOrgInviteData
  | PamTargetSystem
  | PamRotationConfig

definition data_envelope_namespace_try_from :: "int \<Rightarrow> data_envelope_namespace option" where
  "data_envelope_namespace_try_from value =
     (if value = 1 then Some VaultItem
      else if value = 2 then Some DataOrganizationInvite
      else if value = 3 then Some RegistrationOpenOrgInviteData
      else if value = 4 then Some PamTargetSystem
      else if value = 5 then Some PamRotationConfig
      else None)"

primrec data_envelope_namespace_as_i64 :: "data_envelope_namespace \<Rightarrow> int" where
  "data_envelope_namespace_as_i64 VaultItem = 1"
| "data_envelope_namespace_as_i64 DataOrganizationInvite = 2"
| "data_envelope_namespace_as_i64 RegistrationOpenOrgInviteData = 3"
| "data_envelope_namespace_as_i64 PamTargetSystem = 4"
| "data_envelope_namespace_as_i64 PamRotationConfig = 5"

definition data_namespaces :: "data_envelope_namespace content_namespace" where
  "data_namespaces =
     \<lparr>ns_try_from = data_envelope_namespace_try_from, ns_into = data_envelope_namespace_as_i64\<rparr>"

datatype symmetric_key_envelope_namespace = SessionKey | KeyOrganizationInvite

definition symmetric_key_envelope_namespace_try_from :: "int \<Rightarrow> symmetric_key_envelope_namespace option" where
  "symmetric_key_envelope_namespace_try_from value =
     (if value = 1 then Some SessionKey
      else if value = 2 then Some KeyOrganizationInvite
      else None)"

primrec symmetric_key_envelope_namespace_as_i64 :: "symmetric_key_envelope_namespace \<Rightarrow> int" where
  "symmetric_key_envelope_namespace_as_i64 SessionKey = 1"
| "symmetric_key_envelope_namespace_as_i64 KeyOrganizationInvite = 2"

definition symmetric_key_namespaces :: "symmetric_key_envelope_namespace content_namespace" where
  "symmetric_key_namespaces =
     \<lparr>ns_try_from = symmetric_key_envelope_namespace_try_from,
      ns_into = symmetric_key_envelope_namespace_as_i64\<rparr>"

datatype password_protected_key_envelope_namespace = PinUnlock

definition password_protected_key_envelope_namespace_try_from ::
  "int \<Rightarrow> password_protected_key_envelope_namespace option" where
  "password_protected_key_envelope_namespace_try_from value =
     (if value = 1 then Some PinUnlock else None)"

primrec password_protected_key_envelope_namespace_as_i64 ::
  "password_protected_key_envelope_namespace \<Rightarrow> int" where
  "password_protected_key_envelope_namespace_as_i64 PinUnlock = 1"

definition password_namespaces :: "password_protected_key_envelope_namespace content_namespace" where
  "password_namespaces =
     \<lparr>ns_try_from = password_protected_key_envelope_namespace_try_from,
      ns_into = password_protected_key_envelope_namespace_as_i64\<rparr>"

datatype secret_protected_key_envelope_namespace =
    SecretOrganizationInvite
  | DesktopBiometricUnlock
  | RegistrationOpenOrgInvite

definition secret_protected_key_envelope_namespace_try_from ::
  "int \<Rightarrow> secret_protected_key_envelope_namespace option" where
  "secret_protected_key_envelope_namespace_try_from value =
     (if value = 1 then Some SecretOrganizationInvite
      else if value = 2 then Some DesktopBiometricUnlock
      else if value = 3 then Some RegistrationOpenOrgInvite
      else None)"

primrec secret_protected_key_envelope_namespace_as_i64 ::
  "secret_protected_key_envelope_namespace \<Rightarrow> int" where
  "secret_protected_key_envelope_namespace_as_i64 SecretOrganizationInvite = 1"
| "secret_protected_key_envelope_namespace_as_i64 DesktopBiometricUnlock = 2"
| "secret_protected_key_envelope_namespace_as_i64 RegistrationOpenOrgInvite = 3"

definition secret_namespaces :: "secret_protected_key_envelope_namespace content_namespace" where
  "secret_namespaces =
     \<lparr>ns_try_from = secret_protected_key_envelope_namespace_try_from,
      ns_into = secret_protected_key_envelope_namespace_as_i64\<rparr>"

lemmas namespace_defs =
  data_namespaces_def data_envelope_namespace_try_from_def
  symmetric_key_namespaces_def symmetric_key_envelope_namespace_try_from_def
  password_namespaces_def password_protected_key_envelope_namespace_try_from_def
  secret_namespaces_def secret_protected_key_envelope_namespace_try_from_def


section \<open>Namespaces in a header (helpers.rs)\<close>

datatype extraction_error = MissingNamespace | InvalidNamespaceValue

definition extract_safe_object_namespace :: "header \<Rightarrow> (safe_object_namespace, extraction_error) result" where
  "extract_safe_object_namespace header =
     (case extract_integer header SAFE_OBJECT_NAMESPACE ''safe object namespace'' of
        Ok value \<Rightarrow> map_err (\<lambda>_. InvalidNamespaceValue) (safe_object_namespace_try_from value)
      | Err _ \<Rightarrow> Err MissingNamespace)"

definition extract_safe_content_namespace ::
  "'n content_namespace \<Rightarrow> header \<Rightarrow> ('n, extraction_error) result" where
  "extract_safe_content_namespace T header =
     (case extract_integer header SAFE_CONTENT_NAMESPACE ''safe content namespace'' of
        Ok value \<Rightarrow> ok_or InvalidNamespaceValue (ns_try_from T value)
      | Err _ \<Rightarrow> Err MissingNamespace)"

fun set_first_value :: "cose_label \<Rightarrow> 'v \<Rightarrow> (cose_label \<times> 'v) list \<Rightarrow> (cose_label \<times> 'v) list" where
  "set_first_value label value [] = [(label, value)]"
| "set_first_value label value ((l, v) # rest) =
     (if l = label then (l, value) # rest else (l, v) # set_first_value label value rest)"

definition set_header_value :: "int \<Rightarrow> cbor_value \<Rightarrow> header \<Rightarrow> header" where
  "set_header_value label value header =
     header\<lparr>header_rest := set_first_value (IntLabel label) value (header_rest header)\<rparr>"

definition set_safe_namespaces ::
  "'n content_namespace \<Rightarrow> safe_object_namespace \<Rightarrow> 'n \<Rightarrow> header \<Rightarrow> header" where
  "set_safe_namespaces T object_namespace content_namespace header =
     set_header_value SAFE_CONTENT_NAMESPACE (Integer (ns_into T content_namespace))
       (set_header_value SAFE_OBJECT_NAMESPACE (Integer (safe_object_namespace_into object_namespace)) header)"

definition validate_safe_namespaces ::
  "'n content_namespace \<Rightarrow> header \<Rightarrow> safe_object_namespace \<Rightarrow> 'n \<Rightarrow> (unit, extraction_error) result" where
  "validate_safe_namespaces T header expected_object_namespace expected_content_namespace =
     and_then
       (case extract_safe_object_namespace header of
          Ok ns \<Rightarrow> if ns = expected_object_namespace then Ok () else Err InvalidNamespaceValue
        | Err MissingNamespace \<Rightarrow> Ok ()
        | Err InvalidNamespaceValue \<Rightarrow> Err InvalidNamespaceValue) (\<lambda>_.
     (case extract_safe_content_namespace T header of
        Ok ns \<Rightarrow> if ns = expected_content_namespace then Ok () else Err InvalidNamespaceValue
      | Err MissingNamespace \<Rightarrow> Ok ()
      | Err InvalidNamespaceValue \<Rightarrow> Err InvalidNamespaceValue))"


section \<open>Sealed keys (safe/mod.rs)\<close>

datatype decode_sealed_key_error = InvalidContentFormat | UnsupportedKeyFormat | InvalidSealedKey

definition decode_sealed_symmetric_key ::
  "crypto_lib \<Rightarrow> header \<Rightarrow> bytes \<Rightarrow> (symmetric_crypto_key, decode_sealed_key_error) result" where
  "decode_sealed_symmetric_key L header key_bytes =
     and_then (map_err (\<lambda>_. InvalidContentFormat) (content_format_try_from header)) (\<lambda>format.
     and_then
       (case format of
          content_format.BitwardenLegacyKey \<Rightarrow> Ok (EncodedLegacyKey key_bytes)
        | content_format.CoseKey \<Rightarrow> Ok (EncodedCoseKey key_bytes)
        | _ \<Rightarrow> Err UnsupportedKeyFormat) (\<lambda>encoded_key.
     map_err (\<lambda>_. InvalidSealedKey) (try_from_encoded L encoded_key)))"

definition extract_single_recipient :: "cose_encrypt \<Rightarrow> (cose_recipient, unit) result" where
  "extract_single_recipient cose_encrypt =
     (case encrypt_recipients cose_encrypt of [recipient] \<Rightarrow> Ok recipient | _ \<Rightarrow> Err ())"

definition extract_key_id :: "header \<Rightarrow> (key_id option, unit) result" where
  "extract_key_id header =
     (case extract_bytes header CONTAINED_KEY_ID ''key id'' of
        Ok bytes \<Rightarrow> map_ok Some (map_err (\<lambda>_. ()) (key_id_try_from bytes))
      | Err _ \<Rightarrow> Ok None)"

definition set_contained_key_id :: "key_id option \<Rightarrow> header \<Rightarrow> header" where
  "set_contained_key_id key_id header =
     (case key_id of
        Some key_id \<Rightarrow> set_header_value CONTAINED_KEY_ID (Bytes key_id) header
      | None \<Rightarrow> header)"


section \<open>The key hierarchy\<close>

definition content_encryption_key_make ::
  "local_id \<Rightarrow> bytes \<Rightarrow> key_id \<Rightarrow> ('priv, 'sig) key_store_context
   \<Rightarrow> symmetric_key_slot_id \<times> ('priv, 'sig) key_store_context" where
  "content_encryption_key_make local_id rng_enc rng_id ctx =
     make_symmetric_key symmetric_key_algorithm.Aes256Gcm local_id rng_enc [] rng_id ctx"

definition is_key_algorithm_valid :: "('priv, 'sig) key_store_context \<Rightarrow> symmetric_key_slot_id \<Rightarrow> bool" where
  "is_key_algorithm_valid ctx key_id =
     (case get_symmetric_key_algorithm ctx key_id of
        Ok algorithm \<Rightarrow> algorithm = symmetric_key_algorithm.Aes256Gcm
      | Err _ \<Rightarrow> False)"

datatype key_encryption_key_error = MissingKek | WrongKekType

definition key_encryption_key_make ::
  "local_id \<Rightarrow> bytes \<Rightarrow> key_id \<Rightarrow> ('priv, 'sig) key_store_context
   \<Rightarrow> symmetric_key_slot_id \<times> ('priv, 'sig) key_store_context" where
  "key_encryption_key_make local_id rng_enc rng_id ctx =
     make_symmetric_key symmetric_key_algorithm.XAes256Gcm local_id rng_enc [] rng_id ctx"

definition get_cose_key_view ::
  "('priv, 'sig) key_store_context \<Rightarrow> symmetric_key_slot_id \<Rightarrow> (cose_key_view, key_encryption_key_error) result" where
  "get_cose_key_view ctx key_id =
     and_then (map_err (\<lambda>_. MissingKek) (get_symmetric_key ctx key_id)) (\<lambda>key.
     (case key of
        XAes256GcmKey key \<Rightarrow> Ok (XAes256GcmView key)
      | Aes256CbcHmacKey key \<Rightarrow> Ok (Aes256CbcHmacView key)
      | _ \<Rightarrow> Err WrongKekType))"


section \<open>Lemmas\<close>

lemma set_header_value_simps [simp]:
  "header_alg (set_header_value l v h) = header_alg h"
  "header_content_type (set_header_value l v h) = header_content_type h"
  "header_key_id (set_header_value l v h) = header_key_id h"
  "header_iv (set_header_value l v h) = header_iv h"
  "set_header_value l v (h\<lparr>header_key_id := kid\<rparr>) = (set_header_value l v h)\<lparr>header_key_id := kid\<rparr>"
  by (simp_all add: set_header_value_def)

lemma find_map_set_first:
  assumes "f (l, v) = Some y" "\<And>l' w z. f (l', w) = Some z \<Longrightarrow> l' = l"
  shows "find_map f (set_first_value l v xs) = Some y"
proof (induction xs)
  case (Cons x xs)
  obtain l' w where x: "x = (l', w)" by fastforce
  show ?case
  proof (cases "l' = l")
    case False
    then have "f x = None" using assms(2) [of l' w] by (cases "f x") (auto simp: x)
    with False Cons show ?thesis by (simp add: x)
  qed (simp add: x assms(1))
qed (simp add: assms(1))

lemma find_map_set_other:
  assumes "\<And>w. f (l, w) = None"
  shows "find_map f (set_first_value l v xs) = find_map f xs"
proof (induction xs)
  case (Cons x xs)
  then show ?case by (cases x) (simp add: assms split: option.split)
qed (simp add: assms)

lemma set_header_value_rest [simp]:
  "header_rest (set_header_value l v h) = set_first_value (IntLabel l) v (header_rest h)"
  by (simp add: set_header_value_def)

lemma extract_set [simp]:
  "extract_integer (set_header_value l (Integer i) h) l what = Ok i"
  "extract_bytes (set_header_value l (Bytes b) h) l what = Ok b"
proof -
  show "extract_integer (set_header_value l (Integer i) h) l what = Ok i"
    unfolding extract_integer_def set_header_value_rest
    by (subst find_map_set_first [where y = i])
       (simp_all split: cose_label.splits cbor_value.splits if_splits)
  show "extract_bytes (set_header_value l (Bytes b) h) l what = Ok b"
    unfolding extract_bytes_def set_header_value_rest
    by (subst find_map_set_first [where y = b])
       (simp_all split: cose_label.splits cbor_value.splits if_splits)
qed

lemma extract_set_other [simp]:
  assumes "l \<noteq> l'"
  shows "extract_integer (set_header_value l v h) l' what = extract_integer h l' what"
    and "extract_bytes (set_header_value l v h) l' what = extract_bytes h l' what"
proof -
  show "extract_integer (set_header_value l v h) l' what = extract_integer h l' what"
    unfolding extract_integer_def set_header_value_rest
    using assms by (subst find_map_set_other) (simp_all split: cbor_value.splits)
  show "extract_bytes (set_header_value l v h) l' what = extract_bytes h l' what"
    unfolding extract_bytes_def set_header_value_rest
    using assms by (subst find_map_set_other) (simp_all split: cbor_value.splits)
qed

lemma extract_key_id_field [simp]:
  "extract_integer (h\<lparr>header_key_id := k\<rparr>) l what = extract_integer h l what"
  "extract_bytes (h\<lparr>header_key_id := k\<rparr>) l what = extract_bytes h l what"
  "extract_integer (h\<lparr>header_alg := a\<rparr>) l what = extract_integer h l what"
  "extract_bytes (h\<lparr>header_alg := a\<rparr>) l what = extract_bytes h l what"
  by (simp_all add: extract_integer_def extract_bytes_def)

lemma fst_set_first:
  "fst ` set (set_first_value l v xs) = insert l (fst ` set xs)"
  "distinct (map fst xs) \<Longrightarrow> distinct (map fst (set_first_value l v xs))"
proof (induction xs)
  case (Cons x xs)
  {
    case 1
    with Cons(1) show ?case by (cases x) auto
  next
    case 2
    with Cons show ?case by (cases x) auto
  }
qed simp_all

lemma list_all_set_first: "list_all P xs \<Longrightarrow> P (l, v) \<Longrightarrow> list_all P (set_first_value l v xs)"
  by (induction l v xs rule: set_first_value.induct) auto

lemma header_encodable_set:
  "header_encodable h \<Longrightarrow> label_encodable (IntLabel l) \<Longrightarrow> value_encodable v
   \<Longrightarrow> header_encodable (set_header_value l v h)"
  unfolding header_encodable_def set_header_value_def
  by (auto simp: fst_set_first(2) intro!: list_all_set_first)

lemma header_encodable_fields [simp]:
  "header_encodable (h\<lparr>header_key_id := k\<rparr>) = header_encodable h"
  "header_encodable (h\<lparr>header_iv := k\<rparr>) = header_encodable h"
  by (simp_all add: header_encodable_def)

lemma header_encodable_alg: "header_encodable h \<Longrightarrow> algorithm_encodable a \<Longrightarrow> header_encodable (h\<lparr>header_alg := Some a\<rparr>)"
  by (simp add: header_encodable_def)

lemma set_safe_namespaces_simps [simp]:
  "header_alg (set_safe_namespaces T ob n h) = header_alg h"
  "header_content_type (set_safe_namespaces T ob n h) = header_content_type h"
  "header_key_id (set_safe_namespaces T ob n h) = header_key_id h"
  "header_iv (set_safe_namespaces T ob n h) = header_iv h"
  by (simp_all add: set_safe_namespaces_def)

lemma set_contained_key_id_simps [simp]:
  "header_alg (set_contained_key_id kid h) = header_alg h"
  "header_content_type (set_contained_key_id kid h) = header_content_type h"
  "header_key_id (set_contained_key_id kid h) = header_key_id h"
  "header_iv (set_contained_key_id kid h) = header_iv h"
  by (simp_all add: set_contained_key_id_def split: option.split)

lemma set_contained_key_id_encodable: "header_encodable h \<Longrightarrow> header_encodable (set_contained_key_id kid h)"
  by (auto simp: set_contained_key_id_def cose_constants split: option.split intro!: header_encodable_set)

text \<open>A contained key id is read back, also through the namespaces set after it.\<close>

lemma extract_contained_key_id:
  assumes "extract_bytes h CONTAINED_KEY_ID ''key id'' = Err e" "\<And>k. kid = Some k \<Longrightarrow> length k = KEY_ID_SIZE"
  shows "extract_key_id (set_safe_namespaces T ob n (set_contained_key_id kid h)) = Ok kid"
  using assms
  by (cases kid)
     (simp_all add: extract_key_id_def set_safe_namespaces_def set_contained_key_id_def cose_constants
        key_id_try_from_def)

lemma extract_bytes_content_format [simp]:
  "extract_bytes (content_format_into_header f) l what = Err (cose_extract_error.MissingValue what)"
  by (cases f) (simp_all add: extract_bytes_def header_new_def)


text \<open>The contract of a content namespace: its numbers are distinct \<open>i64\<close> values that are read
  back.\<close>

locale namespaced =
  fixes T :: "'n content_namespace"
  assumes try_from_into [simp]: "ns_try_from T (ns_into T n) = Some n"
    and into_range: "- (2 ^ 63) \<le> ns_into T n \<and> ns_into T n < 2 ^ 63"
begin

lemma into_inj: "ns_into T n = ns_into T m \<longleftrightarrow> n = m"
  by (metis try_from_into option.inject)

lemma extract_set_namespaces:
  "extract_safe_object_namespace (set_safe_namespaces T ob n h) = Ok ob"
  "extract_safe_content_namespace T (set_safe_namespaces T ob n h) = Ok n"
  by (simp_all add: extract_safe_object_namespace_def extract_safe_content_namespace_def
        set_safe_namespaces_def cose_constants)

lemma validate_set_namespaces:
  "validate_safe_namespaces T (set_safe_namespaces T ob n h) ob' n' =
     (if ob = ob' \<and> n = n' then Ok () else Err InvalidNamespaceValue)"
  by (simp add: validate_safe_namespaces_def extract_set_namespaces)

lemma validate_set_namespaces_key_id:
  "validate_safe_namespaces T ((set_safe_namespaces T ob n h)\<lparr>header_key_id := kid\<rparr>) ob' n' =
     (if ob = ob' \<and> n = n' then Ok () else Err InvalidNamespaceValue)"
  using validate_set_namespaces [of ob n "h\<lparr>header_key_id := kid\<rparr>" ob' n']
  by (simp add: set_safe_namespaces_def)

lemma set_namespaces_encodable:
  "header_encodable h \<Longrightarrow> header_encodable (set_safe_namespaces T ob n h)"
  unfolding set_safe_namespaces_def using into_range [of n]
  by (intro header_encodable_set) (cases ob; simp add: cose_constants)+

lemma validate_cong:
  "header_rest h = header_rest h' \<Longrightarrow> validate_safe_namespaces T h ob n = validate_safe_namespaces T h' ob n"
  by (simp add: validate_safe_namespaces_def extract_safe_object_namespace_def
        extract_safe_content_namespace_def extract_integer_def)

end

lemma safe_object_into_inj: "safe_object_namespace_into a = safe_object_namespace_into b \<longleftrightarrow> a = b"
  by (cases a; cases b) simp_all

interpretation data_ns: namespaced data_namespaces
  by unfold_locales (case_tac n; simp add: namespace_defs)+

interpretation symmetric_key_ns: namespaced symmetric_key_namespaces
  by unfold_locales (case_tac n; simp add: namespace_defs)+

interpretation password_ns: namespaced password_namespaces
  by unfold_locales (case_tac n; simp add: namespace_defs)+

interpretation secret_ns: namespaced secret_namespaces
  by unfold_locales (case_tac n; simp add: namespace_defs)+

lemma content_format_header_encodable: "header_encodable (content_format_into_header f)"
  using content_format_into_header_encodable [of f]
  by (cases f) (simp_all add: header_encodable_def)

lemma content_format_header_type:
  "header_content_type h = header_content_type (content_format_into_header f) \<Longrightarrow>
   content_format_try_from h = content_format_try_from (content_format_into_header f)"
  by (simp add: content_format_try_from_def)

text \<open>A key sealed in its raw encoding is decoded, from a header that names its format.\<close>

lemma decode_sealed_key:
  assumes "crypto_lib_ok L" "symmetric_key_wf key"
    and "header_content_type h =
      header_content_type (content_format_into_header (encoded_content_format (to_encoded_raw L key)))"
  shows "decode_sealed_symmetric_key L h (encoded_into_vec (to_encoded_raw L key)) = Ok (normalize_ops key)"
proof -
  have format: "content_format_try_from h = Ok (encoded_content_format (to_encoded_raw L key))"
    unfolding content_format_header_type [OF assms(3)]
    by (cases "to_encoded_raw L key") (simp_all add: content_format_try_from_def content_type_names)
  show ?thesis
    using try_from_encoded_raw [OF assms(1,2)]
    by (cases "to_encoded_raw L key") (simp_all add: decode_sealed_symmetric_key_def format)
qed

lemma try_from_encoded_wf: "try_from_encoded L e = Ok key \<Longrightarrow> symmetric_key_wf key"
  by (cases e) (auto simp: key_sizes dest: try_from_cose_wf split: if_splits)

lemma decode_sealed_wf: "decode_sealed_symmetric_key L h bs = Ok key \<Longrightarrow> symmetric_key_wf key"
  unfolding decode_sealed_symmetric_key_def by (auto simp: result_simps dest: try_from_encoded_wf)

lemma symmetric_key_id_length:
  assumes "crypto_lib_ok L" "symmetric_key_wf key" "symmetric_key_id L key = Some kid"
  shows "length kid = KEY_ID_SIZE"
proof -
  have "length (symmetric_key_thumbprint L k) = 32" for k
    using crypto_lib_okD(8) [OF assms(1)]
    by (simp add: hash_ok_def symmetric_key_thumbprint_def thumbprint_from_required_params_def Let_def)
  then show ?thesis
    using assms(2,3) by (cases key) (auto simp: Aes256CbcHmacKey_key_id_def aead_key_wf_def KEY_ID_SIZE_def)
qed

text \<open>A key-encryption key view has the key length of its cipher.\<close>

lemma get_cose_key_view_Ok:
  "get_cose_key_view c k = Ok v \<longleftrightarrow>
     (\<exists>key. get_symmetric_key c k = Ok (XAes256GcmKey key) \<and> v = XAes256GcmView key)
     \<or> (\<exists>key. get_symmetric_key c k = Ok (Aes256CbcHmacKey key) \<and> v = Aes256CbcHmacView key)"
proof (cases "get_symmetric_key c k")
  case (Ok key)
  then show ?thesis by (cases key) (auto simp: get_cose_key_view_def)
qed (simp add: get_cose_key_view_def)

lemma kek_view_length:
  assumes "get_cose_key_view c k = Ok v" "get_symmetric_key c k = Ok key" "symmetric_key_wf key"
  shows "length (view_key_bytes v) = cipher_key_size (select_cipher L (view_algorithm v))"
  using assms
  by (auto simp: get_cose_key_view_Ok cipher_key_size_select aead_key_wf_def key_sizes)

text \<open>What the validation accepts: an integer namespace has to be the expected one.\<close>

lemma safe_object_try_from_Ok: "safe_object_namespace_try_from i = Ok ob \<longleftrightarrow> i = safe_object_namespace_into ob"
  by (cases ob) (auto simp: safe_object_namespace_try_from_def)

lemma validate_Ok_iff:
  "validate_safe_namespaces T h ob n = Ok () \<longleftrightarrow>
     (\<forall>i. extract_integer h SAFE_OBJECT_NAMESPACE ''safe object namespace'' = Ok i \<longrightarrow> i = safe_object_namespace_into ob)
     \<and> (\<forall>i. extract_integer h SAFE_CONTENT_NAMESPACE ''safe content namespace'' = Ok i \<longrightarrow> ns_try_from T i = Some n)"
proof -
  have object: "(case extract_safe_object_namespace h of
          Ok ns \<Rightarrow> if ns = ob then Ok () else Err InvalidNamespaceValue
        | Err MissingNamespace \<Rightarrow> Ok () | Err InvalidNamespaceValue \<Rightarrow> Err InvalidNamespaceValue) = Ok ()
      \<longleftrightarrow> (\<forall>i. extract_integer h SAFE_OBJECT_NAMESPACE ''safe object namespace'' = Ok i \<longrightarrow> i = safe_object_namespace_into ob)"
  proof (cases "extract_integer h SAFE_OBJECT_NAMESPACE ''safe object namespace''")
    case (Ok i)
    then show ?thesis
      by (cases "safe_object_namespace_try_from i")
         (auto simp: extract_safe_object_namespace_def safe_object_try_from_Ok safe_object_into_inj
           simp flip: safe_object_try_from_Ok)
  qed (simp add: extract_safe_object_namespace_def)
  have content: "(case extract_safe_content_namespace T h of
          Ok ns \<Rightarrow> if ns = n then Ok () else Err InvalidNamespaceValue
        | Err MissingNamespace \<Rightarrow> Ok () | Err InvalidNamespaceValue \<Rightarrow> Err InvalidNamespaceValue) = Ok ()
      \<longleftrightarrow> (\<forall>i. extract_integer h SAFE_CONTENT_NAMESPACE ''safe content namespace'' = Ok i \<longrightarrow> ns_try_from T i = Some n)"
  proof (cases "extract_integer h SAFE_CONTENT_NAMESPACE ''safe content namespace''")
    case (Ok i)
    then show ?thesis
      by (cases "ns_try_from T i") (auto simp: extract_safe_content_namespace_def)
  qed (simp add: extract_safe_content_namespace_def)
  show ?thesis unfolding validate_safe_namespaces_def and_then_eq_Ok using object content by simp
qed


section \<open>Properties\<close>


end
