(* ===== verification/Envelopes.thy ===== *)
theory Envelopes
  imports Envelope_Headers
begin

text \<open>
  Data envelopes and symmetric key envelopes (\<open>safe/data_envelope.rs\<close>,
  \<open>safe/symmetric_key_envelope.rs\<close>) with the serialized messages they hold
  (\<open>signing/message.rs\<close>).  The CBOR serialization of the sealed type is generated by serde
  and is a parameter: the record \<open>sealable\<close> has its serializer, its deserializer and the
  namespace that the type is bound to.
\<close>

section \<open>Serialized messages (signing/message.rs)\<close>

record 'a sealable =
  cbor_serialize :: "'a \<Rightarrow> (bytes, string) result"
  cbor_deserialize :: "bytes \<Rightarrow> ('a, string) result"
  sealable_namespace :: data_envelope_namespace

record serialized_message =
  serialized_message_bytes :: bytes
  message_content_type :: coap_content_format

definition message_from_bytes :: "bytes \<Rightarrow> coap_content_format \<Rightarrow> serialized_message" where
  "message_from_bytes bytes content_type =
     \<lparr>serialized_message_bytes = bytes, message_content_type = content_type\<rparr>"

definition message_encode :: "'a sealable \<Rightarrow> 'a \<Rightarrow> (serialized_message, encoding_error) result" where
  "message_encode S message =
     map_ok (\<lambda>buffer. \<lparr>serialized_message_bytes = buffer, message_content_type = coap_content_format.Cbor\<rparr>)
       (map_err (\<lambda>_. InvalidCborSerialization) (cbor_serialize S message))"

definition message_decode :: "'a sealable \<Rightarrow> serialized_message \<Rightarrow> ('a, encoding_error) result" where
  "message_decode S self =
     (if message_content_type self \<noteq> coap_content_format.Cbor
      then Err (InvalidValue ''Unsupported content type'')
      else map_err (\<lambda>_. InvalidCborSerialization) (cbor_deserialize S (serialized_message_bytes self)))"


section \<open>Data envelopes\<close>

datatype data_envelope_error =
    UnsupportedContentFormat
  | CoseDecoding
  | Decoding
  | Encoding
  | DataKeyStore
  | Decryption
  | Encryption
  | DataParsing string
  | DataInvalidNamespace
  | DataWrongKey

definition DATA_ENVELOPE_PADDING_SIZE :: nat where
  "DATA_ENVELOPE_PADDING_SIZE = 64"

record data_envelope =
  envelope_data :: bytes

definition pad_cbor :: "bytes \<Rightarrow> (bytes, crypto_error) result" where
  "pad_cbor data = map_err (\<lambda>_. InvalidPadding) (pad_bytes data DATA_ENVELOPE_PADDING_SIZE)"

definition unpad_cbor :: "bytes \<Rightarrow> (bytes, crypto_error) result" where
  "unpad_cbor data = map_err (\<lambda>_. InvalidPadding) (unpad_bytes data)"

definition envelope_content_format :: "protected_header \<Rightarrow> (string, encoding_error) result" where
  "envelope_content_format protected_header =
     ok_or InvalidCoseEncoding
       (case header_content_type (parsed_header protected_header) of
          Some (TextContentType content_format) \<Rightarrow> Some content_format
        | _ \<Rightarrow> None)"

definition data_seal_ref ::
  "crypto_lib \<Rightarrow> 'a sealable \<Rightarrow> 'a \<Rightarrow> data_envelope_namespace \<Rightarrow> aead_key \<Rightarrow> bytes
   \<Rightarrow> (data_envelope, data_envelope_error) result" where
  "data_seal_ref L S data namespace cek nonce =
     and_then (map_err (\<lambda>_. Encoding) (message_encode S data)) (\<lambda>serialized_message.
     if message_content_type serialized_message \<noteq> coap_content_format.Cbor then Err UnsupportedContentFormat
     else
     and_then (map_err (\<lambda>_. Encoding) (pad_cbor (serialized_message_bytes serialized_message)))
       (\<lambda>serialized_and_padded_message.
     let protected_header = header_new\<lparr>header_key_id := aead_key_id cek,
           header_content_type := Some (TextContentType CONTENT_TYPE_PADDED_CBOR)\<rparr>;
         protected_header = set_safe_namespaces data_namespaces DataEnvelope namespace protected_header
     in
     and_then (map_err (\<lambda>_. Encoding)
       (encrypt_cose0 L cose_content_encryption_algorithm.Aes256Gcm encrypt0_builder_new protected_header
          serialized_and_padded_message (aead_enc_key cek) nonce)) (\<lambda>encrypt0.
     and_then (map_err (\<lambda>_. Encoding) (encrypt0_to_vec (lib_cose L) encrypt0)) (\<lambda>envelope_data.
     Ok \<lparr>envelope_data = envelope_data\<rparr>))))"

definition data_seal ::
  "crypto_lib \<Rightarrow> 'a sealable \<Rightarrow> local_id \<Rightarrow> bytes \<Rightarrow> key_id \<Rightarrow> bytes \<Rightarrow> 'a \<Rightarrow> ('priv, 'sig) key_store_context
   \<Rightarrow> (data_envelope \<times> symmetric_key_slot_id, data_envelope_error) result \<times> ('priv, 'sig) key_store_context" where
  "data_seal L S local_id rng_enc rng_id nonce data =
     act_then (act_pure (content_encryption_key_make local_id rng_enc rng_id)) (\<lambda>cek_id.
     act_then (act_read (\<lambda>ctx.
       (case get_symmetric_key ctx cek_id of
          Ok (Aes256GcmKey key) \<Rightarrow> Ok key
        | _ \<Rightarrow> Err DataKeyStore))) (\<lambda>cek.
     act_then (act_read (\<lambda>_. data_seal_ref L S data (sealable_namespace S) cek nonce)) (\<lambda>envelope.
     let cek = disable_key_operation UnwrapKey
           (disable_key_operation WrapKey (disable_key_operation key_operation.Encrypt cek))
     in act_then (act_map_err (\<lambda>_. DataKeyStore) (set_symmetric_key cek_id (Aes256GcmKey cek))) (\<lambda>_ ctx.
     (Ok (envelope, cek_id), ctx)))))"

definition data_seal_with_wrapping_key ::
  "crypto_lib \<Rightarrow> 'a sealable \<Rightarrow> local_id \<Rightarrow> bytes \<Rightarrow> key_id \<Rightarrow> bytes \<Rightarrow> bytes \<Rightarrow> 'a \<Rightarrow> symmetric_key_slot_id
   \<Rightarrow> ('priv, 'sig) key_store_context
   \<Rightarrow> (data_envelope \<times> enc_string, data_envelope_error) result \<times> ('priv, 'sig) key_store_context" where
  "data_seal_with_wrapping_key L S local_id rng_enc rng_id nonce wrap_nonce data wrapping_key =
     act_then (data_seal L S local_id rng_enc rng_id nonce data) (\<lambda>(envelope, cek).
     act_then (act_read (\<lambda>ctx.
       map_err (\<lambda>_. Encryption) (wrap_symmetric_key L ctx wrapping_key cek wrap_nonce))) (\<lambda>wrapped_cek ctx.
     (Ok (envelope, wrapped_cek), ctx)))"

definition data_unseal_ref ::
  "crypto_lib \<Rightarrow> 'a sealable \<Rightarrow> data_envelope \<Rightarrow> data_envelope_namespace \<Rightarrow> cose_key_view
   \<Rightarrow> ('a, data_envelope_error) result" where
  "data_unseal_ref L S self namespace cek =
     and_then (map_err (\<lambda>_. CoseDecoding) (encrypt0_from_slice (lib_cose L) (envelope_data self))) (\<lambda>msg.
     and_then (map_err (\<lambda>_. Decoding) (envelope_content_format (encrypt0_protected msg))) (\<lambda>content_format.
     let header = parsed_header (encrypt0_protected msg) in
     if header_key_id header \<noteq> view_key_id L cek then Err DataWrongKey
     else
     and_then (map_err (\<lambda>_. DataInvalidNamespace)
       (validate_safe_namespaces data_namespaces header DataEnvelope namespace)) (\<lambda>_.
     if content_format \<noteq> CONTENT_TYPE_PADDED_CBOR then Err UnsupportedContentFormat
     else
     and_then (map_err (\<lambda>_. Decryption)
       (decrypt_cose0 L msg (Exactly (view_algorithm cek)) (view_key_bytes cek))) (\<lambda>decrypted_message.
     and_then (map_err (\<lambda>_. Decryption) (unpad_cbor decrypted_message)) (\<lambda>unpadded_message.
     map_err (\<lambda>_. Decoding)
       (message_decode S (message_from_bytes unpadded_message coap_content_format.Cbor)))))))"

definition data_unseal ::
  "crypto_lib \<Rightarrow> 'a sealable \<Rightarrow> data_envelope \<Rightarrow> symmetric_key_slot_id \<Rightarrow> ('priv, 'sig) key_store_context
   \<Rightarrow> ('a, data_envelope_error) result" where
  "data_unseal L S self cek_keyslot ctx =
     and_then (map_err (\<lambda>_. DataKeyStore) (get_symmetric_key ctx cek_keyslot)) (\<lambda>cek.
     and_then
       (case cek of
          Aes256CbcKey _ \<Rightarrow> Err UnsupportedContentFormat
        | Aes256CbcHmacKey _ \<Rightarrow> Err UnsupportedContentFormat
        | cek \<Rightarrow> ok_or UnsupportedContentFormat (as_cose_key_view cek)) (\<lambda>view.
     data_unseal_ref L S self (sealable_namespace S) view))"

definition data_unseal_with_wrapping_key ::
  "crypto_lib \<Rightarrow> 'a sealable \<Rightarrow> data_envelope \<Rightarrow> local_id \<Rightarrow> symmetric_key_slot_id \<Rightarrow> enc_string
   \<Rightarrow> ('priv, 'sig) key_store_context
   \<Rightarrow> ('a, data_envelope_error) result \<times> ('priv, 'sig) key_store_context" where
  "data_unseal_with_wrapping_key L S self local_id wrapping_key wrapped_cek =
     act_then (act_map_err (\<lambda>_. Decryption) (unwrap_symmetric_key L local_id wrapping_key wrapped_cek)) (\<lambda>cek.
     act_read (data_unseal L S self cek))"

definition data_envelope_from_str :: "b64_lib \<Rightarrow> string \<Rightarrow> (data_envelope, not_b64_encoded_error) result" where
  "data_envelope_from_str E s = map_ok (\<lambda>data. \<lparr>envelope_data = data\<rparr>) (b64_try_from E s)"

definition data_envelope_to_string :: "b64_lib \<Rightarrow> data_envelope \<Rightarrow> string" where
  "data_envelope_to_string E val = b64_to_string E (envelope_data val)"


section \<open>Symmetric key envelopes\<close>

datatype symmetric_key_envelope_error =
    WrongKey
  | KeyParsing string
  | KeyMissing
  | KeyStoreWrite
  | KeyWrongKeyType
  | KeyInvalidNamespace

primrec from_kek_error :: "key_encryption_key_error \<Rightarrow> symmetric_key_envelope_error" where
  "from_kek_error MissingKek = KeyMissing"
| "from_kek_error WrongKekType = KeyWrongKeyType"

record symmetric_key_envelope =
  key_envelope_message :: cose_encrypt0

definition key_seal ::
  "crypto_lib \<Rightarrow> symmetric_key_slot_id \<Rightarrow> symmetric_key_slot_id \<Rightarrow> symmetric_key_envelope_namespace \<Rightarrow> bytes
   \<Rightarrow> ('priv, 'sig) key_store_context \<Rightarrow> (symmetric_key_envelope, symmetric_key_envelope_error) result" where
  "key_seal L key_to_seal sealing_key namespace nonce ctx =
     and_then (map_err (\<lambda>_. KeyMissing) (get_symmetric_key ctx key_to_seal)) (\<lambda>key_to_seal.
     and_then (map_err from_kek_error (get_cose_key_view ctx sealing_key)) (\<lambda>wrapping_key.
     let (content_format, key_bytes) =
           (case to_encoded_raw L key_to_seal of
              EncodedLegacyKey key_bytes \<Rightarrow> (content_format.BitwardenLegacyKey, key_bytes)
            | EncodedCoseKey key_bytes \<Rightarrow> (content_format.CoseKey, key_bytes));
         protected_header = content_format_into_header content_format;
         protected_header = set_contained_key_id (symmetric_key_id L key_to_seal) protected_header;
         protected_header =
           set_safe_namespaces symmetric_key_namespaces SymmetricKeyEnvelope namespace protected_header;
         protected_header = protected_header\<lparr>header_key_id := view_key_id L wrapping_key\<rparr>
     in
     and_then (map_err (\<lambda>_. KeyWrongKeyType)
       (encrypt_cose0 L (view_algorithm wrapping_key) encrypt0_builder_new protected_header key_bytes
          (view_key_bytes wrapping_key) nonce)) (\<lambda>cose_encrypt0.
     Ok \<lparr>key_envelope_message = cose_encrypt0\<rparr>)))"

primrec unseal_key_error :: "decode_sealed_key_error \<Rightarrow> symmetric_key_envelope_error" where
  "unseal_key_error InvalidContentFormat = KeyParsing ''Invalid content format''"
| "unseal_key_error UnsupportedKeyFormat = KeyWrongKeyType"
| "unseal_key_error InvalidSealedKey = KeyWrongKeyType"

definition key_unseal ::
  "crypto_lib \<Rightarrow> local_id \<Rightarrow> symmetric_key_envelope \<Rightarrow> symmetric_key_slot_id \<Rightarrow> symmetric_key_envelope_namespace
   \<Rightarrow> ('priv, 'sig) key_store_context
   \<Rightarrow> (symmetric_key_slot_id, symmetric_key_envelope_error) result \<times> ('priv, 'sig) key_store_context" where
  "key_unseal L local_id self wrapping_key namespace =
     (let header = parsed_header (encrypt0_protected (key_envelope_message self)) in
     act_then (act_read (\<lambda>ctx.
       and_then (map_err from_kek_error (get_cose_key_view ctx wrapping_key)) (\<lambda>wrapping_key.
       and_then (map_err (\<lambda>_. KeyInvalidNamespace)
         (validate_safe_namespaces symmetric_key_namespaces header SymmetricKeyEnvelope namespace)) (\<lambda>_.
       and_then (map_err (\<lambda>_. WrongKey)
         (decrypt_cose0 L (key_envelope_message self) (Exactly (view_algorithm wrapping_key))
            (view_key_bytes wrapping_key))) (\<lambda>key_bytes.
       map_err unseal_key_error (decode_sealed_symmetric_key L header key_bytes)))))) (\<lambda>key.
     act_pure (add_local_symmetric_key local_id key)))"

definition key_envelope_contained_key_id ::
  "symmetric_key_envelope \<Rightarrow> (key_id option, symmetric_key_envelope_error) result" where
  "key_envelope_contained_key_id self =
     map_err (\<lambda>_. KeyParsing ''Invalid contained key id'')
       (extract_key_id (parsed_header (encrypt0_protected (key_envelope_message self))))"

definition key_envelope_to_vec :: "crypto_lib \<Rightarrow> symmetric_key_envelope \<Rightarrow> bytes" where
  "key_envelope_to_vec L val = expect (encrypt0_to_vec (lib_cose L) (key_envelope_message val))"

definition key_envelope_try_from :: "crypto_lib \<Rightarrow> bytes \<Rightarrow> (symmetric_key_envelope, string) result" where
  "key_envelope_try_from L value =
     map_ok (\<lambda>m. \<lparr>key_envelope_message = m\<rparr>) (encrypt0_from_slice (lib_cose L) value)"

definition key_envelope_from_str ::
  "crypto_lib \<Rightarrow> string \<Rightarrow> (symmetric_key_envelope, symmetric_key_envelope_error) result" where
  "key_envelope_from_str L s =
     and_then (map_err (\<lambda>_. KeyParsing ''Invalid WrappedSymmetricKey Base64 encoding'')
       (b64_try_from (lib_b64 L) s)) (\<lambda>data.
     map_err (\<lambda>_. KeyParsing ''Failed to parse SymmetricKeyEnvelope'') (key_envelope_try_from L data))"

definition key_envelope_to_string :: "crypto_lib \<Rightarrow> symmetric_key_envelope \<Rightarrow> string" where
  "key_envelope_to_string L val = b64_to_string (lib_b64 L) (key_envelope_to_vec L val)"


section \<open>Specification vocabulary\<close>

text \<open>The laws of serde that sealing relies on: a value that is serialized is read back.\<close>

definition sealable_ok :: "'a sealable \<Rightarrow> bool" where
  "sealable_ok S \<longleftrightarrow> (\<forall>x bs. cbor_serialize S x = Ok bs \<longrightarrow> cbor_deserialize S bs = Ok x)"

text \<open>Raw bytes as a sealable type.\<close>

definition word_sealable :: "data_envelope_namespace \<Rightarrow> bytes sealable" where
  "word_sealable ns = \<lparr>cbor_serialize = Ok, cbor_deserialize = Ok, sealable_namespace = ns\<rparr>"

text \<open>A writable context whose user key is given, and a key-encryption key.\<close>

definition user_key_context :: "symmetric_crypto_key \<Rightarrow> (u8, unit) key_store_context" where
  "user_key_context key = snd (set_symmetric_key User key (context_mut key_store_default))"

definition kek_example :: symmetric_crypto_key where
  "kek_example = XAes256GcmKey (aead_key_make (replicate 32 1) (replicate 16 2))"

text \<open>The content key that sealing leaves in the context.\<close>

definition sealed_cek :: "bytes \<Rightarrow> key_id \<Rightarrow> aead_key" where
  "sealed_cek rng_enc rng_id = (aead_key_make rng_enc rng_id)\<lparr>supported_operations := [key_operation.Decrypt]\<rparr>"


section \<open>Lemmas\<close>

lemma message_roundtrip:
  "sealable_ok S \<Longrightarrow> message_encode S x = Ok m \<Longrightarrow>
   message_content_type m = coap_content_format.Cbor
   \<and> message_decode S (message_from_bytes (serialized_message_bytes m) coap_content_format.Cbor) = Ok x"
  by (auto simp: message_encode_def message_decode_def message_from_bytes_def sealable_ok_def result_simps)

text \<open>An Encrypt0 message under an encodable header, as it is built and as it is read back.\<close>

lemma encrypt_cose0_message:
  assumes "crypto_lib_ok L" "length cek = cipher_key_size (select_cipher L alg)" "length nonce = nonce_size alg"
    and "header_encodable h"
  obtains m bs p where
    "encrypt_cose0 L alg encrypt0_builder_new h plaintext cek nonce = Ok m"
    "parsed_header (encrypt0_protected m) = h\<lparr>header_alg := Some (cipher_algorithm (select_cipher L alg))\<rparr>"
    "encrypt0_to_vec (lib_cose L) m = Ok bs"
    "encrypt0_from_slice (lib_cose L) bs = Ok (m\<lparr>encrypt0_protected := p\<rparr>)"
    "parsed_header p = parsed_header (encrypt0_protected m)"
    "decrypt_cose0 L m (Exactly alg) cek = Ok plaintext"
    "decrypt_cose0 L (m\<lparr>encrypt0_protected := p\<rparr>) (Exactly alg) cek = Ok plaintext"
proof -
  obtain padded where m: "encrypt_cose0 L alg encrypt0_builder_new h plaintext cek nonce =
       Ok (cipher_encrypt_cose0 L (select_cipher L alg) encrypt0_builder_new h padded cek nonce)"
    using encrypt_cose0_Ok [OF assms(2)] by metis
  let ?m = "cipher_encrypt_cose0 L (select_cipher L alg) encrypt0_builder_new h padded cek nonce"
  have head: "parsed_header (encrypt0_protected ?m) = h\<lparr>header_alg := Some (cipher_algorithm (select_cipher L alg))\<rparr>"
    by (simp add: cipher_encrypt_cose0_def fresh_protected_def Let_def)
  have "cose_encrypt0_encodable ?m"
    using assms(4) by (simp add: cose_encrypt0_encodable_def cipher_encrypt_cose0_def fresh_protected_def
        header_encodable_def Let_def)
  then obtain bs p where bs: "encrypt0_to_vec (lib_cose L) ?m = Ok bs"
    "encrypt0_from_slice (lib_cose L) bs = Ok (?m\<lparr>encrypt0_protected := p\<rparr>)"
    and p: "parsed_header p = parsed_header (encrypt0_protected ?m)"
    "encrypt0_aad (lib_cose L) p = encrypt0_aad (lib_cose L) (encrypt0_protected ?m)"
    using encrypt0_reparse [OF assms(1)] by metis
  have pol: "case Exactly alg of Exactly expected \<Rightarrow> alg = expected | _ \<Rightarrow> True" by simp
  have same: "?m\<lparr>encrypt0_protected := encrypt0_protected ?m\<rparr> = ?m" by simp
  show thesis
    using that [OF m head bs p(1)] decrypt_encrypt_cose0 [OF assms(1-3) m refl refl pol, unfolded same]
      decrypt_encrypt_cose0 [OF assms(1-3) m p pol] by blast
qed

lemma pad_cbor_Ok: "\<exists>p. pad_cbor bs = Ok p \<and> unpad_cbor p = Ok bs"
proof -
  have "\<not> 64 - length bs > 255" by simp
  then obtain p where "pad_bytes bs DATA_ENVELOPE_PADDING_SIZE = Ok p"
    unfolding pad_bytes_eq DATA_ENVELOPE_PADDING_SIZE_def by simp
  then show ?thesis using unpad_pad_bytes by (auto simp: pad_cbor_def unpad_cbor_def)
qed

text \<open>What a data envelope opens to, with a key of the same id: the data in its own namespace,
  an error in every other one.\<close>

lemma data_seal_ref_opens:
  assumes "crypto_lib_ok L" "sealable_ok S" "cbor_serialize S x = Ok bs"
    and "length (aead_enc_key cek) = 32" "length nonce = 12"
  obtains env where "data_seal_ref L S x ns cek nonce = Ok env"
    "\<And>ns' S' cek'. data_unseal_ref L S' env ns' cek' =
       (if view_key_id L cek' \<noteq> aead_key_id cek then Err DataWrongKey
        else if ns' \<noteq> ns then Err DataInvalidNamespace
        else data_unseal_ref L S' env ns cek')"
    "\<And>ops. data_unseal_ref L S env ns (Aes256GcmView (cek\<lparr>supported_operations := ops\<rparr>)) = Ok x"
proof -
  let ?alg = "cose_content_encryption_algorithm.Aes256Gcm"
  let ?h = "set_safe_namespaces data_namespaces DataEnvelope ns (header_new\<lparr>header_key_id := aead_key_id cek,
           header_content_type := Some (TextContentType CONTENT_TYPE_PADDED_CBOR)\<rparr>)"
  obtain msg where msg: "message_encode S x = Ok msg" "serialized_message_bytes msg = bs"
    using assms(3) by (simp add: message_encode_def)
  note decoded = message_roundtrip [OF assms(2) msg(1)]
  obtain padded where pad: "pad_cbor bs = Ok padded" "unpad_cbor padded = Ok bs" using pad_cbor_Ok by blast
  have len: "length (aead_enc_key cek) = cipher_key_size (select_cipher L ?alg)" "length nonce = nonce_size ?alg"
    using assms(4,5) unfolding cipher_key_size_select by simp_all
  have encodable: "header_encodable ?h"
    by (rule data_ns.set_namespaces_encodable) (simp add: header_encodable_def content_type_names)
  obtain m out p where enc:
    "encrypt_cose0 L ?alg encrypt0_builder_new ?h padded (aead_enc_key cek) nonce = Ok m"
    "parsed_header (encrypt0_protected m) = ?h\<lparr>header_alg := Some (cipher_algorithm (select_cipher L ?alg))\<rparr>"
    "encrypt0_to_vec (lib_cose L) m = Ok out"
    "encrypt0_from_slice (lib_cose L) out = Ok (m\<lparr>encrypt0_protected := p\<rparr>)"
    "parsed_header p = parsed_header (encrypt0_protected m)"
    "decrypt_cose0 L (m\<lparr>encrypt0_protected := p\<rparr>) (Exactly ?alg) (aead_enc_key cek) = Ok padded"
    by (rule encrypt_cose0_message [OF assms(1) len encodable, of padded])
  have ns: "validate_safe_namespaces data_namespaces (parsed_header p) DataEnvelope ns' =
      (if ns' = ns then Ok () else Err InvalidNamespaceValue)" for ns'
    using data_ns.validate_set_namespaces [of DataEnvelope ns _ DataEnvelope ns']
    by (subst data_ns.validate_cong [where h' = ?h]) (auto simp: enc)
  have seal: "data_seal_ref L S x ns cek nonce = Ok \<lparr>envelope_data = out\<rparr>"
    using decoded by (simp add: data_seal_ref_def msg pad Let_def enc)
  have fmt: "envelope_content_format p = Ok CONTENT_TYPE_PADDED_CBOR"
    by (simp add: envelope_content_format_def enc)
  have kid: "header_key_id (parsed_header p) = aead_key_id cek" by (simp add: enc)
  have unseal: "data_unseal_ref L S' \<lparr>envelope_data = out\<rparr> ns' cek' =
       (if view_key_id L cek' \<noteq> aead_key_id cek then Err DataWrongKey
        else if ns' \<noteq> ns then Err DataInvalidNamespace
        else data_unseal_ref L S' \<lparr>envelope_data = out\<rparr> ns cek')" for ns' S' cek'
    by (simp add: data_unseal_ref_def enc(4) fmt ns kid)
  have "data_unseal_ref L S \<lparr>envelope_data = out\<rparr> ns (Aes256GcmView (cek\<lparr>supported_operations := ops\<rparr>)) = Ok x" for ops
    using decoded by (simp add: data_unseal_ref_def enc(4,6) fmt ns kid pad msg)
  with that [OF seal] unseal show thesis by blast
qed

text \<open>The content key is a fresh local key that, once the data is sealed, can only decrypt.\<close>

lemma data_seal_Ok:
  assumes "data_seal_ref L S x (sealable_namespace S) (aead_key_make rng_enc rng_id) nonce = Ok env"
  obtains c' where "data_seal L S l rng_enc rng_id nonce x c = (Ok (env, symmetric_new_local l), c')"
    "\<And>j. get_symmetric_key c' j = (if j = symmetric_new_local l then Ok (Aes256GcmKey (sealed_cek rng_enc rng_id))
       else get_symmetric_key c j)"
proof -
  let ?id = "symmetric_new_local l"
  obtain c1 where c1: "add_local_symmetric_key l (Aes256GcmKey (aead_key_make rng_enc rng_id)) c = (?id, c1)"
    by (simp add: add_local_symmetric_key_def Let_def)
  note get1 = conjunct2 [OF symm.get_after_add_local [OF c1]]
  obtain c2 where c2: "set_symmetric_key ?id (Aes256GcmKey (sealed_cek rng_enc rng_id)) c1 = (Ok (), c2)"
    by (simp add: set_symmetric_key_def)
  have "get_symmetric_key c2 j = (if j = ?id then Ok (Aes256GcmKey (sealed_cek rng_enc rng_id))
       else get_symmetric_key c j)" for j
    using symm.get_after_set [of ?id "Aes256GcmKey (sealed_cek rng_enc rng_id)" c1 j] c2 get1 [of j] by simp
  moreover have "disable_key_operation UnwrapKey (disable_key_operation WrapKey
      (disable_key_operation key_operation.Encrypt (aead_key_make rng_enc rng_id))) = sealed_cek rng_enc rng_id"
    by (simp add: disable_key_operation_def aead_key_make_def sealed_cek_def)
  then have "data_seal L S l rng_enc rng_id nonce x c = (Ok (env, ?id), c2)"
    using c2 by (simp add: data_seal_def act_then_def act_pure_def act_read_def act_map_err_def
        content_encryption_key_make_def make_symmetric_key_def c1 get1 assms)
  ultimately show thesis using that by blast
qed

lemma data_unseal_gcm:
  "get_symmetric_key c k = Ok (Aes256GcmKey cek) \<Longrightarrow>
   data_unseal L S env k c = data_unseal_ref L S env (sealable_namespace S) (Aes256GcmView cek)"
  by (simp add: data_unseal_def)

lemma sealed_cek_wf:
  "length rng_enc = 32 \<Longrightarrow> length rng_id = KEY_ID_SIZE \<Longrightarrow> symmetric_key_wf (Aes256GcmKey (sealed_cek rng_enc rng_id))"
  by (simp add: aead_key_wf_def sealed_cek_def aead_key_make_def)

lemma sealed_cek_normal: "normalize_ops (Aes256GcmKey (sealed_cek rng_enc rng_id)) = Aes256GcmKey (sealed_cek rng_enc rng_id)"
  by (simp add: sealed_cek_def sorted_ops_def)

text \<open>A sealed key in the form in which it is stored and read.\<close>

lemma key_seal_opens:
  assumes "crypto_lib_ok L" "get_symmetric_key c k = Ok key" "symmetric_key_wf key"
    and "get_cose_key_view c w = Ok v" "length (view_key_bytes v) = cipher_key_size (select_cipher L (view_algorithm v))"
    and "length nonce = nonce_size (view_algorithm v)"
  obtains env m p bs where "key_seal L k w ns nonce c = Ok env"
    "key_envelope_message env = m"
    "encrypt0_to_vec (lib_cose L) m = Ok bs"
    "encrypt0_from_slice (lib_cose L) bs = Ok (m\<lparr>encrypt0_protected := p\<rparr>)"
    "decrypt_cose0 L (m\<lparr>encrypt0_protected := p\<rparr>) (Exactly (view_algorithm v)) (view_key_bytes v)
       = Ok (encoded_into_vec (to_encoded_raw L key))"
    "decode_sealed_symmetric_key L (parsed_header p) (encoded_into_vec (to_encoded_raw L key)) = Ok (normalize_ops key)"
    "\<And>ns'. validate_safe_namespaces symmetric_key_namespaces (parsed_header p) SymmetricKeyEnvelope ns' =
       (if ns' = ns then Ok () else Err InvalidNamespaceValue)"
    "extract_key_id (parsed_header p) = Ok (symmetric_key_id L key)"
proof -
  let ?e = "to_encoded_raw L key"
  let ?h0 = "set_contained_key_id (symmetric_key_id L key) (content_format_into_header (encoded_content_format ?e))"
  let ?h1 = "set_safe_namespaces symmetric_key_namespaces SymmetricKeyEnvelope ns ?h0"
  let ?h = "?h1\<lparr>header_key_id := view_key_id L v\<rparr>"
  have encodable: "header_encodable ?h"
    by (simp add: symmetric_key_ns.set_namespaces_encodable set_contained_key_id_encodable
        content_format_header_encodable)
  obtain m bs p where enc:
    "encrypt_cose0 L (view_algorithm v) encrypt0_builder_new ?h (encoded_into_vec ?e) (view_key_bytes v) nonce = Ok m"
    "parsed_header (encrypt0_protected m) =
       ?h\<lparr>header_alg := Some (cipher_algorithm (select_cipher L (view_algorithm v)))\<rparr>"
    "encrypt0_to_vec (lib_cose L) m = Ok bs"
    "encrypt0_from_slice (lib_cose L) bs = Ok (m\<lparr>encrypt0_protected := p\<rparr>)"
    "parsed_header p = parsed_header (encrypt0_protected m)"
    "decrypt_cose0 L (m\<lparr>encrypt0_protected := p\<rparr>) (Exactly (view_algorithm v)) (view_key_bytes v)
       = Ok (encoded_into_vec ?e)"
    by (rule encrypt_cose0_message [OF assms(1,5,6) encodable, of "encoded_into_vec ?e"])
  have pair: "(case ?e of EncodedLegacyKey key_bytes \<Rightarrow> (content_format.BitwardenLegacyKey, key_bytes)
     | EncodedCoseKey key_bytes \<Rightarrow> (content_format.CoseKey, key_bytes)) = (encoded_content_format ?e, encoded_into_vec ?e)"
    by (cases ?e) simp_all
  have seal: "key_seal L k w ns nonce c = Ok \<lparr>key_envelope_message = m\<rparr>"
    unfolding key_seal_def assms(2,4) map_err.simps and_then.simps pair by (simp add: Let_def enc(1))
  have rest: "header_rest (parsed_header p) = header_rest ?h1" by (simp add: enc)
  have "validate_safe_namespaces symmetric_key_namespaces (parsed_header p) SymmetricKeyEnvelope ns' =
       (if ns' = ns then Ok () else Err InvalidNamespaceValue)" for ns'
    unfolding symmetric_key_ns.validate_cong [OF rest] symmetric_key_ns.validate_set_namespaces by auto
  moreover have "extract_key_id (parsed_header p) = extract_key_id ?h1"
    using rest by (simp add: extract_key_id_def extract_bytes_def)
  then have "extract_key_id (parsed_header p) = Ok (symmetric_key_id L key)"
    using extract_contained_key_id [OF extract_bytes_content_format symmetric_key_id_length [OF assms(1,3)]] by simp
  moreover have "decode_sealed_symmetric_key L (parsed_header p) (encoded_into_vec ?e) = Ok (normalize_ops key)"
    by (rule decode_sealed_key [OF assms(1,3)]) (simp add: enc)
  ultimately show thesis using that [OF seal _ enc(3,4,6)] by simp
qed

lemma get_cose_key_view_cong:
  "get_symmetric_key c k = get_symmetric_key d j \<Longrightarrow> get_cose_key_view c k = get_cose_key_view d j"
  by (simp add: get_cose_key_view_def)


lemma data_namespace_try_from: "data_envelope_namespace_try_from i = Some ns \<longleftrightarrow> i = data_envelope_namespace_as_i64 ns"
  by (cases ns) (auto simp: data_envelope_namespace_try_from_def)

lemma user_key_context_key: "get_symmetric_key (user_key_context key) User = Ok key"
  by (simp add: user_key_context_def set_symmetric_key_def update_global_eq context_mut_def
      get_symmetric_key_def backend_get_def backend_upsert_def)

lemma kek_example_facts:
  "symmetric_key_wf kek_example" "can_encrypt kek_example" "enc_string_nonce_size kek_example = 24"
  by (simp_all add: kek_example_def aead_key_wf_def aead_key_make_def KEY_ID_SIZE_def)


section \<open>Properties\<close>

text \<open>C12: Data sealed in an envelope is unsealed from it with the content key that sealing left in
  the context; that key can only decrypt; a type bound to another namespace cannot open the
  envelope; every other slot of the context is unchanged.\<close>

theorem data_envelope_roundtrip:
  assumes "crypto_lib_ok L" "sealable_ok S" "cbor_serialize S x = Ok bs"
    and "length rng_enc = 32" "length nonce = 12"
  shows "\<exists>env cek c'. data_seal L S l rng_enc rng_id nonce x c = (Ok (env, symmetric_new_local l), c')
     \<and> data_unseal L S env (symmetric_new_local l) c' = Ok x
     \<and> get_symmetric_key c' (symmetric_new_local l) = Ok (Aes256GcmKey cek)
     \<and> supported_operations cek = [key_operation.Decrypt]
     \<and> (\<forall>S' :: 'b sealable. sealable_namespace S' \<noteq> sealable_namespace S \<longrightarrow>
          data_unseal L S' env (symmetric_new_local l) c' = Err DataInvalidNamespace)
     \<and> (\<forall>j. j \<noteq> symmetric_new_local l \<longrightarrow> get_symmetric_key c' j = get_symmetric_key c j)"
proof -
  let ?cek = "aead_key_make rng_enc rng_id" and ?id = "symmetric_new_local l"
  have len: "length (aead_enc_key ?cek) = 32" using assms(4) by (simp add: aead_key_make_def)
  obtain env where seal: "data_seal_ref L S x (sealable_namespace S) ?cek nonce = Ok env"
    and opens: "\<And>ns' (S' :: 'b sealable) cek'. data_unseal_ref L S' env ns' cek' =
       (if view_key_id L cek' \<noteq> aead_key_id ?cek then Err DataWrongKey
        else if ns' \<noteq> sealable_namespace S then Err DataInvalidNamespace
        else data_unseal_ref L S' env (sealable_namespace S) cek')"
    and same: "\<And>ops. data_unseal_ref L S env (sealable_namespace S)
       (Aes256GcmView (?cek\<lparr>supported_operations := ops\<rparr>)) = Ok x"
    by (rule data_seal_ref_opens [OF assms(1-3) len assms(5)]) blast
  obtain c' where c': "data_seal L S l rng_enc rng_id nonce x c = (Ok (env, ?id), c')"
    and get: "\<And>j. get_symmetric_key c' j = (if j = ?id then Ok (Aes256GcmKey (sealed_cek rng_enc rng_id))
       else get_symmetric_key c j)"
    by (rule data_seal_Ok [OF seal]) blast
  have "get_symmetric_key c' ?id = Ok (Aes256GcmKey (sealed_cek rng_enc rng_id))" using get [of ?id] by simp
  note unseal = data_unseal_gcm [OF this]
  have "data_unseal L S env ?id c' = Ok x"
    unfolding unseal using same [of "[key_operation.Decrypt]"] by (simp only: sealed_cek_def)
  moreover have "data_unseal L S' env ?id c' = Err DataInvalidNamespace"
    if "sealable_namespace S' \<noteq> sealable_namespace S" for S' :: "'b sealable"
    unfolding unseal using opens [of S' "sealable_namespace S'" "Aes256GcmView (sealed_cek rng_enc rng_id)"] that
    by (simp add: sealed_cek_def)
  moreover have "supported_operations (sealed_cek rng_enc rng_id) = [key_operation.Decrypt]"
    by (simp add: sealed_cek_def)
  ultimately show ?thesis using c' get by (metis (no_types, lifting))
qed

lemma word_sealable_ok: "sealable_ok (word_sealable ns)"
  by (simp add: sealable_ok_def word_sealable_def)

theorem data_envelope_roundtrip_witness:
  "\<exists>env c'. data_seal crypto_ref (word_sealable VaultItem) (LocalId 1) (replicate 32 1) (replicate 16 2)
        (replicate 12 3) [1, 2] (context_ro (key_store_default :: (u8, unit) key_store_inner))
        = (Ok (env, symmetric_new_local (LocalId 1)), c')
     \<and> data_unseal crypto_ref (word_sealable VaultItem) env (symmetric_new_local (LocalId 1)) c' = Ok [1, 2]
     \<and> data_unseal crypto_ref (word_sealable PamTargetSystem) env (symmetric_new_local (LocalId 1)) c'
         = Err DataInvalidNamespace"
proof -
  have "cbor_serialize (word_sealable VaultItem) [1, 2] = Ok [1, 2]" by (simp add: word_sealable_def)
  from data_envelope_roundtrip [OF crypto_ref_ok word_sealable_ok this, of "replicate 32 1" "replicate 12 3",
      where 'b = bytes, where l = "LocalId 1" and rng_id = "replicate 16 2" and c = "context_ro key_store_default"]
  obtain env c' where e: "data_seal crypto_ref (word_sealable VaultItem) (LocalId 1) (replicate 32 1) (replicate 16 2)
        (replicate 12 3) [1, 2] (context_ro (key_store_default :: (u8, unit) key_store_inner))
        = (Ok (env, symmetric_new_local (LocalId 1)), c')"
    "data_unseal crypto_ref (word_sealable VaultItem) env (symmetric_new_local (LocalId 1)) c' = Ok [1, 2]"
    "\<forall>S' :: bytes sealable. sealable_namespace S' \<noteq> sealable_namespace (word_sealable VaultItem) \<longrightarrow>
       data_unseal crypto_ref S' env (symmetric_new_local (LocalId 1)) c' = Err DataInvalidNamespace"
    by auto
  moreover have "sealable_namespace (word_sealable PamTargetSystem) \<noteq> sealable_namespace (word_sealable VaultItem)"
    by (simp add: word_sealable_def)
  ultimately show ?thesis by blast
qed

text \<open>Data sealed with a wrapping key is recovered, from the envelope and the wrapped content
  key alone, by every context that has the wrapping key.\<close>

theorem data_envelope_wrapped_roundtrip:
  assumes "crypto_lib_ok L" "sealable_ok S" "cbor_serialize S x = Ok bs"
    and "length rng_enc = 32" "length rng_id = KEY_ID_SIZE" "length nonce = 12"
    and "get_symmetric_key c w = Ok wk" "w \<noteq> symmetric_new_local l"
    and "symmetric_key_wf wk" "can_encrypt wk" "length wrap_nonce = enc_string_nonce_size wk"
  shows "\<exists>env wrapped. fst (data_seal_with_wrapping_key L S l rng_enc rng_id nonce wrap_nonce x w c) = Ok (env, wrapped)
     \<and> (\<forall>d :: ('priv, 'sig) key_store_context. get_symmetric_key d w' = Ok wk \<longrightarrow>
          fst (data_unseal_with_wrapping_key L S env l' w' wrapped d) = Ok x)"
proof -
  let ?cek = "aead_key_make rng_enc rng_id" and ?id = "symmetric_new_local l"
  have len: "length (aead_enc_key ?cek) = 32" using assms(4) by (simp add: aead_key_make_def)
  obtain env where seal: "data_seal_ref L S x (sealable_namespace S) ?cek nonce = Ok env"
    and same: "\<And>ops. data_unseal_ref L S env (sealable_namespace S)
       (Aes256GcmView (?cek\<lparr>supported_operations := ops\<rparr>)) = Ok x"
    by (rule data_seal_ref_opens [OF assms(1-3) len assms(6)]) blast
  obtain c' where c': "data_seal L S l rng_enc rng_id nonce x c = (Ok (env, ?id), c')"
    and get: "\<And>j. get_symmetric_key c' j = (if j = ?id then Ok (Aes256GcmKey (sealed_cek rng_enc rng_id))
       else get_symmetric_key c j)"
    by (rule data_seal_Ok [OF seal]) blast
  have "get_symmetric_key c' w = Ok wk" "get_symmetric_key c' ?id = Ok (Aes256GcmKey (sealed_cek rng_enc rng_id))"
    using get [of w] get [of ?id] assms(7,8) by auto
  from wrap_decrypts [OF assms(1,9) sealed_cek_wf [OF assms(4,5)] assms(10,11) this]
  obtain e where e: "wrap_symmetric_key L c' w ?id wrap_nonce = Ok e"
    "decrypt_wrapped_symmetric_key L e wk = Ok (Aes256GcmKey (sealed_cek rng_enc rng_id))"
    unfolding sealed_cek_normal by blast
  have "fst (data_seal_with_wrapping_key L S l rng_enc rng_id nonce wrap_nonce x w c) = Ok (env, e)"
    by (simp add: data_seal_with_wrapping_key_def act_then_def act_read_def c' e)
  moreover have "fst (data_unseal_with_wrapping_key L S env l' w' e d) = Ok x"
    if d: "get_symmetric_key d w' = Ok wk" for d :: "('priv, 'sig) key_store_context"
  proof -
    obtain d' where d': "unwrap_symmetric_key L l' w' e d = (Ok (symmetric_new_local l'), d')"
      "get_symmetric_key d' (symmetric_new_local l') = Ok (Aes256GcmKey (sealed_cek rng_enc rng_id))"
      using unwrap_stores [OF d e(2), of l'] by (metis prod.collapse)
    show ?thesis
      using data_unseal_gcm [OF d'(2), of L S env] same [of "[key_operation.Decrypt]"]
      by (simp add: data_unseal_with_wrapping_key_def act_then_def act_map_err_def act_read_def d'(1) sealed_cek_def)
  qed
  ultimately show ?thesis by blast
qed

theorem data_envelope_wrapped_roundtrip_witness:
  "\<exists>env wrapped. fst (data_seal_with_wrapping_key crypto_ref (word_sealable VaultItem) (LocalId 1) (replicate 32 1)
        (replicate 16 2) (replicate 12 3) (replicate 24 4) [1, 2] User (user_key_context (kek_example :: symmetric_crypto_key)))
        = Ok (env, wrapped)
     \<and> fst (data_unseal_with_wrapping_key crypto_ref (word_sealable VaultItem) env (LocalId 9) User wrapped
        (user_key_context kek_example)) = Ok [1, 2]"
proof -
  have bytes: "cbor_serialize (word_sealable VaultItem) [1, 2] = Ok [1, 2]" by (simp add: word_sealable_def)
  have "User \<noteq> symmetric_new_local (LocalId 1)" by (simp add: symmetric_new_local_def)
  then obtain env wrapped where "fst (data_seal_with_wrapping_key crypto_ref (word_sealable VaultItem) (LocalId 1) (replicate 32 1)
        (replicate 16 2) (replicate 12 3) (replicate 24 4) [1, 2] User (user_key_context kek_example)) = Ok (env, wrapped)"
    "\<forall>d :: (u8, unit) key_store_context. get_symmetric_key d User = Ok kek_example \<longrightarrow>
      fst (data_unseal_with_wrapping_key crypto_ref (word_sealable VaultItem) env (LocalId 9) User wrapped d) = Ok [1, 2]"
    using data_envelope_wrapped_roundtrip [OF crypto_ref_ok word_sealable_ok bytes _ _ _ user_key_context_key
        _ kek_example_facts(1,2), where rng_enc = "replicate 32 1" and rng_id = "replicate 16 2" and nonce = "replicate 12 3"
        and wrap_nonce = "replicate 24 4" and l = "LocalId 1" and l' = "LocalId 9" and w' = User]
    by (auto simp add: kek_example_facts KEY_ID_SIZE_def)
  then show ?thesis using user_key_context_key by blast
qed

text \<open>A key sealed for a namespace is recovered after its envelope went through its text form,
  by every context that has the same key-encryption key: the new local slot has the key (with
  its operations in registry order) and the envelope names its id.  In another namespace
  unsealing fails and changes nothing.\<close>

theorem key_envelope_roundtrip:
  assumes "crypto_lib_ok L" "get_symmetric_key c k = Ok key" "symmetric_key_wf key"
    and "get_symmetric_key c w = Ok wk" "symmetric_key_wf wk" "get_cose_key_view c w = Ok v"
    and "length nonce = nonce_size (view_algorithm v)"
  shows "\<exists>env env'. key_seal L k w ns nonce c = Ok env
     \<and> key_envelope_from_str L (key_envelope_to_string L env) = Ok env'
     \<and> key_envelope_contained_key_id env' = Ok (symmetric_key_id L key)
     \<and> (\<forall>d :: ('priv, 'sig) key_store_context. get_symmetric_key d w' = Ok wk \<longrightarrow>
          fst (key_unseal L l env' w' ns d) = Ok (symmetric_new_local l)
          \<and> (\<forall>j. get_symmetric_key (snd (key_unseal L l env' w' ns d)) j =
                (if j = symmetric_new_local l then Ok (normalize_ops key) else get_symmetric_key d j))
          \<and> (\<forall>ns'. ns' \<noteq> ns \<longrightarrow> key_unseal L l env' w' ns' d = (Err KeyInvalidNamespace, d)))"
proof -
  obtain env m p bs where env: "key_seal L k w ns nonce c = Ok env"
    "key_envelope_message env = m"
    "encrypt0_to_vec (lib_cose L) m = Ok bs"
    "encrypt0_from_slice (lib_cose L) bs = Ok (m\<lparr>encrypt0_protected := p\<rparr>)"
    "decrypt_cose0 L (m\<lparr>encrypt0_protected := p\<rparr>) (Exactly (view_algorithm v)) (view_key_bytes v)
       = Ok (encoded_into_vec (to_encoded_raw L key))"
    "decode_sealed_symmetric_key L (parsed_header p) (encoded_into_vec (to_encoded_raw L key)) = Ok (normalize_ops key)"
    and ns: "\<And>ns'. validate_safe_namespaces symmetric_key_namespaces (parsed_header p) SymmetricKeyEnvelope ns' =
       (if ns' = ns then Ok () else Err InvalidNamespaceValue)"
    and kid: "extract_key_id (parsed_header p) = Ok (symmetric_key_id L key)"
    by (rule key_seal_opens [OF assms(1-3,6) kek_view_length [OF assms(6,4,5)] assms(7)]) blast
  let ?env = "\<lparr>key_envelope_message = m\<lparr>encrypt0_protected := p\<rparr>\<rparr>"
  have parsed: "key_envelope_from_str L (key_envelope_to_string L env) = Ok ?env"
    using b64.read_show [OF crypto_lib_okD(1) [OF assms(1)]]
    by (simp add: key_envelope_from_str_def key_envelope_to_string_def key_envelope_to_vec_def
        key_envelope_try_from_def env)
  have view: "get_cose_key_view d w' = Ok v" if "get_symmetric_key d w' = Ok wk" for d :: "('priv, 'sig) key_store_context"
    using assms(4,6) that by (auto simp: get_cose_key_view_Ok)
  have unseal: "key_unseal L l ?env w' ns' d = (if ns' = ns
      then (case add_local_symmetric_key l (normalize_ops key) d of (k, d') \<Rightarrow> (Ok k, d'))
      else (Err KeyInvalidNamespace, d))" if "get_symmetric_key d w' = Ok wk" for ns' and d :: "('priv, 'sig) key_store_context"
    by (simp add: key_unseal_def act_then_def act_read_def act_pure_def view [OF that] ns env)
  show ?thesis
    using env(1) parsed kid unseal symm.get_after_add_local
    by (fastforce simp: key_envelope_contained_key_id_def split: prod.splits)
qed

theorem key_envelope_roundtrip_witness:
  "\<exists>env env'. key_seal crypto_ref User User SessionKey (replicate 24 5) (user_key_context kek_example) = Ok env
     \<and> key_envelope_from_str crypto_ref (key_envelope_to_string crypto_ref env) = Ok env'
     \<and> fst (key_unseal crypto_ref (LocalId 4) env' User SessionKey (user_key_context kek_example))
         = Ok (symmetric_new_local (LocalId 4))
     \<and> fst (key_unseal crypto_ref (LocalId 4) env' User KeyOrganizationInvite (user_key_context kek_example))
         = Err KeyInvalidNamespace"
proof -
  have "get_cose_key_view (user_key_context kek_example) User
      = Ok (XAes256GcmView (aead_key_make (replicate 32 1) (replicate 16 2)))"
    using user_key_context_key [of kek_example] by (simp add: get_cose_key_view_Ok kek_example_def)
  from key_envelope_roundtrip [OF crypto_ref_ok user_key_context_key kek_example_facts(1) user_key_context_key
      kek_example_facts(1) this, of "replicate 24 5" SessionKey User "LocalId 4",
      where 'priv = u8 and 'sig = unit]
  obtain env env' where "key_seal crypto_ref User User SessionKey (replicate 24 5) (user_key_context kek_example) = Ok env"
    "key_envelope_from_str crypto_ref (key_envelope_to_string crypto_ref env) = Ok env'"
    and all: "\<forall>d :: (u8, unit) key_store_context. get_symmetric_key d User = Ok kek_example \<longrightarrow>
      fst (key_unseal crypto_ref (LocalId 4) env' User SessionKey d) = Ok (symmetric_new_local (LocalId 4))
      \<and> (\<forall>ns'. ns' \<noteq> SessionKey \<longrightarrow> key_unseal crypto_ref (LocalId 4) env' User ns' d = (Err KeyInvalidNamespace, d))"
    by auto
  with all [rule_format, OF user_key_context_key] show ?thesis by auto
qed

text \<open>C28: What unsealing a data envelope has checked when it succeeds: the message names the
  id and the algorithm of the content key, is padded CBOR, and its namespaces, where they
  are integers, are those of a data envelope and of the requested type.\<close>

theorem data_unseal_checks:
  assumes "data_unseal_ref L S env ns cek = Ok x"
  shows "\<exists>m. encrypt0_from_slice (lib_cose L) (envelope_data env) = Ok m
     \<and> (let h = parsed_header (encrypt0_protected m) in
          header_key_id h = view_key_id L cek
          \<and> (\<exists>a. header_alg h = Some a \<and> content_encryption_algorithm_try_from a = Ok (view_algorithm cek))
          \<and> header_content_type h = Some (TextContentType CONTENT_TYPE_PADDED_CBOR)
          \<and> (\<forall>i. extract_integer h SAFE_OBJECT_NAMESPACE ''safe object namespace'' = Ok i \<longrightarrow>
                 i = safe_object_namespace_into DataEnvelope)
          \<and> (\<forall>i. extract_integer h SAFE_CONTENT_NAMESPACE ''safe content namespace'' = Ok i \<longrightarrow>
                 i = data_envelope_namespace_as_i64 ns))"
proof -
  obtain m f pt where m: "encrypt0_from_slice (lib_cose L) (envelope_data env) = Ok m"
    "envelope_content_format (encrypt0_protected m) = Ok f"
    "header_key_id (parsed_header (encrypt0_protected m)) = view_key_id L cek"
    "validate_safe_namespaces data_namespaces (parsed_header (encrypt0_protected m)) DataEnvelope ns = Ok ()"
    "f = CONTENT_TYPE_PADDED_CBOR"
    "decrypt_cose0 L m (Exactly (view_algorithm cek)) (view_key_bytes cek) = Ok pt"
    using assms by (auto simp: data_unseal_ref_def Let_def result_simps split: if_splits)
  have "\<exists>a. header_alg (parsed_header (encrypt0_protected m)) = Some a
      \<and> content_encryption_algorithm_try_from a = Ok (view_algorithm cek)"
    using m(6) algorithm_from_header_Exactly by (auto simp: decrypt_cose0_def result_simps)
  moreover have "header_content_type (parsed_header (encrypt0_protected m)) = Some (TextContentType CONTENT_TYPE_PADDED_CBOR)"
    using m(2,5) by (auto simp: envelope_content_format_def result_simps split: option.splits content_type.splits)
  ultimately show ?thesis
    using m(1,3) m(4) [unfolded validate_Ok_iff] data_namespace_try_from by (auto simp: Let_def namespace_defs)
qed

theorem data_unseal_checks_witness:
  "\<exists>env m. data_unseal_ref crypto_ref (word_sealable VaultItem) env VaultItem
        (Aes256GcmView (aead_key_make (replicate 32 1) (replicate 16 2))) = Ok [1, 2]
     \<and> encrypt0_from_slice (lib_cose crypto_ref) (envelope_data env) = Ok m
     \<and> header_key_id (parsed_header (encrypt0_protected m)) = replicate 16 2"
proof -
  let ?cek = "aead_key_make (replicate 32 1) (replicate 16 2)"
  have "cbor_serialize (word_sealable VaultItem) [1, 2] = Ok [1, 2]" "length (aead_enc_key ?cek) = 32"
    by (simp_all add: word_sealable_def aead_key_make_def)
  from data_seal_ref_opens [OF crypto_ref_ok word_sealable_ok this, of "replicate 12 3" VaultItem]
  obtain env where env: "\<And>ops. data_unseal_ref crypto_ref (word_sealable VaultItem) env VaultItem
      (Aes256GcmView (?cek\<lparr>supported_operations := ops\<rparr>)) = Ok [1, 2]"
    by (metis length_replicate)
  have "?cek\<lparr>supported_operations := supported_operations ?cek\<rparr> = ?cek" by simp
  with env [of "supported_operations ?cek"]
  have "data_unseal_ref crypto_ref (word_sealable VaultItem) env VaultItem (Aes256GcmView ?cek) = Ok [1, 2]" by simp
  with data_unseal_checks [OF this] show ?thesis by (auto simp: Let_def aead_key_make_def)
qed

end
