(* ===== verification/Key_Envelopes.thy ===== *)
theory Key_Envelopes
  imports Envelopes
begin

text \<open>
  Key envelopes that are opened with a password or with a high-entropy secret
  (\<open>safe/password_protected_key_envelope.rs\<close>, \<open>safe/secret_protected_key_envelope.rs\<close>,
  \<open>safe/high_entropy_secret.rs\<close>).  The envelope is a COSE Encrypt message whose single recipient
  has the parameters of the key derivation.  Serializing a COSE Encrypt message and
  HKDF-SHA256 come from other crates and are the parameters of the record \<open>envelope_lib\<close>; the
  target of the build (\<open>cfg!(target_os = "ios")\<close>) is the argument \<open>ios\<close>, and random salts and
  nonces are arguments.
\<close>

section \<open>Library functions\<close>

record envelope_lib =
  encrypt_to_vec :: "cose_encrypt \<Rightarrow> (bytes, string) result"
  encrypt_from_slice :: "bytes \<Rightarrow> (cose_encrypt, string) result"
  lib_hkdf_sha256 :: "bytes \<Rightarrow> bytes \<Rightarrow> bytes \<Rightarrow> nat \<Rightarrow> (bytes, string) result"

text \<open>What serializing and parsing keeps of a message: everything but the stored bytes of the
  protected headers, which authenticate the same.\<close>

definition same_recipient :: "cose_recipient \<Rightarrow> cose_recipient \<Rightarrow> bool" where
  "same_recipient r r' \<longleftrightarrow>
     parsed_header (recipient_protected r') = parsed_header (recipient_protected r)
     \<and> recipient_unprotected r' = recipient_unprotected r \<and> recipient_ciphertext r' = recipient_ciphertext r"

definition same_message :: "cose_lib \<Rightarrow> cose_encrypt \<Rightarrow> cose_encrypt \<Rightarrow> bool" where
  "same_message C m m' \<longleftrightarrow>
     parsed_header (encrypt_protected m') = parsed_header (encrypt_protected m)
     \<and> encrypt_aad C (encrypt_protected m') = encrypt_aad C (encrypt_protected m)
     \<and> encrypt_unprotected m' = encrypt_unprotected m \<and> encrypt_ciphertext m' = encrypt_ciphertext m
     \<and> list_all2 same_recipient (encrypt_recipients m) (encrypt_recipients m')"

definition cose_encrypt_encodable :: "cose_encrypt \<Rightarrow> bool" where
  "cose_encrypt_encodable m \<longleftrightarrow>
     original_data (encrypt_protected m) = None
     \<and> header_encodable (parsed_header (encrypt_protected m)) \<and> header_encodable (encrypt_unprotected m)
     \<and> encrypt_recipients m \<noteq> []
     \<and> list_all (\<lambda>r. original_data (recipient_protected r) = None
          \<and> header_encodable (parsed_header (recipient_protected r))
          \<and> header_encodable (recipient_unprotected r)) (encrypt_recipients m)"

definition envelope_lib_ok :: "crypto_lib \<Rightarrow> envelope_lib \<Rightarrow> bool" where
  "envelope_lib_ok L X \<longleftrightarrow>
     (\<forall>m. cose_encrypt_encodable m \<longrightarrow>
        (\<exists>bs m'. encrypt_to_vec X m = Ok bs \<and> encrypt_from_slice X bs = Ok m' \<and> same_message (lib_cose L) m m'))
     \<and> (\<forall>salt ikm info n. n \<le> 255 * 32 \<longrightarrow> (\<exists>k. lib_hkdf_sha256 X salt ikm info n = Ok k \<and> length k = n))"


section \<open>Constants of cose/mod.rs\<close>

definition ALG_ARGON2ID13 :: int where
  "ALG_ARGON2ID13 = - 71000"

definition ALG_PBKDF2_SHA256 :: int where
  "ALG_PBKDF2_SHA256 = - 71010"

definition ARGON2_SALT :: int where
  "ARGON2_SALT = - 71001"

definition ARGON2_ITERATIONS :: int where
  "ARGON2_ITERATIONS = - 71002"

definition ARGON2_MEMORY :: int where
  "ARGON2_MEMORY = - 71003"

definition ARGON2_PARALLELISM :: int where
  "ARGON2_PARALLELISM = - 71004"

definition PBKDF2_ITERATIONS :: int where
  "PBKDF2_ITERATIONS = - 71011"

definition PBKDF2_SALT :: int where
  "PBKDF2_SALT = - 71012"

lemmas kdf_constants =
  ALG_ARGON2ID13_def ALG_PBKDF2_SHA256_def ARGON2_SALT_def ARGON2_ITERATIONS_def ARGON2_MEMORY_def
  ARGON2_PARALLELISM_def PBKDF2_ITERATIONS_def PBKDF2_SALT_def

text \<open>\<open>HeaderBuilder::value\<close>, and \<open>u32::try_from\<close> on the integers of a header.\<close>

definition builder_value :: "int \<Rightarrow> cbor_value \<Rightarrow> header \<Rightarrow> header" where
  "builder_value label value header = header\<lparr>header_rest := header_rest header @ [(IntLabel label, value)]\<rparr>"

definition u32_try_from :: "int \<Rightarrow> (u32, string) result" where
  "u32_try_from i =
     (if 0 \<le> i \<and> i < 2 ^ 32 then Ok (of_int i)
      else Err ''out of range integral type conversion attempted'')"


section \<open>Password-protected key envelopes\<close>

datatype password_protected_key_envelope_error =
    WrongPassword
  | PasswordParsing string
  | PasswordKdf
  | PasswordKeyMissing
  | PasswordKeyStore
  | PasswordInvalidNamespace

fun password_from_extract_error :: "cose_extract_error \<Rightarrow> password_protected_key_envelope_error" where
  "password_from_extract_error (cose_extract_error.MissingValue label) =
     PasswordParsing (''Missing value for '' @ label)"

definition password_from_int_error :: "string \<Rightarrow> password_protected_key_envelope_error" where
  "password_from_int_error err = PasswordParsing (''Invalid integer: '' @ err)"

definition ENVELOPE_ARGON2_SALT_SIZE :: nat where
  "ENVELOPE_ARGON2_SALT_SIZE = 16"

definition ENVELOPE_PBKDF2_SALT_SIZE :: nat where
  "ENVELOPE_PBKDF2_SALT_SIZE = 16"

definition ENVELOPE_PBKDF2_ITERATIONS :: u32 where
  "ENVELOPE_PBKDF2_ITERATIONS = 600000"

record argon2_raw_settings =
  argon2_iterations :: u32
  argon2_memory :: u32
  argon2_parallelism :: u32
  argon2_salt :: bytes

record pbkdf2_raw_settings =
  pbkdf2_iterations :: u32
  pbkdf2_salt :: bytes

datatype envelope_kdf =
    EnvelopeArgon2id argon2_raw_settings
  | EnvelopePbkdf2 pbkdf2_raw_settings

definition argon2_local_kdf_settings :: "bool \<Rightarrow> bytes \<Rightarrow> argon2_raw_settings" where
  "argon2_local_kdf_settings ios rng_salt =
     (if ios then \<lparr>argon2_iterations = 6, argon2_memory = 32 * 1024, argon2_parallelism = 4, argon2_salt = rng_salt\<rparr>
      else \<lparr>argon2_iterations = 3, argon2_memory = 64 * 1024, argon2_parallelism = 4, argon2_salt = rng_salt\<rparr>)"

definition pbkdf2_local_kdf_settings :: "bytes \<Rightarrow> pbkdf2_raw_settings" where
  "pbkdf2_local_kdf_settings rng_salt =
     \<lparr>pbkdf2_iterations = ENVELOPE_PBKDF2_ITERATIONS, pbkdf2_salt = rng_salt\<rparr>"

primrec suite_kdf :: "bool \<Rightarrow> bytes \<Rightarrow> cipher_suite \<Rightarrow> envelope_kdf" where
  "suite_kdf ios rng_salt Standard = EnvelopeArgon2id (argon2_local_kdf_settings ios rng_salt)"
| "suite_kdf ios rng_salt Fips = EnvelopePbkdf2 (pbkdf2_local_kdf_settings rng_salt)"

primrec envelope_kdf_cose_alg :: "envelope_kdf \<Rightarrow> cose_algorithm" where
  "envelope_kdf_cose_alg (EnvelopeArgon2id _) = PrivateUse ALG_ARGON2ID13"
| "envelope_kdf_cose_alg (EnvelopePbkdf2 _) = PrivateUse ALG_PBKDF2_SHA256"

definition argon2_into_header :: "argon2_raw_settings \<Rightarrow> header" where
  "argon2_into_header settings =
     (builder_value ARGON2_SALT (Bytes (argon2_salt settings))
     (builder_value ARGON2_PARALLELISM (Integer (uint (argon2_parallelism settings)))
     (builder_value ARGON2_MEMORY (Integer (uint (argon2_memory settings)))
     (builder_value ARGON2_ITERATIONS (Integer (uint (argon2_iterations settings))) header_new))))
       \<lparr>header_alg := Some (PrivateUse ALG_ARGON2ID13)\<rparr>"

definition pbkdf2_into_header :: "pbkdf2_raw_settings \<Rightarrow> header" where
  "pbkdf2_into_header settings =
     (builder_value PBKDF2_SALT (Bytes (pbkdf2_salt settings))
     (builder_value PBKDF2_ITERATIONS (Integer (uint (pbkdf2_iterations settings))) header_new))
       \<lparr>header_alg := Some (PrivateUse ALG_PBKDF2_SHA256)\<rparr>"

primrec envelope_kdf_into_header :: "envelope_kdf \<Rightarrow> header" where
  "envelope_kdf_into_header (EnvelopeArgon2id settings) = argon2_into_header settings"
| "envelope_kdf_into_header (EnvelopePbkdf2 settings) = pbkdf2_into_header settings"

text \<open>An integer of a header as a \<open>u32\<close>: both conversions of the readers below.\<close>

definition header_u32 :: "header \<Rightarrow> int \<Rightarrow> string \<Rightarrow> (u32, password_protected_key_envelope_error) result" where
  "header_u32 header label name =
     and_then (map_err password_from_extract_error (extract_integer header label name)) (\<lambda>i.
     map_err password_from_int_error (u32_try_from i))"

definition argon2_from_header :: "header \<Rightarrow> (argon2_raw_settings, password_protected_key_envelope_error) result" where
  "argon2_from_header header =
     and_then (header_u32 header ARGON2_ITERATIONS ''iterations'') (\<lambda>iterations.
     and_then (header_u32 header ARGON2_MEMORY ''memory'') (\<lambda>memory.
     and_then (header_u32 header ARGON2_PARALLELISM ''parallelism'') (\<lambda>parallelism.
     and_then (map_err password_from_extract_error (extract_bytes header ARGON2_SALT ''salt'')) (\<lambda>salt.
     and_then (try_into_array ENVELOPE_ARGON2_SALT_SIZE (PasswordParsing ''Invalid Argon2 salt'') salt) (\<lambda>salt.
     Ok \<lparr>argon2_iterations = iterations, argon2_memory = memory, argon2_parallelism = parallelism,
         argon2_salt = salt\<rparr>)))))"

definition pbkdf2_from_header :: "header \<Rightarrow> (pbkdf2_raw_settings, password_protected_key_envelope_error) result" where
  "pbkdf2_from_header header =
     and_then (header_u32 header PBKDF2_ITERATIONS ''iterations'') (\<lambda>iterations.
     and_then (map_err password_from_extract_error (extract_bytes header PBKDF2_SALT ''salt'')) (\<lambda>salt.
     and_then (try_into_array ENVELOPE_PBKDF2_SALT_SIZE (PasswordParsing ''Invalid PBKDF2 salt'') salt) (\<lambda>salt.
     Ok \<lparr>pbkdf2_iterations = iterations, pbkdf2_salt = salt\<rparr>)))"

definition envelope_kdf_try_from ::
  "cose_recipient \<Rightarrow> (envelope_kdf, password_protected_key_envelope_error) result" where
  "envelope_kdf_try_from recipient =
     (let alg = header_alg (parsed_header (recipient_protected recipient)) in
      if alg = Some (PrivateUse ALG_ARGON2ID13)
      then map_ok EnvelopeArgon2id (argon2_from_header (recipient_unprotected recipient))
      else if alg = Some (PrivateUse ALG_PBKDF2_SHA256)
      then map_ok EnvelopePbkdf2 (pbkdf2_from_header (recipient_unprotected recipient))
      else Err (PasswordParsing ''Unknown or unsupported KDF algorithm''))"

definition derive_argon2_key ::
  "kdf_lib \<Rightarrow> argon2_raw_settings \<Rightarrow> string \<Rightarrow> (bytes, password_protected_key_envelope_error) result" where
  "derive_argon2_key K settings password =
     map_err (\<lambda>_. PasswordKdf)
       (lib_argon2id K (argon2_memory settings) (argon2_iterations settings) (argon2_parallelism settings)
          (string_bytes password) (argon2_salt settings))"

definition derive_pbkdf2_key ::
  "kdf_lib \<Rightarrow> pbkdf2_raw_settings \<Rightarrow> string \<Rightarrow> (bytes, password_protected_key_envelope_error) result" where
  "derive_pbkdf2_key K settings password =
     Ok (pbkdf2 K (string_bytes password) (pbkdf2_salt settings) (pbkdf2_iterations settings))"

primrec derive_envelope_key ::
  "kdf_lib \<Rightarrow> envelope_kdf \<Rightarrow> string \<Rightarrow> (bytes, password_protected_key_envelope_error) result" where
  "derive_envelope_key K (EnvelopeArgon2id settings) password = derive_argon2_key K settings password"
| "derive_envelope_key K (EnvelopePbkdf2 settings) password = derive_pbkdf2_key K settings password"

text \<open>The protected header and the content of a sealed key, which both envelopes build alike.\<close>

definition sealed_key_content :: "crypto_lib \<Rightarrow> symmetric_crypto_key \<Rightarrow> content_format \<times> bytes" where
  "sealed_key_content L key =
     (case to_encoded_raw L key of
        EncodedLegacyKey key_bytes \<Rightarrow> (content_format.BitwardenLegacyKey, key_bytes)
      | EncodedCoseKey key_bytes \<Rightarrow> (content_format.CoseKey, key_bytes))"

definition sealed_key_header ::
  "crypto_lib \<Rightarrow> 'n content_namespace \<Rightarrow> safe_object_namespace \<Rightarrow> 'n \<Rightarrow> symmetric_crypto_key \<Rightarrow> header" where
  "sealed_key_header L T object_namespace namespace key =
     (let header = content_format_into_header (fst (sealed_key_content L key));
          header = set_contained_key_id (symmetric_key_id L key) header
      in set_safe_namespaces T object_namespace namespace header)"

definition add_recipient :: "cose_recipient \<Rightarrow> cose_encrypt \<Rightarrow> cose_encrypt" where
  "add_recipient recipient builder = builder\<lparr>encrypt_recipients := encrypt_recipients builder @ [recipient]\<rparr>"

record password_protected_key_envelope =
  password_message :: cose_encrypt

definition password_recipient :: "envelope_kdf \<Rightarrow> cose_recipient" where
  "password_recipient kdf =
     \<lparr>recipient_protected = fresh_protected (header_new\<lparr>header_alg := Some (envelope_kdf_cose_alg kdf)\<rparr>),
      recipient_unprotected = envelope_kdf_into_header kdf, recipient_ciphertext = None\<rparr>"

definition password_seal_ref_with_settings ::
  "crypto_lib \<Rightarrow> kdf_lib \<Rightarrow> symmetric_crypto_key \<Rightarrow> string \<Rightarrow> envelope_kdf
   \<Rightarrow> password_protected_key_envelope_namespace \<Rightarrow> bytes
   \<Rightarrow> (password_protected_key_envelope, password_protected_key_envelope_error) result" where
  "password_seal_ref_with_settings L K key_to_seal password kdf namespace nonce =
     and_then (map_err (\<lambda>_. PasswordKdf) (derive_envelope_key K kdf password)) (\<lambda>envelope_key.
     let key_to_seal_bytes = snd (sealed_key_content L key_to_seal);
         protected_header =
           sealed_key_header L password_namespaces PasswordProtectedKeyEnvelope namespace key_to_seal;
         builder = add_recipient (password_recipient kdf) encrypt_builder_new
     in
     and_then (map_err (\<lambda>_. PasswordKdf)
       (encrypt_cose L cose_content_encryption_algorithm.Aes256Gcm builder protected_header key_to_seal_bytes
          envelope_key nonce)) (\<lambda>cose_encrypt.
     Ok \<lparr>password_message = cose_encrypt\<rparr>))"

definition password_seal ::
  "crypto_lib \<Rightarrow> kdf_lib \<Rightarrow> bool \<Rightarrow> bytes \<Rightarrow> bytes \<Rightarrow> symmetric_key_slot_id \<Rightarrow> string
   \<Rightarrow> password_protected_key_envelope_namespace \<Rightarrow> ('priv, 'sig) key_store_context
   \<Rightarrow> (password_protected_key_envelope, password_protected_key_envelope_error) result" where
  "password_seal L K ios rng_salt nonce key_to_seal password namespace ctx =
     and_then (map_err (\<lambda>_. PasswordKeyMissing) (get_symmetric_key ctx key_to_seal)) (\<lambda>key_ref.
     let kdf = suite_kdf ios rng_salt (ctx_cipher_suite ctx)
     in password_seal_ref_with_settings L K key_ref password kdf namespace nonce)"

text \<open>\<open>recipients.first().filter(|_| recipients.len() == 1)\<close>.\<close>

definition password_single_recipient ::
  "password_protected_key_envelope \<Rightarrow> (cose_recipient, password_protected_key_envelope_error) result" where
  "password_single_recipient self =
     (let recipients = encrypt_recipients (password_message self) in
      ok_or (PasswordParsing ''Invalid number of recipients'')
        (case recipients of
           [] \<Rightarrow> None
         | first # _ \<Rightarrow> if length recipients = 1 then Some first else None))"

primrec password_decode_error :: "decode_sealed_key_error \<Rightarrow> password_protected_key_envelope_error" where
  "password_decode_error InvalidContentFormat = PasswordParsing ''Invalid content format''"
| "password_decode_error UnsupportedKeyFormat = PasswordParsing ''Unknown or unsupported content format''"
| "password_decode_error InvalidSealedKey = PasswordParsing ''Failed to decode key''"

definition password_unseal_ref ::
  "crypto_lib \<Rightarrow> kdf_lib \<Rightarrow> password_protected_key_envelope \<Rightarrow> string \<Rightarrow> password_protected_key_envelope_namespace
   \<Rightarrow> (symmetric_crypto_key, password_protected_key_envelope_error) result" where
  "password_unseal_ref L K self password content_namespace =
     (let header = parsed_header (encrypt_protected (password_message self)) in
     and_then (password_single_recipient self) (\<lambda>recipient.
     and_then (map_err (\<lambda>_. PasswordInvalidNamespace)
       (validate_safe_namespaces password_namespaces header PasswordProtectedKeyEnvelope content_namespace)) (\<lambda>_.
     and_then (envelope_kdf_try_from recipient) (\<lambda>kdf.
     and_then (map_err (\<lambda>_. PasswordKdf) (derive_envelope_key K kdf password)) (\<lambda>envelope_key.
     and_then (map_err (\<lambda>_. WrongPassword)
       (decrypt_cose L (password_message self)
          (ProtectedHeaderAlgorithmOrLegacyDefault cose_content_encryption_algorithm.XChaCha20Poly1305)
          envelope_key)) (\<lambda>key_bytes.
     map_err password_decode_error (decode_sealed_symmetric_key L header key_bytes)))))))"

definition password_unseal ::
  "crypto_lib \<Rightarrow> kdf_lib \<Rightarrow> local_id \<Rightarrow> password_protected_key_envelope \<Rightarrow> string
   \<Rightarrow> password_protected_key_envelope_namespace \<Rightarrow> ('priv, 'sig) key_store_context
   \<Rightarrow> (symmetric_key_slot_id, password_protected_key_envelope_error) result \<times> ('priv, 'sig) key_store_context" where
  "password_unseal L K local_id self password namespace =
     act_then (act_read (\<lambda>_. password_unseal_ref L K self password namespace)) (\<lambda>key.
     act_pure (add_local_symmetric_key local_id key))"

definition password_reseal ::
  "crypto_lib \<Rightarrow> kdf_lib \<Rightarrow> password_protected_key_envelope \<Rightarrow> string \<Rightarrow> string
   \<Rightarrow> password_protected_key_envelope_namespace \<Rightarrow> bytes
   \<Rightarrow> (password_protected_key_envelope, password_protected_key_envelope_error) result" where
  "password_reseal L K self password new_password namespace nonce =
     and_then (password_single_recipient self) (\<lambda>recipient.
     and_then (password_unseal_ref L K self password namespace) (\<lambda>unsealed.
     and_then (envelope_kdf_try_from recipient) (\<lambda>kdf.
     password_seal_ref_with_settings L K unsealed new_password kdf namespace nonce)))"

definition password_contained_key_id ::
  "password_protected_key_envelope \<Rightarrow> (key_id option, password_protected_key_envelope_error) result" where
  "password_contained_key_id self =
     map_err (\<lambda>_. PasswordParsing ''Invalid key id'')
       (extract_key_id (parsed_header (encrypt_protected (password_message self))))"

definition password_to_vec :: "envelope_lib \<Rightarrow> password_protected_key_envelope \<Rightarrow> bytes" where
  "password_to_vec X val = expect (encrypt_to_vec X (password_message val))"

definition password_try_from :: "envelope_lib \<Rightarrow> bytes \<Rightarrow> (password_protected_key_envelope, string) result" where
  "password_try_from X value = map_ok (\<lambda>m. \<lparr>password_message = m\<rparr>) (encrypt_from_slice X value)"

definition password_from_str ::
  "crypto_lib \<Rightarrow> envelope_lib \<Rightarrow> string
   \<Rightarrow> (password_protected_key_envelope, password_protected_key_envelope_error) result" where
  "password_from_str L X s =
     and_then (map_err (\<lambda>_. PasswordParsing ''Invalid PasswordProtectedKeyEnvelope Base64 encoding'')
       (b64_try_from (lib_b64 L) s)) (\<lambda>data.
     map_err (\<lambda>_. PasswordParsing ''Failed to parse PasswordProtectedKeyEnvelope'') (password_try_from X data))"

definition password_to_string :: "crypto_lib \<Rightarrow> envelope_lib \<Rightarrow> password_protected_key_envelope \<Rightarrow> string" where
  "password_to_string L X val = b64_to_string (lib_b64 L) (password_to_vec X val)"


section \<open>High-entropy secrets\<close>

definition MIN_SECRET_LENGTH :: nat where
  "MIN_SECRET_LENGTH = 16"

datatype high_entropy_secret_error = TooShort | Malformed

record high_entropy_secret =
  secret_bytes :: bytes

definition secret_from_internal :: "bytes \<Rightarrow> high_entropy_secret" where
  "secret_from_internal secret = \<lparr>secret_bytes = secret\<rparr>"

definition secret_make :: "nat \<Rightarrow> (nat \<Rightarrow> bytes) \<Rightarrow> (high_entropy_secret, high_entropy_secret_error) result" where
  "secret_make desired_size rng =
     (if desired_size < MIN_SECRET_LENGTH then Err TooShort
      else Ok \<lparr>secret_bytes = rng desired_size\<rparr>)"

definition secret_from_str :: "b64_lib \<Rightarrow> string \<Rightarrow> (high_entropy_secret, high_entropy_secret_error) result" where
  "secret_from_str E s =
     and_then (map_err (\<lambda>_. Malformed) (b64_try_from E s)) (\<lambda>bytes.
     if length bytes < MIN_SECRET_LENGTH then Err TooShort
     else Ok (secret_from_internal bytes))"

definition secret_to_string :: "b64_lib \<Rightarrow> high_entropy_secret \<Rightarrow> string" where
  "secret_to_string E val = b64_to_string E (secret_bytes val)"


section \<open>Secret-protected key envelopes\<close>

datatype secret_protected_key_envelope_error =
    WrongSecret
  | SecretParsing string
  | SecretKdf
  | SecretKeyMissing
  | SecretKeyStore
  | SecretInvalidNamespace

text \<open>\<open>iana::Algorithm\<close> as \<open>i64\<close>, \<open>HKDF_ALGORITHM\<close> (\<open>direct+HKDF-SHA-256\<close>) and the label of the salt.\<close>

primrec iana_algorithm_as_i64 :: "iana_algorithm \<Rightarrow> int" where
  "iana_algorithm_as_i64 A256GCM = 3"
| "iana_algorithm_as_i64 EdDSA = - 8"
| "iana_algorithm_as_i64 Direct_HKDF_SHA_256 = - 10"
| "iana_algorithm_as_i64 (IanaAlgorithm i) = i"

definition HKDF_ALGORITHM :: iana_algorithm where
  "HKDF_ALGORITHM = Direct_HKDF_SHA_256"

definition HKDF_SALT_LABEL :: int where
  "HKDF_SALT_LABEL = - 20"

definition ENVELOPE_HKDF_SALT_SIZE :: nat where
  "ENVELOPE_HKDF_SALT_SIZE = 32"

definition ENVELOPE_HKDF_OUTPUT_KEY_SIZE :: nat where
  "ENVELOPE_HKDF_OUTPUT_KEY_SIZE = 32"

record hkdf_settings =
  hkdf_alg :: iana_algorithm
  hkdf_salt :: bytes

definition hkdf_settings_new :: "bytes \<Rightarrow> hkdf_settings" where
  "hkdf_settings_new rng_salt = \<lparr>hkdf_alg = HKDF_ALGORITHM, hkdf_salt = rng_salt\<rparr>"

definition hkdf_into_header :: "hkdf_settings \<Rightarrow> header" where
  "hkdf_into_header settings =
     (builder_value HKDF_SALT_LABEL (Bytes (hkdf_salt settings)) header_new)
       \<lparr>header_alg := Some (AssignedAlgorithm (hkdf_alg settings))\<rparr>"

fun secret_from_extract_error :: "cose_extract_error \<Rightarrow> secret_protected_key_envelope_error" where
  "secret_from_extract_error (cose_extract_error.MissingValue label) =
     SecretParsing (''Missing value for '' @ label)"

definition hkdf_from_header :: "header \<Rightarrow> (hkdf_settings, secret_protected_key_envelope_error) result" where
  "hkdf_from_header header =
     and_then
       (case header_alg header of
          Some (AssignedAlgorithm alg) \<Rightarrow> Ok alg
        | _ \<Rightarrow> Err (SecretParsing ''Missing KDF algorithm'')) (\<lambda>alg.
     and_then (map_err secret_from_extract_error (extract_bytes header HKDF_SALT_LABEL ''salt'')) (\<lambda>salt.
     and_then (try_into_array ENVELOPE_HKDF_SALT_SIZE (SecretParsing ''Invalid HKDF salt'') salt) (\<lambda>salt.
     Ok \<lparr>hkdf_alg = alg, hkdf_salt = salt\<rparr>)))"

definition kdf_context_info :: "crypto_lib \<Rightarrow> iana_algorithm \<Rightarrow> (bytes, secret_protected_key_envelope_error) result" where
  "kdf_context_info L alg =
     (let empty_party_info = ArrayValue [NullValue, NullValue, NullValue];
          ctx = ArrayValue
            [Integer (iana_algorithm_as_i64 alg), empty_party_info, empty_party_info,
             ArrayValue [Integer (int ENVELOPE_HKDF_OUTPUT_KEY_SIZE * 8), Bytes []]]
      in Ok (cbor_to_vec (lib_cose L) ctx))"

definition content_encryption_algorithm :: "header \<Rightarrow> (iana_algorithm, secret_protected_key_envelope_error) result" where
  "content_encryption_algorithm header =
     (case header_alg header of
        Some (AssignedAlgorithm alg) \<Rightarrow> Ok alg
      | _ \<Rightarrow> Err (SecretParsing ''Missing or unsupported content encryption algorithm''))"

definition derive_cek ::
  "crypto_lib \<Rightarrow> envelope_lib \<Rightarrow> hkdf_settings \<Rightarrow> bytes \<Rightarrow> iana_algorithm
   \<Rightarrow> (bytes, secret_protected_key_envelope_error) result" where
  "derive_cek L X settings secret alg =
     and_then (kdf_context_info L alg) (\<lambda>info.
     map_err (\<lambda>_. SecretKdf)
       (lib_hkdf_sha256 X (hkdf_salt settings) secret info ENVELOPE_HKDF_OUTPUT_KEY_SIZE))"

record secret_protected_key_envelope =
  secret_message :: cose_encrypt

definition secret_recipient :: "hkdf_settings \<Rightarrow> cose_recipient" where
  "secret_recipient settings =
     \<lparr>recipient_protected = fresh_protected header_new,
      recipient_unprotected = hkdf_into_header settings, recipient_ciphertext = None\<rparr>"

definition secret_seal_ref_with_settings ::
  "crypto_lib \<Rightarrow> envelope_lib \<Rightarrow> symmetric_crypto_key \<Rightarrow> high_entropy_secret \<Rightarrow> hkdf_settings
   \<Rightarrow> secret_protected_key_envelope_namespace \<Rightarrow> bytes
   \<Rightarrow> (secret_protected_key_envelope, secret_protected_key_envelope_error) result" where
  "secret_seal_ref_with_settings L X key_to_seal secret settings namespace nonce =
     and_then (derive_cek L X settings (secret_bytes secret) A256GCM) (\<lambda>cek.
     let key_to_seal_bytes = snd (sealed_key_content L key_to_seal);
         protected_header =
           sealed_key_header L secret_namespaces SecretProtectedKeyEnvelope namespace key_to_seal;
         builder = add_recipient (secret_recipient settings) encrypt_builder_new
     in
     and_then (map_err (\<lambda>_. SecretKdf)
       (encrypt_cose L cose_content_encryption_algorithm.Aes256Gcm builder protected_header key_to_seal_bytes
          cek nonce)) (\<lambda>cose_encrypt.
     Ok \<lparr>secret_message = cose_encrypt\<rparr>))"

definition secret_seal_ref ::
  "crypto_lib \<Rightarrow> envelope_lib \<Rightarrow> symmetric_crypto_key \<Rightarrow> high_entropy_secret
   \<Rightarrow> secret_protected_key_envelope_namespace \<Rightarrow> bytes \<Rightarrow> bytes
   \<Rightarrow> (secret_protected_key_envelope, secret_protected_key_envelope_error) result" where
  "secret_seal_ref L X key_to_seal secret namespace rng_salt nonce =
     secret_seal_ref_with_settings L X key_to_seal secret (hkdf_settings_new rng_salt) namespace nonce"

definition secret_seal ::
  "crypto_lib \<Rightarrow> envelope_lib \<Rightarrow> bytes \<Rightarrow> bytes \<Rightarrow> symmetric_key_slot_id \<Rightarrow> high_entropy_secret
   \<Rightarrow> secret_protected_key_envelope_namespace \<Rightarrow> ('priv, 'sig) key_store_context
   \<Rightarrow> (secret_protected_key_envelope, secret_protected_key_envelope_error) result" where
  "secret_seal L X rng_salt nonce key_to_seal secret namespace ctx =
     and_then (map_err (\<lambda>_. SecretKeyMissing) (get_symmetric_key ctx key_to_seal)) (\<lambda>key_ref.
     secret_seal_ref L X key_ref secret namespace rng_salt nonce)"

primrec secret_decode_error :: "decode_sealed_key_error \<Rightarrow> secret_protected_key_envelope_error" where
  "secret_decode_error InvalidContentFormat = SecretParsing ''Invalid content format''"
| "secret_decode_error UnsupportedKeyFormat = SecretParsing ''Unknown or unsupported content format''"
| "secret_decode_error InvalidSealedKey = SecretParsing ''Failed to decode key''"

definition secret_unseal_ref ::
  "crypto_lib \<Rightarrow> envelope_lib \<Rightarrow> secret_protected_key_envelope \<Rightarrow> high_entropy_secret
   \<Rightarrow> secret_protected_key_envelope_namespace
   \<Rightarrow> (symmetric_crypto_key, secret_protected_key_envelope_error) result" where
  "secret_unseal_ref L X self secret content_namespace =
     (let header = parsed_header (encrypt_protected (secret_message self)) in
     and_then (map_err (\<lambda>_. SecretParsing ''Invalid number of recipients'')
       (extract_single_recipient (secret_message self))) (\<lambda>recipient.
     if header_alg (recipient_unprotected recipient) \<noteq> Some (AssignedAlgorithm HKDF_ALGORITHM)
     then Err (SecretParsing ''Unknown or unsupported KDF algorithm'')
     else
     and_then (map_err (\<lambda>_. SecretInvalidNamespace)
       (validate_safe_namespaces secret_namespaces header SecretProtectedKeyEnvelope content_namespace)) (\<lambda>_.
     and_then (map_err (\<lambda>_. SecretParsing ''Invalid or missing KDF parameters'')
       (hkdf_from_header (recipient_unprotected recipient))) (\<lambda>kdf_settings.
     and_then (content_encryption_algorithm header) (\<lambda>content_alg.
     and_then (derive_cek L X kdf_settings (secret_bytes secret) content_alg) (\<lambda>cek.
     and_then (map_err (\<lambda>_. WrongSecret)
       (decrypt_cose L (secret_message self) RequireProtectedHeaderAlgorithm cek)) (\<lambda>key_bytes.
     map_err secret_decode_error (decode_sealed_symmetric_key L header key_bytes))))))))"

definition secret_unseal ::
  "crypto_lib \<Rightarrow> envelope_lib \<Rightarrow> local_id \<Rightarrow> secret_protected_key_envelope \<Rightarrow> high_entropy_secret
   \<Rightarrow> secret_protected_key_envelope_namespace \<Rightarrow> ('priv, 'sig) key_store_context
   \<Rightarrow> (symmetric_key_slot_id, secret_protected_key_envelope_error) result \<times> ('priv, 'sig) key_store_context" where
  "secret_unseal L X local_id self secret namespace =
     act_then (act_read (\<lambda>_. secret_unseal_ref L X self secret namespace)) (\<lambda>key.
     act_pure (add_local_symmetric_key local_id key))"

definition secret_reseal ::
  "crypto_lib \<Rightarrow> envelope_lib \<Rightarrow> secret_protected_key_envelope \<Rightarrow> high_entropy_secret \<Rightarrow> high_entropy_secret
   \<Rightarrow> secret_protected_key_envelope_namespace \<Rightarrow> bytes \<Rightarrow> bytes
   \<Rightarrow> (secret_protected_key_envelope, secret_protected_key_envelope_error) result" where
  "secret_reseal L X self secret new_secret namespace rng_salt nonce =
     and_then (secret_unseal_ref L X self secret namespace) (\<lambda>unsealed.
     secret_seal_ref L X unsealed new_secret namespace rng_salt nonce)"

definition secret_contained_key_id ::
  "secret_protected_key_envelope \<Rightarrow> (key_id option, secret_protected_key_envelope_error) result" where
  "secret_contained_key_id self =
     map_err (\<lambda>_. SecretParsing ''Invalid key id'')
       (extract_key_id (parsed_header (encrypt_protected (secret_message self))))"

definition secret_to_vec :: "envelope_lib \<Rightarrow> secret_protected_key_envelope \<Rightarrow> bytes" where
  "secret_to_vec X val = expect (encrypt_to_vec X (secret_message val))"

definition secret_try_from :: "envelope_lib \<Rightarrow> bytes \<Rightarrow> (secret_protected_key_envelope, string) result" where
  "secret_try_from X value = map_ok (\<lambda>m. \<lparr>secret_message = m\<rparr>) (encrypt_from_slice X value)"

definition secret_envelope_from_str ::
  "crypto_lib \<Rightarrow> envelope_lib \<Rightarrow> string
   \<Rightarrow> (secret_protected_key_envelope, secret_protected_key_envelope_error) result" where
  "secret_envelope_from_str L X s =
     and_then (map_err (\<lambda>_. SecretParsing ''Invalid SecretProtectedKeyEnvelope Base64 encoding'')
       (b64_try_from (lib_b64 L) s)) (\<lambda>data.
     map_err (\<lambda>_. SecretParsing ''Failed to parse SecretProtectedKeyEnvelope'') (secret_try_from X data))"

definition secret_envelope_to_string :: "crypto_lib \<Rightarrow> envelope_lib \<Rightarrow> secret_protected_key_envelope \<Rightarrow> string" where
  "secret_envelope_to_string L X val = b64_to_string (lib_b64 L) (secret_to_vec X val)"


section \<open>Specification vocabulary\<close>

text \<open>Functions that satisfy the laws of the library, for examples.\<close>

definition recipient_parts :: "cose_recipient \<Rightarrow> header \<times> header \<times> bytes option" where
  "recipient_parts r = (parsed_header (recipient_protected r), recipient_unprotected r, recipient_ciphertext r)"

definition recipient_of_parts :: "header \<times> header \<times> bytes option \<Rightarrow> cose_recipient" where
  "recipient_of_parts t = \<lparr>recipient_protected = \<lparr>original_data = Some (enc_header (fst t)), parsed_header = fst t\<rparr>,
     recipient_unprotected = fst (snd t), recipient_ciphertext = snd (snd t)\<rparr>"

definition enc_recipients :: "(header \<times> header \<times> bytes option) list \<Rightarrow> bytes" where
  "enc_recipients = enc_list (enc_pair enc_header (enc_pair enc_header (enc_opt enc_bytes)))"

definition dec_recipients :: "(header \<times> header \<times> bytes option) list decoder" where
  "dec_recipients = dec_list (dec_pair dec_header (dec_pair dec_header (dec_opt dec_bytes)))"

definition ref_encrypt_to_vec :: "cose_encrypt \<Rightarrow> (bytes, string) result" where
  "ref_encrypt_to_vec m = Ok (enc_header (parsed_header (encrypt_protected m))
     @ enc_header (encrypt_unprotected m) @ enc_opt enc_bytes (encrypt_ciphertext m)
     @ enc_recipients (map recipient_parts (encrypt_recipients m)))"

definition ref_encrypt_from_slice :: "bytes \<Rightarrow> (cose_encrypt, string) result" where
  "ref_encrypt_from_slice bs =
     (case bind_dec dec_header (\<lambda>p. bind_dec dec_header (\<lambda>u. bind_dec (dec_opt dec_bytes) (\<lambda>c.
        bind_dec dec_recipients (\<lambda>rs.
        return_dec \<lparr>encrypt_protected = \<lparr>original_data = Some (enc_header p), parsed_header = p\<rparr>,
          encrypt_unprotected = u, encrypt_ciphertext = c, encrypt_recipients = map recipient_of_parts rs\<rparr>)))) bs of
        Some (m, []) \<Rightarrow> Ok m
      | _ \<Rightarrow> Err ''invalid'')"

definition envelope_ref :: envelope_lib where
  "envelope_ref = \<lparr>encrypt_to_vec = ref_encrypt_to_vec, encrypt_from_slice = ref_encrypt_from_slice,
     lib_hkdf_sha256 = (\<lambda>salt ikm info n.
       if n \<le> 255 * 32 then Ok (replicate n (checksum (salt @ ikm @ info))) else Err ''length'')\<rparr>"

text \<open>The lengths that the array types of the settings fix.\<close>

primrec envelope_kdf_wf :: "envelope_kdf \<Rightarrow> bool" where
  "envelope_kdf_wf (EnvelopeArgon2id s) = (length (argon2_salt s) = ENVELOPE_ARGON2_SALT_SIZE)"
| "envelope_kdf_wf (EnvelopePbkdf2 s) = (length (pbkdf2_salt s) = ENVELOPE_PBKDF2_SALT_SIZE)"


section \<open>Lemmas\<close>

lemma same_message_refl: "same_message C m m"
  by (simp add: same_message_def list.rel_refl same_recipient_def)

lemma envelope_ref_ok: "envelope_lib_ok crypto_ref envelope_ref"
proof -
  have "\<exists>bs m'. encrypt_to_vec envelope_ref m = Ok bs \<and> encrypt_from_slice envelope_ref bs = Ok m'
      \<and> same_message (lib_cose crypto_ref) m m'" if m: "cose_encrypt_encodable m" for m
  proof -
    let ?rs = "map recipient_parts (encrypt_recipients m)"
    let ?m = "\<lparr>encrypt_protected = \<lparr>original_data = Some (enc_header (parsed_header (encrypt_protected m))),
          parsed_header = parsed_header (encrypt_protected m)\<rparr>, encrypt_unprotected = encrypt_unprotected m,
        encrypt_ciphertext = encrypt_ciphertext m, encrypt_recipients = map recipient_of_parts ?rs\<rparr>"
    have "decodes enc_header dec_header (parsed_header (encrypt_protected m))"
      "decodes enc_header dec_header (encrypt_unprotected m)"
      using m by (auto simp: cose_encrypt_encodable_def intro: decodes_header)
    moreover have "decodes (enc_opt enc_bytes) (dec_opt dec_bytes) (encrypt_ciphertext m)"
      by (intro decodes_opt decodes_bytes)
    moreover have rs: "decodes enc_recipients dec_recipients ?rs"
      unfolding enc_recipients_def dec_recipients_def
      using m by (intro decodes_list ballI decodes_pair decodes_opt decodes_bytes)
        (auto simp: cose_encrypt_encodable_def list_all_iff recipient_parts_def intro: decodes_header)
    ultimately have "encrypt_from_slice envelope_ref (expect (ref_encrypt_to_vec m)) = Ok ?m"
      using rs [unfolded decodes_def, rule_format, of "[]"]
      by (simp add: envelope_ref_def ref_encrypt_to_vec_def ref_encrypt_from_slice_def bind_dec_def [of dec_recipients])
    moreover have "same_message (lib_cose crypto_ref) m ?m"
      by (simp add: same_message_def crypto_ref_def cose_ref_def list.rel_map list.rel_refl same_recipient_def
          recipient_parts_def recipient_of_parts_def)
    ultimately show ?thesis by (simp add: envelope_ref_def ref_encrypt_to_vec_def)
  qed
  then show ?thesis by (simp add: envelope_lib_ok_def) (simp add: envelope_ref_def)
qed

text \<open>A COSE Encrypt message that is encrypted is decrypted, also after it was reparsed.\<close>

lemma decrypt_cose_cong:
  "same_message (lib_cose L) m m' \<Longrightarrow> decrypt_cose L m' policy k = decrypt_cose L m policy k"
  by (simp add: same_message_def decrypt_cose_def cipher_decrypt_cose_def)

lemma encrypt_cose_gcm:
  assumes "crypto_lib_ok L" "length cek = 32" "length nonce = 12"
  obtains m where
    "encrypt_cose L cose_content_encryption_algorithm.Aes256Gcm builder h plaintext cek nonce = Ok m"
    "encrypt_protected m = fresh_protected (h\<lparr>header_alg := Some (AssignedAlgorithm A256GCM)\<rparr>)"
    "encrypt_unprotected m = header_new\<lparr>header_iv := nonce\<rparr>" "encrypt_recipients m = encrypt_recipients builder"
    "\<And>policy. (case policy of Exactly a \<Rightarrow> a = cose_content_encryption_algorithm.Aes256Gcm | _ \<Rightarrow> True)
       \<Longrightarrow> decrypt_cose L m policy cek = Ok plaintext"
proof -
  obtain padded where pad: "(if header_wants_padding h then pad_text plaintext else Ok plaintext) = Ok padded"
    "(if header_wants_padding h then unpad_bytes padded else Ok padded) = Ok plaintext"
    using pad_text_Ok [of plaintext] by (cases "header_wants_padding h") auto
  define m where "m = cipher_encrypt_cose L (Aes256Gcm_cipher L) builder h padded cek nonce"
  have enc: "encrypt_cose L cose_content_encryption_algorithm.Aes256Gcm builder h plaintext cek nonce = Ok m"
    using assms(2) by (simp add: encrypt_cose_def pad(1) try_into_array_def Aes256Gcm_cipher_def m_def)
  have fields: "encrypt_protected m = fresh_protected (h\<lparr>header_alg := Some (AssignedAlgorithm A256GCM)\<rparr>)"
    "encrypt_unprotected m = header_new\<lparr>header_iv := nonce\<rparr>" "encrypt_recipients m = encrypt_recipients builder"
    by (simp_all add: m_def cipher_encrypt_cose_def Let_def Aes256Gcm_cipher_def)
  have dec: "cipher_decrypt_cose L (Aes256Gcm_cipher L) m cek = Ok padded"
    using gcm_cose.cose_roundtrip [OF assms(1-3) m_def refl refl] by simp
  have "header_alg (parsed_header (encrypt_protected m)) =
      Some (cipher_algorithm (select_cipher L cose_content_encryption_algorithm.Aes256Gcm))"
    by (simp add: fields fresh_protected_def Aes256Gcm_cipher_def)
  note declared = algorithm_from_header_declared [OF this]
  have "header_wants_padding (parsed_header (encrypt_protected m)) = header_wants_padding h"
    by (intro header_wants_padding_cong) (simp add: fields fresh_protected_def)
  then have "decrypt_cose L m policy cek = Ok plaintext"
    if "case policy of Exactly a \<Rightarrow> a = cose_content_encryption_algorithm.Aes256Gcm | _ \<Rightarrow> True" for policy
    using dec pad(2) assms(2) declared [of policy] that
    by (auto simp add: decrypt_cose_def try_into_array_def Aes256Gcm_cipher_def split: cose_algorithm_policy.splits)
  with that [OF enc fields] show thesis by blast
qed

lemma sealed_key_content_eq:
  "sealed_key_content L key = (encoded_content_format (to_encoded_raw L key), encoded_into_vec (to_encoded_raw L key))"
  by (cases "to_encoded_raw L key") (simp_all add: sealed_key_content_def)

text \<open>What both envelopes rely on: the sealed key is recovered from the message, in its own
  namespace only, and the parameters in the recipient are kept.\<close>

context namespaced
begin

lemma sealed_key_header_facts:
  assumes "crypto_lib_ok L" "symmetric_key_wf key" "header_rest h = header_rest (sealed_key_header L T ob n key)"
    and "header_content_type h = header_content_type (sealed_key_header L T ob n key)"
  shows "validate_safe_namespaces T h ob n' = (if n' = n then Ok () else Err InvalidNamespaceValue)"
    and "extract_key_id h = Ok (symmetric_key_id L key)"
    and "decode_sealed_symmetric_key L h (snd (sealed_key_content L key)) = Ok (normalize_ops key)"
proof -
  let ?h = "sealed_key_header L T ob n key"
  show "validate_safe_namespaces T h ob n' = (if n' = n then Ok () else Err InvalidNamespaceValue)"
    unfolding validate_cong [OF assms(3)] sealed_key_header_def Let_def validate_set_namespaces by auto
  have "extract_key_id h = extract_key_id ?h"
    using assms(3) by (simp add: extract_key_id_def extract_bytes_def)
  then show "extract_key_id h = Ok (symmetric_key_id L key)"
    using extract_contained_key_id [OF extract_bytes_content_format symmetric_key_id_length [OF assms(1,2)]]
    by (simp add: sealed_key_header_def Let_def)
  show "decode_sealed_symmetric_key L h (snd (sealed_key_content L key)) = Ok (normalize_ops key)"
    unfolding sealed_key_content_eq snd_conv
    by (rule decode_sealed_key [OF assms(1,2)])
       (simp add: assms(4) sealed_key_header_def sealed_key_content_eq Let_def)
qed

lemma sealed_key_header_encodable: "header_encodable (sealed_key_header L T ob n key)"
  by (simp add: sealed_key_header_def Let_def set_namespaces_encodable set_contained_key_id_encodable
      content_format_header_encodable)

lemma sealed_message:
  assumes "crypto_lib_ok L" "envelope_lib_ok L X" "symmetric_key_wf key" "length cek = 32" "length nonce = 12"
    and "original_data (recipient_protected r) = None" "header_encodable (parsed_header (recipient_protected r))"
    and "header_encodable (recipient_unprotected r)"
  obtains m where
    "encrypt_cose L cose_content_encryption_algorithm.Aes256Gcm (add_recipient r encrypt_builder_new)
       (sealed_key_header L T ob n key) (snd (sealed_key_content L key)) cek nonce = Ok m"
    "\<exists>bs m'. encrypt_to_vec X m = Ok bs \<and> encrypt_from_slice X bs = Ok m' \<and> same_message (lib_cose L) m m'"
    "\<And>m'. same_message (lib_cose L) m m' \<Longrightarrow>
       header_alg (parsed_header (encrypt_protected m')) = Some (AssignedAlgorithm A256GCM)
       \<and> header_rest (parsed_header (encrypt_protected m')) = header_rest (sealed_key_header L T ob n key)
       \<and> header_content_type (parsed_header (encrypt_protected m')) = header_content_type (sealed_key_header L T ob n key)
       \<and> (\<exists>r'. encrypt_recipients m' = [r'] \<and> same_recipient r r')"
    "\<And>m' policy. same_message (lib_cose L) m m' \<Longrightarrow>
       (case policy of Exactly a \<Rightarrow> a = cose_content_encryption_algorithm.Aes256Gcm | _ \<Rightarrow> True) \<Longrightarrow>
       decrypt_cose L m' policy cek = Ok (snd (sealed_key_content L key))"
proof -
  obtain m where m:
    "encrypt_cose L cose_content_encryption_algorithm.Aes256Gcm (add_recipient r encrypt_builder_new)
       (sealed_key_header L T ob n key) (snd (sealed_key_content L key)) cek nonce = Ok m"
    "encrypt_protected m = fresh_protected ((sealed_key_header L T ob n key)\<lparr>header_alg := Some (AssignedAlgorithm A256GCM)\<rparr>)"
    "encrypt_unprotected m = header_new\<lparr>header_iv := nonce\<rparr>"
    "encrypt_recipients m = encrypt_recipients (add_recipient r encrypt_builder_new)"
    and dec: "\<And>policy. (case policy of Exactly a \<Rightarrow> a = cose_content_encryption_algorithm.Aes256Gcm | _ \<Rightarrow> True)
       \<Longrightarrow> decrypt_cose L m policy cek = Ok (snd (sealed_key_content L key))"
    by (rule encrypt_cose_gcm [OF assms(1,4,5)]) blast
  have rs: "encrypt_recipients m = [r]" by (simp add: m add_recipient_def encrypt_builder_new_def)
  have "cose_encrypt_encodable m"
    using assms(6-8) by (simp add: cose_encrypt_encodable_def m(2,3) rs fresh_protected_def header_encodable_alg
        sealed_key_header_encodable) (simp add: header_encodable_def)
  then have "\<exists>bs m'. encrypt_to_vec X m = Ok bs \<and> encrypt_from_slice X bs = Ok m' \<and> same_message (lib_cose L) m m'"
    using assms(2) by (simp add: envelope_lib_ok_def)
  moreover have "header_alg (parsed_header (encrypt_protected m')) = Some (AssignedAlgorithm A256GCM)
       \<and> header_rest (parsed_header (encrypt_protected m')) = header_rest (sealed_key_header L T ob n key)
       \<and> header_content_type (parsed_header (encrypt_protected m')) = header_content_type (sealed_key_header L T ob n key)
       \<and> (\<exists>r'. encrypt_recipients m' = [r'] \<and> same_recipient r r')" if "same_message (lib_cose L) m m'" for m'
    using that by (auto simp: same_message_def m(2) rs fresh_protected_def list_all2_Cons1)
  moreover have "decrypt_cose L m' policy cek = Ok (snd (sealed_key_content L key))"
    if "same_message (lib_cose L) m m'"
      "case policy of Exactly a \<Rightarrow> a = cose_content_encryption_algorithm.Aes256Gcm | _ \<Rightarrow> True" for m' policy
    using decrypt_cose_cong [OF that(1)] dec [OF that(2)] by simp
  ultimately show thesis by (rule that [OF m(1)])
qed

end

lemma normalize_ops_idem [simp]: "normalize_ops (normalize_ops key) = normalize_ops key"
  by (cases key) (simp_all add: sorted_ops_id sorted_ops_facts(3))

text \<open>The parameters of a key derivation are read back from the recipient.\<close>

lemma u32_try_from_uint [simp]: "u32_try_from (uint w) = Ok w" for w :: u32
  using unsigned_less [of w] by (simp add: u32_try_from_def)

lemma envelope_kdf_roundtrip:
  assumes "envelope_kdf_wf kdf" "same_recipient (password_recipient kdf) r"
  shows "envelope_kdf_try_from r = Ok kdf"
proof -
  have r: "parsed_header (recipient_protected r) = header_new\<lparr>header_alg := Some (envelope_kdf_cose_alg kdf)\<rparr>"
    "recipient_unprotected r = envelope_kdf_into_header kdf"
    using assms(2) by (simp_all add: same_recipient_def password_recipient_def fresh_protected_def)
  show ?thesis
  proof (cases kdf)
    case (EnvelopeArgon2id s)
    then show ?thesis using assms(1)
      by (simp add: envelope_kdf_try_from_def r argon2_from_header_def argon2_into_header_def builder_value_def
          header_u32_def extract_integer_def extract_bytes_def header_new_def kdf_constants try_into_array_def)
  next
    case (EnvelopePbkdf2 s)
    then show ?thesis using assms(1)
      by (simp add: envelope_kdf_try_from_def r pbkdf2_from_header_def pbkdf2_into_header_def builder_value_def
          header_u32_def extract_integer_def extract_bytes_def header_new_def kdf_constants try_into_array_def)
  qed
qed

lemma kdf_header_encodable:
  "header_encodable (envelope_kdf_into_header kdf)"
  "header_encodable (header_new\<lparr>header_alg := Some (envelope_kdf_cose_alg kdf)\<rparr>)"
proof -
  have bound: "- (2 ^ 64) \<le> uint w \<and> uint w < 2 ^ 64" for w :: u32
    using uint_lt2p [of w] by (simp add: order_trans [OF _ uint_ge_0])
  show "header_encodable (envelope_kdf_into_header kdf)"
    by (cases kdf) (simp_all add: argon2_into_header_def pbkdf2_into_header_def builder_value_def header_new_def
        header_encodable_def kdf_constants bound [simplified])
  show "header_encodable (header_new\<lparr>header_alg := Some (envelope_kdf_cose_alg kdf)\<rparr>)"
    by (cases kdf) (simp_all add: header_encodable_def kdf_constants)
qed

lemma derive_envelope_key_length:
  "kdf_lib_ok K \<Longrightarrow> derive_envelope_key K kdf password = Ok k \<Longrightarrow> length k = 32"
  by (cases kdf) (auto simp: kdf_lib_ok_def derive_argon2_key_def derive_pbkdf2_key_def pbkdf2_def result_simps)

lemma password_seal_ref_opens:
  assumes "crypto_lib_ok L" "kdf_lib_ok K" "envelope_lib_ok L X" "symmetric_key_wf key" "envelope_kdf_wf kdf"
    and "derive_envelope_key K kdf password = Ok ek" "length nonce = 12"
  obtains env where "password_seal_ref_with_settings L K key password kdf ns nonce = Ok env"
    "\<exists>bs m'. encrypt_to_vec X (password_message env) = Ok bs \<and> encrypt_from_slice X bs = Ok m'
       \<and> same_message (lib_cose L) (password_message env) m'"
    "\<And>env'. same_message (lib_cose L) (password_message env) (password_message env') \<Longrightarrow>
       password_unseal_ref L K env' password ns = Ok (normalize_ops key)
       \<and> password_contained_key_id env' = Ok (symmetric_key_id L key)
       \<and> (\<exists>r. password_single_recipient env' = Ok r \<and> envelope_kdf_try_from r = Ok kdf)"
proof -
  let ?r = "password_recipient kdf" and ?h = "sealed_key_header L password_namespaces PasswordProtectedKeyEnvelope ns key"
  have r: "original_data (recipient_protected ?r) = None" "header_encodable (parsed_header (recipient_protected ?r))"
    "header_encodable (recipient_unprotected ?r)"
    by (simp_all add: password_recipient_def fresh_protected_def kdf_header_encodable)
  obtain m where m:
    "encrypt_cose L cose_content_encryption_algorithm.Aes256Gcm (add_recipient ?r encrypt_builder_new)
       ?h (snd (sealed_key_content L key)) ek nonce = Ok m"
    "\<exists>bs m'. encrypt_to_vec X m = Ok bs \<and> encrypt_from_slice X bs = Ok m' \<and> same_message (lib_cose L) m m'"
    and fields: "\<And>m'. same_message (lib_cose L) m m' \<Longrightarrow>
       header_alg (parsed_header (encrypt_protected m')) = Some (AssignedAlgorithm A256GCM)
       \<and> header_rest (parsed_header (encrypt_protected m')) = header_rest ?h
       \<and> header_content_type (parsed_header (encrypt_protected m')) = header_content_type ?h
       \<and> (\<exists>r'. encrypt_recipients m' = [r'] \<and> same_recipient ?r r')"
    and dec: "\<And>m' policy. same_message (lib_cose L) m m' \<Longrightarrow>
       (case policy of Exactly a \<Rightarrow> a = cose_content_encryption_algorithm.Aes256Gcm | _ \<Rightarrow> True) \<Longrightarrow>
       decrypt_cose L m' policy ek = Ok (snd (sealed_key_content L key))"
    by (rule password_ns.sealed_message
        [OF assms(1,3,4) derive_envelope_key_length [OF assms(2,6)] assms(7) r]) blast
  have opens: "password_unseal_ref L K env' password ns = Ok (normalize_ops key)
       \<and> password_contained_key_id env' = Ok (symmetric_key_id L key)
       \<and> (\<exists>r. password_single_recipient env' = Ok r \<and> envelope_kdf_try_from r = Ok kdf)"
    if same: "same_message (lib_cose L) m (password_message env')" for env'
  proof -
    obtain r' where r': "encrypt_recipients (password_message env') = [r']" "envelope_kdf_try_from r' = Ok kdf"
      using fields [OF same] envelope_kdf_roundtrip [OF assms(5)] by blast
    then have single: "password_single_recipient env' = Ok r'" by (simp add: password_single_recipient_def)
    note head = password_ns.sealed_key_header_facts [OF assms(1,4), of "parsed_header (encrypt_protected (password_message env'))"
        PasswordProtectedKeyEnvelope ns]
    show ?thesis
      using fields [OF same] head dec [OF same, of "ProtectedHeaderAlgorithmOrLegacyDefault cose_content_encryption_algorithm.XChaCha20Poly1305"]
      by (simp add: password_unseal_ref_def password_contained_key_id_def single r'(2) assms(6))
  qed
  have "password_seal_ref_with_settings L K key password kdf ns nonce = Ok \<lparr>password_message = m\<rparr>"
    by (simp add: password_seal_ref_with_settings_def assms(6) m(1))
  from that [OF this] show thesis using m(2) opens by simp
qed

lemma hkdf_roundtrip:
  assumes "length salt = ENVELOPE_HKDF_SALT_SIZE" "same_recipient (secret_recipient (hkdf_settings_new salt)) r"
  shows "header_alg (recipient_unprotected r) = Some (AssignedAlgorithm HKDF_ALGORITHM)"
    and "hkdf_from_header (recipient_unprotected r) = Ok (hkdf_settings_new salt)"
proof -
  have r: "recipient_unprotected r = hkdf_into_header (hkdf_settings_new salt)"
    using assms(2) by (simp add: same_recipient_def secret_recipient_def)
  show "header_alg (recipient_unprotected r) = Some (AssignedAlgorithm HKDF_ALGORITHM)"
    by (simp add: r hkdf_into_header_def hkdf_settings_new_def)
  show "hkdf_from_header (recipient_unprotected r) = Ok (hkdf_settings_new salt)"
    using assms(1)
    by (simp add: r hkdf_from_header_def hkdf_into_header_def hkdf_settings_new_def builder_value_def
        extract_bytes_def header_new_def try_into_array_def)
qed

lemma derive_cek_Ok:
  "envelope_lib_ok L X \<Longrightarrow> \<exists>k. derive_cek L X settings secret alg = Ok k \<and> length k = 32"
proof -
  assume "envelope_lib_ok L X"
  then have "\<exists>k. lib_hkdf_sha256 X salt ikm info 32 = Ok k \<and> length k = 32" for salt ikm info
    by (simp add: envelope_lib_ok_def)
  then show ?thesis
    by (auto simp: derive_cek_def kdf_context_info_def Let_def ENVELOPE_HKDF_OUTPUT_KEY_SIZE_def result_simps)
qed

lemma secret_seal_ref_opens:
  assumes "crypto_lib_ok L" "envelope_lib_ok L X" "symmetric_key_wf key"
    and "length salt = ENVELOPE_HKDF_SALT_SIZE" "length nonce = 12"
  obtains env where "secret_seal_ref L X key secret ns salt nonce = Ok env"
    "\<exists>bs m'. encrypt_to_vec X (secret_message env) = Ok bs \<and> encrypt_from_slice X bs = Ok m'
       \<and> same_message (lib_cose L) (secret_message env) m'"
    "\<And>env'. same_message (lib_cose L) (secret_message env) (secret_message env') \<Longrightarrow>
       secret_unseal_ref L X env' secret ns = Ok (normalize_ops key)
       \<and> secret_contained_key_id env' = Ok (symmetric_key_id L key)
       \<and> (\<forall>ns' secret'. ns' \<noteq> ns \<longrightarrow> secret_unseal_ref L X env' secret' ns' = Err SecretInvalidNamespace)"
proof -
  let ?r = "secret_recipient (hkdf_settings_new salt)"
    and ?h = "sealed_key_header L secret_namespaces SecretProtectedKeyEnvelope ns key"
  have r: "original_data (recipient_protected ?r) = None" "header_encodable (parsed_header (recipient_protected ?r))"
    "header_encodable (recipient_unprotected ?r)"
    by (simp_all add: secret_recipient_def fresh_protected_def hkdf_into_header_def hkdf_settings_new_def
        builder_value_def header_new_def header_encodable_def HKDF_SALT_LABEL_def HKDF_ALGORITHM_def)
  obtain cek where cek: "derive_cek L X (hkdf_settings_new salt) (secret_bytes secret) A256GCM = Ok cek" "length cek = 32"
    using derive_cek_Ok [OF assms(2)] by blast
  obtain m where m:
    "encrypt_cose L cose_content_encryption_algorithm.Aes256Gcm (add_recipient ?r encrypt_builder_new)
       ?h (snd (sealed_key_content L key)) cek nonce = Ok m"
    "\<exists>bs m'. encrypt_to_vec X m = Ok bs \<and> encrypt_from_slice X bs = Ok m' \<and> same_message (lib_cose L) m m'"
    and fields: "\<And>m'. same_message (lib_cose L) m m' \<Longrightarrow>
       header_alg (parsed_header (encrypt_protected m')) = Some (AssignedAlgorithm A256GCM)
       \<and> header_rest (parsed_header (encrypt_protected m')) = header_rest ?h
       \<and> header_content_type (parsed_header (encrypt_protected m')) = header_content_type ?h
       \<and> (\<exists>r'. encrypt_recipients m' = [r'] \<and> same_recipient ?r r')"
    and dec: "\<And>m' policy. same_message (lib_cose L) m m' \<Longrightarrow>
       (case policy of Exactly a \<Rightarrow> a = cose_content_encryption_algorithm.Aes256Gcm | _ \<Rightarrow> True) \<Longrightarrow>
       decrypt_cose L m' policy cek = Ok (snd (sealed_key_content L key))"
    by (rule secret_ns.sealed_message [OF assms(1-3) cek(2) assms(5) r]) blast
  have opens: "secret_unseal_ref L X env' secret ns = Ok (normalize_ops key)
       \<and> secret_contained_key_id env' = Ok (symmetric_key_id L key)
       \<and> (\<forall>ns' secret'. ns' \<noteq> ns \<longrightarrow> secret_unseal_ref L X env' secret' ns' = Err SecretInvalidNamespace)"
    if same: "same_message (lib_cose L) m (secret_message env')" for env'
  proof -
    obtain r' where r': "encrypt_recipients (secret_message env') = [r']"
      "header_alg (recipient_unprotected r') = Some (AssignedAlgorithm HKDF_ALGORITHM)"
      "hkdf_from_header (recipient_unprotected r') = Ok (hkdf_settings_new salt)"
      using fields [OF same] hkdf_roundtrip [OF assms(4)] by blast
    then have single: "extract_single_recipient (secret_message env') = Ok r'" by (simp add: extract_single_recipient_def)
    note head = secret_ns.sealed_key_header_facts [OF assms(1,3), of "parsed_header (encrypt_protected (secret_message env'))"
        SecretProtectedKeyEnvelope ns]
    show ?thesis
      using fields [OF same] head dec [OF same, of RequireProtectedHeaderAlgorithm]
      by (simp add: secret_unseal_ref_def secret_contained_key_id_def content_encryption_algorithm_def single r'(2,3) cek(1))
  qed
  have "secret_seal_ref L X key secret ns salt nonce = Ok \<lparr>secret_message = m\<rparr>"
    by (simp add: secret_seal_ref_def secret_seal_ref_with_settings_def cek(1) m(1))
  from that [OF this] show thesis using m(2) opens by simp
qed

lemma password_text_roundtrip:
  assumes "crypto_lib_ok L" "encrypt_to_vec X (password_message env) = Ok bs" "encrypt_from_slice X bs = Ok m"
  shows "password_from_str L X (password_to_string L X env) = Ok \<lparr>password_message = m\<rparr>"
  using b64.read_show [OF crypto_lib_okD(1) [OF assms(1)]] assms(2,3)
  by (simp add: password_from_str_def password_to_string_def password_to_vec_def password_try_from_def)

lemma secret_text_roundtrip:
  assumes "crypto_lib_ok L" "encrypt_to_vec X (secret_message env) = Ok bs" "encrypt_from_slice X bs = Ok m"
  shows "secret_envelope_from_str L X (secret_envelope_to_string L X env) = Ok \<lparr>secret_message = m\<rparr>"
  using b64.read_show [OF crypto_lib_okD(1) [OF assms(1)]] assms(2,3)
  by (simp add: secret_envelope_from_str_def secret_envelope_to_string_def secret_to_vec_def secret_try_from_def)

lemma suite_kdf_wf: "length rng_salt = 16 \<Longrightarrow> envelope_kdf_wf (suite_kdf ios rng_salt suite)"
  by (cases suite) (simp_all add: argon2_local_kdf_settings_def pbkdf2_local_kdf_settings_def
      ENVELOPE_ARGON2_SALT_SIZE_def ENVELOPE_PBKDF2_SALT_SIZE_def)


section \<open>Properties\<close>



text \<open>A key sealed with a high-entropy secret is unsealed with the secret after the envelope went
  through its text form; in another namespace the envelope does not open, whatever the secret;
  and resealing gives an envelope with the same key for the new secret.\<close>

theorem secret_envelope_roundtrip:
  assumes "crypto_lib_ok L" "envelope_lib_ok L X" "get_symmetric_key c k = Ok key" "symmetric_key_wf key"
    and "length salt = 32" "length nonce = 12"
  shows "\<exists>env env'. secret_seal L X salt nonce k secret ns c = Ok env
     \<and> secret_envelope_from_str L X (secret_envelope_to_string L X env) = Ok env'
     \<and> secret_contained_key_id env' = Ok (symmetric_key_id L key)
     \<and> secret_unseal_ref L X env' secret ns = Ok (normalize_ops key)
     \<and> (\<forall>ns' secret'. ns' \<noteq> ns \<longrightarrow> secret_unseal_ref L X env' secret' ns' = Err SecretInvalidNamespace)
     \<and> (\<forall>new_secret new_salt new_nonce. length new_salt = 32 \<longrightarrow> length new_nonce = 12 \<longrightarrow>
          (\<exists>env2. secret_reseal L X env' secret new_secret ns new_salt new_nonce = Ok env2
             \<and> secret_unseal_ref L X env2 new_secret ns = Ok (normalize_ops key)))"
proof -
  note salt = assms(5) [folded ENVELOPE_HKDF_SALT_SIZE_def]
  obtain env where env: "secret_seal_ref L X key secret ns salt nonce = Ok env"
    "\<exists>bs m'. encrypt_to_vec X (secret_message env) = Ok bs \<and> encrypt_from_slice X bs = Ok m'
       \<and> same_message (lib_cose L) (secret_message env) m'"
    and opens: "\<And>env'. same_message (lib_cose L) (secret_message env) (secret_message env') \<Longrightarrow>
       secret_unseal_ref L X env' secret ns = Ok (normalize_ops key)
       \<and> secret_contained_key_id env' = Ok (symmetric_key_id L key)
       \<and> (\<forall>ns' secret'. ns' \<noteq> ns \<longrightarrow> secret_unseal_ref L X env' secret' ns' = Err SecretInvalidNamespace)"
    by (rule secret_seal_ref_opens [OF assms(1,2,4) salt assms(6)]) blast
  obtain bs m' where m': "encrypt_to_vec X (secret_message env) = Ok bs" "encrypt_from_slice X bs = Ok m'"
    "same_message (lib_cose L) (secret_message env) m'" using env(2) by blast
  let ?env = "\<lparr>secret_message = m'\<rparr>"
  have opened: "secret_unseal_ref L X ?env secret ns = Ok (normalize_ops key)"
    "secret_contained_key_id ?env = Ok (symmetric_key_id L key)"
    "\<forall>ns' secret'. ns' \<noteq> ns \<longrightarrow> secret_unseal_ref L X ?env secret' ns' = Err SecretInvalidNamespace"
    using opens [of ?env] m'(3) by simp_all
  have "\<exists>env2. secret_reseal L X ?env secret new_secret ns new_salt new_nonce = Ok env2
      \<and> secret_unseal_ref L X env2 new_secret ns = Ok (normalize_ops key)"
    if new: "length new_salt = ENVELOPE_HKDF_SALT_SIZE" "length new_nonce = 12" for new_secret new_salt new_nonce
  proof -
    have wf: "symmetric_key_wf (normalize_ops key)" using assms(4) by simp
    obtain env2 where "secret_seal_ref L X (normalize_ops key) new_secret ns new_salt new_nonce = Ok env2"
      "secret_unseal_ref L X env2 new_secret ns = Ok (normalize_ops (normalize_ops key))"
      by (rule secret_seal_ref_opens [OF assms(1,2) wf new]) (use same_message_refl in blast)
    then show ?thesis by (simp add: secret_reseal_def opened(1))
  qed
  moreover have "secret_seal L X salt nonce k secret ns c = Ok env"
    by (simp add: secret_seal_def assms(3) env(1))
  ultimately show ?thesis
    using secret_text_roundtrip [OF assms(1) m'(1,2)] opened unfolding ENVELOPE_HKDF_SALT_SIZE_def by blast
qed

theorem secret_envelope_roundtrip_witness:
  "\<exists>env env'. secret_seal crypto_ref envelope_ref (replicate 32 1) (replicate 12 2) User
        (secret_from_internal (replicate 16 7)) DesktopBiometricUnlock (user_key_context kek_example) = Ok env
     \<and> secret_envelope_from_str crypto_ref envelope_ref (secret_envelope_to_string crypto_ref envelope_ref env) = Ok env'
     \<and> secret_unseal_ref crypto_ref envelope_ref env' (secret_from_internal (replicate 16 7)) DesktopBiometricUnlock
         = Ok (normalize_ops kek_example)
     \<and> secret_unseal_ref crypto_ref envelope_ref env' (secret_from_internal (replicate 16 7)) RegistrationOpenOrgInvite
         = Err SecretInvalidNamespace"
proof -
  have "RegistrationOpenOrgInvite \<noteq> DesktopBiometricUnlock" by simp
  then show ?thesis
    using secret_envelope_roundtrip [OF crypto_ref_ok envelope_ref_ok user_key_context_key kek_example_facts(1),
      of "replicate 32 1" "replicate 12 2" "secret_from_internal (replicate 16 7)" DesktopBiometricUnlock]
    by (auto simp del: replicate.simps)
qed

end
