(* ===== verification/Ipc.thy ===== *)
theory Ipc
  imports Reference_Libs "HOL-Library.AList"
begin

text \<open>
  Fragmentation of IPC messages (\<open>crates/bitwarden-ipc/src/fragmentation\<close>, with the endpoints of
  \<open>endpoint.rs\<close> and the messages of \<open>message.rs\<close>).  A large message is split into fragments, each
  an ordinary message on a reserved topic; the receiver reassembles them under limits on time,
  number and size.  The CBOR encoding of a fragment header is a parameter.  The \<open>HashMap\<close> of the
  reassembler is an association list with distinct keys; an \<open>Instant\<close> and a \<open>Duration\<close> are
  numbers of milliseconds; the mutex around the state makes each \<open>accept\<close> atomic.  The capacity
  of the payload vector, which is chosen by the allocator, is not part of the model.
\<close>

section \<open>Endpoints and messages\<close>

datatype host_id = Own | HostNumber "32 word"

datatype endpoint =
    Web "32 word" string
  | BrowserForeground "32 word"
  | BrowserBackground host_id
  | Cli host_id
  | DesktopRenderer
  | DesktopMain

datatype source =
    WebSource "32 word" string string
  | BrowserForegroundSource "32 word"
  | BrowserBackgroundSource host_id
  | CliSource host_id
  | DesktopRendererSource
  | DesktopMainSource

primrec to_endpoint :: "source \<Rightarrow> endpoint" where
  "to_endpoint (WebSource tab_id document_id origin) = Web tab_id document_id"
| "to_endpoint (BrowserForegroundSource n) = BrowserForeground n"
| "to_endpoint (BrowserBackgroundSource host) = BrowserBackground host"
| "to_endpoint (CliSource host) = Cli host"
| "to_endpoint DesktopRendererSource = DesktopRenderer"
| "to_endpoint DesktopMainSource = DesktopMain"

record outgoing_message =
  out_payload :: bytes
  out_destination :: endpoint
  out_topic :: "string option"

record incoming_message =
  in_payload :: bytes
  in_destination :: endpoint
  in_source :: source
  in_topic :: "string option"


section \<open>Fragments\<close>

definition FRAGMENT_TOPIC :: string where
  "FRAGMENT_TOPIC = ''IpcFragment''"

definition MAX_PAYLOAD_SIZE :: nat where
  "MAX_PAYLOAD_SIZE = 5 * 1024 * 1024"

definition MAX_HEADER_LEN :: nat where
  "MAX_HEADER_LEN = 128"

record fragment_header =
  message_id :: u64
  frag_index :: u32
  frag_total_len :: u32

record header_codec =
  header_write :: "fragment_header \<Rightarrow> bytes"
  header_read :: "bytes \<Rightarrow> (fragment_header \<times> bytes) option"

text \<open>The laws of the codec: a header is read back up to the data behind it, and fits its bound.\<close>

definition header_codec_ok :: "header_codec \<Rightarrow> bool" where
  "header_codec_ok C \<longleftrightarrow>
     (\<forall>h data. header_read C (header_write C h @ data) = Some (h, data))
     \<and> (\<forall>h. length (header_write C h) \<le> MAX_HEADER_LEN)"

record fragment_frame =
  frame_header :: fragment_header
  frame_data :: bytes

definition frame_encode :: "header_codec \<Rightarrow> fragment_frame \<Rightarrow> bytes" where
  "frame_encode C self = header_write C (frame_header self) @ frame_data self"

definition frame_decode :: "header_codec \<Rightarrow> bytes \<Rightarrow> fragment_frame option" where
  "frame_decode C payload =
     map_option (\<lambda>(header, data). \<lparr>frame_header = header, frame_data = data\<rparr>) (header_read C payload)"

definition fragment_topic :: "string option \<Rightarrow> string" where
  "fragment_topic topic =
     (case topic of
        Some topic \<Rightarrow> FRAGMENT_TOPIC @ ''/'' @ topic
      | None \<Rightarrow> FRAGMENT_TOPIC)"

definition original_topic :: "string option \<Rightarrow> string option option" where
  "original_topic topic =
     Option.bind topic (\<lambda>topic.
     Option.bind (strip_prefix FRAGMENT_TOPIC topic) (\<lambda>rest.
     if rest = [] then Some None
     else map_option Some (strip_prefix ''/'' rest)))"

datatype fragmentation_error =
    PayloadTooLarge nat
  | ProviderLimitTooSmall nat
  | ReservedTopic string

record many_fragments =
  frags_message :: outgoing_message
  frags_message_id :: u64
  frags_topic :: string
  fragment_len :: nat
  frags_next_index :: u32

datatype fragments =
    Single "outgoing_message option"
  | Many many_fragments

definition fragments_split ::
  "u64 \<Rightarrow> outgoing_message \<Rightarrow> nat \<Rightarrow> (fragments, fragmentation_error) result" where
  "fragments_split rng_id message max_payload_len =
     and_then
       (case out_topic message of
          Some topic \<Rightarrow> if original_topic (Some topic) \<noteq> None then Err (ReservedTopic topic) else Ok ()
        | None \<Rightarrow> Ok ()) (\<lambda>_.
     let total_len = length (out_payload message) in
     if total_len > MAX_PAYLOAD_SIZE then Err (PayloadTooLarge total_len)
     else if total_len \<le> max_payload_len then Ok (Single (Some message))
     else
     let fragment_len = max_payload_len - MAX_HEADER_LEN in
     if fragment_len = 0 then Err (ProviderLimitTooSmall max_payload_len)
     else Ok (Many \<lparr>frags_message = message, frags_message_id = rng_id,
                    frags_topic = fragment_topic (out_topic message),
                    fragment_len = fragment_len, frags_next_index = 0\<rparr>))"

text \<open>One step of the iterator.\<close>

definition fragments_next :: "header_codec \<Rightarrow> fragments \<Rightarrow> outgoing_message option \<times> fragments" where
  "fragments_next C self =
     (case self of
        Single message \<Rightarrow> (message, Single None)
      | Many m \<Rightarrow>
          (let payload = out_payload (frags_message m);
               total_len = length payload;
               start = unat (frags_next_index m) * fragment_len m
           in if start \<ge> total_len then (None, self)
              else
              let stop = min total_len (start + fragment_len m);
                  frame = \<lparr>frame_header = \<lparr>message_id = frags_message_id m, frag_index = frags_next_index m,
                              frag_total_len = of_nat total_len\<rparr>,
                           frame_data = take (stop - start) (drop start payload)\<rparr>
              in (Some \<lparr>out_payload = frame_encode C frame, out_destination = out_destination (frags_message m),
                         out_topic = Some (frags_topic m)\<rparr>,
                  Many (m\<lparr>frags_next_index := frags_next_index m + 1\<rparr>))))"

text \<open>The loop of the sender over the iterator; \<open>None\<close> if it does not end.\<close>

partial_function (option) fragments_collect :: "header_codec \<Rightarrow> fragments \<Rightarrow> outgoing_message list option" where
  "fragments_collect C self =
     (case fragments_next C self of
        (None, self') \<Rightarrow> Some []
      | (Some message, self') \<Rightarrow> Option.bind (fragments_collect C self') (\<lambda>rest. Some (message # rest)))"


section \<open>Reassembly\<close>

datatype reassembly_error =
    MalformedFragment
  | InvalidHeader
  | OutOfOrder
  | TooManyPartialMessages
  | BufferFull
  | SourceBufferFull
  | Inconsistent

type_synonym message_key = "source \<times> u64"

record usage =
  usage_messages :: nat
  usage_bytes :: nat

definition SOURCE_LIMIT :: usage where
  "SOURCE_LIMIT = \<lparr>usage_messages = 4, usage_bytes = MAX_PAYLOAD_SIZE\<rparr>"

definition OTHER_POOL_LIMIT :: usage where
  "OTHER_POOL_LIMIT = \<lparr>usage_messages = 16, usage_bytes = 4 * MAX_PAYLOAD_SIZE\<rparr>"

definition WEB_POOL_LIMIT :: usage where
  "WEB_POOL_LIMIT = \<lparr>usage_messages = 4, usage_bytes = MAX_PAYLOAD_SIZE\<rparr>"

definition REASSEMBLY_TIMEOUT :: nat where
  "REASSEMBLY_TIMEOUT = 10000"

definition REASSEMBLY_IDLE_TIMEOUT :: nat where
  "REASSEMBLY_IDLE_TIMEOUT = 5000"

datatype pool = WebPool | OtherPool

definition pool_of :: "source \<Rightarrow> pool" where
  "pool_of source = (case source of WebSource _ _ _ \<Rightarrow> WebPool | _ \<Rightarrow> OtherPool)"

primrec pool_limit :: "pool \<Rightarrow> usage" where
  "pool_limit WebPool = WEB_POOL_LIMIT"
| "pool_limit OtherPool = OTHER_POOL_LIMIT"

record partial_message =
  deadline :: nat
  expires_at :: nat
  total_len :: nat
  partial_topic :: "string option"
  next_index :: u32
  partial_payload :: bytes

definition partial_check ::
  "partial_message \<Rightarrow> fragment_header \<Rightarrow> string option \<Rightarrow> nat \<Rightarrow> (unit, reassembly_error) result" where
  "partial_check self header topic data_len =
     (if frag_index header \<noteq> next_index self then Err OutOfOrder
      else if unat (frag_total_len header) \<noteq> total_len self \<or> topic \<noteq> partial_topic self
        \<or> length (partial_payload self) + data_len > total_len self
      then Err Inconsistent
      else Ok ())"

definition partial_append :: "bytes \<Rightarrow> partial_message \<Rightarrow> partial_message" where
  "partial_append data self =
     self\<lparr>partial_payload := partial_payload self @ data, next_index := next_index self + 1\<rparr>"

definition is_complete :: "partial_message \<Rightarrow> bool" where
  "is_complete self \<longleftrightarrow> length (partial_payload self) = total_len self"

record reassembly_state =
  partials :: "(message_key \<times> partial_message) list"

definition state_usage :: "reassembly_state \<Rightarrow> (source \<Rightarrow> bool) \<Rightarrow> usage" where
  "state_usage self filt =
     fold (\<lambda>(_, p) usage. \<lparr>usage_messages = usage_messages usage + 1, usage_bytes = usage_bytes usage + total_len p\<rparr>)
       (filter (\<lambda>((source, _), _). filt source) (partials self))
       \<lparr>usage_messages = 0, usage_bytes = 0\<rparr>"

definition admit :: "reassembly_state \<Rightarrow> source \<Rightarrow> nat \<Rightarrow> (unit, reassembly_error) result" where
  "admit self source len =
     (let pool = pool_of source;
          limit = pool_limit pool;
          source_usage = state_usage self (\<lambda>s. s = source);
          pool_usage = state_usage self (\<lambda>s. pool_of s = pool)
      in if usage_messages source_usage \<ge> usage_messages SOURCE_LIMIT \<or> usage_messages pool_usage \<ge> usage_messages limit
         then Err TooManyPartialMessages
         else if usage_bytes source_usage + len > usage_bytes SOURCE_LIMIT then Err SourceBufferFull
         else if usage_bytes pool_usage + len > usage_bytes limit then Err BufferFull
         else Ok ())"

definition remove_expired :: "nat \<Rightarrow> reassembly_state \<Rightarrow> reassembly_state" where
  "remove_expired now self = self\<lparr>partials := filter (\<lambda>(_, partial). expires_at partial > now) (partials self)\<rparr>"

record reassembler =
  re_state :: reassembly_state
  re_timeout :: nat
  re_idle_timeout :: nat

definition reassembler_new :: "nat \<Rightarrow> nat \<Rightarrow> reassembler" where
  "reassembler_new timeout idle_timeout =
     \<lparr>re_state = \<lparr>partials = []\<rparr>, re_timeout = timeout, re_idle_timeout = idle_timeout\<rparr>"

text \<open>The partial message of a fragment, which the first fragment starts.\<close>

definition open_partial ::
  "reassembler \<Rightarrow> message_key \<Rightarrow> fragment_header \<Rightarrow> string option \<Rightarrow> nat \<Rightarrow> reassembly_state
   \<Rightarrow> (reassembly_state, reassembly_error) result" where
  "open_partial self key header topic now state =
     (if map_of (partials state) key = None
      then if frag_index header \<noteq> 0 then Err OutOfOrder
           else and_then (admit state (fst key) (unat (frag_total_len header))) (\<lambda>_.
                let deadline = now + re_timeout self
                in Ok (state\<lparr>partials := AList.update key
                     \<lparr>deadline = deadline, expires_at = deadline, total_len = unat (frag_total_len header),
                      partial_topic = topic, next_index = 0, partial_payload = []\<rparr> (partials state)\<rparr>))
      else Ok state)"

definition accept ::
  "header_codec \<Rightarrow> incoming_message \<Rightarrow> string option \<Rightarrow> nat \<Rightarrow> reassembler
   \<Rightarrow> (incoming_message option, reassembly_error) result \<times> reassembler" where
  "accept C message topic now self =
     (case frame_decode C (in_payload message) of
        None \<Rightarrow> (Err MalformedFragment, self)
      | Some frame \<Rightarrow>
          (let header = frame_header frame;
               data = frame_data frame
           in if unat (frag_total_len header) > MAX_PAYLOAD_SIZE \<or> data = [] then (Err InvalidHeader, self)
              else
              let key = (in_source message, message_id header);
                  state = remove_expired now (re_state self)
              in case open_partial self key header topic now state of
                   Err e \<Rightarrow> (Err e, self\<lparr>re_state := state\<rparr>)
                 | Ok state \<Rightarrow>
                     (let partial = the (map_of (partials state) key)
                      in case partial_check partial header topic (length data) of
                           Err e \<Rightarrow> (Err e, self\<lparr>re_state := state\<lparr>partials := AList.delete key (partials state)\<rparr>\<rparr>)
                         | Ok _ \<Rightarrow>
                             (let partial = partial_append data partial;
                                  partial = partial\<lparr>expires_at := min (deadline partial) (now + re_idle_timeout self)\<rparr>
                              in if \<not> is_complete partial
                                 then (Ok None, self\<lparr>re_state := state\<lparr>partials := AList.update key partial (partials state)\<rparr>\<rparr>)
                                 else (Ok (Some \<lparr>in_payload = partial_payload partial, in_destination = in_destination message,
                                         in_source = fst key, in_topic = partial_topic partial\<rparr>),
                                       self\<lparr>re_state := state\<lparr>partials := AList.delete key (partials state)\<rparr>\<rparr>)))))"

definition process ::
  "header_codec \<Rightarrow> nat \<Rightarrow> incoming_message \<Rightarrow> reassembler \<Rightarrow> incoming_message option \<times> reassembler" where
  "process C now message self =
     (case original_topic (in_topic message) of
        None \<Rightarrow> (Some message, self)
      | Some topic \<Rightarrow>
          (case accept C message topic now self of
             (Ok r, self') \<Rightarrow> (r, self')
           | (Err _, self') \<Rightarrow> (None, self')))"

end
