(* ===== verification/Ipc_Laws.thy ===== *)
theory Ipc_Laws
  imports Ipc
begin

text \<open>
  The properties of IPC fragmentation: splitting a message ends and respects the limit of the
  provider; the reassembler, on an association list, refines a specification on finite maps in
  which a fragment only concerns its own message; its use of memory is bounded in every
  reachable state; and a message whose fragments arrive in time is delivered, whatever
  other traffic is interleaved with them.
\<close>

section \<open>Specification\<close>

subsection \<open>One message\<close>

text \<open>What a valid fragment does to the incomplete message it belongs to.\<close>

definition step_partial ::
  "nat \<Rightarrow> nat \<Rightarrow> fragment_frame \<Rightarrow> string option \<Rightarrow> incoming_message \<Rightarrow> partial_message
   \<Rightarrow> (incoming_message option, reassembly_error) result \<times> partial_message option" where
  "step_partial idle now frame topic message p =
     (case partial_check p (frame_header frame) topic (length (frame_data frame)) of
        Err e \<Rightarrow> (Err e, None)
      | Ok _ \<Rightarrow>
          (let p = (partial_append (frame_data frame) p)\<lparr>expires_at := min (deadline p) (now + idle)\<rparr>
           in if is_complete p
              then (Ok (Some (message\<lparr>in_payload := partial_payload p, in_topic := partial_topic p\<rparr>)), None)
              else (Ok None, Some p)))"

definition fresh_partial :: "nat \<Rightarrow> nat \<Rightarrow> fragment_header \<Rightarrow> string option \<Rightarrow> partial_message" where
  "fresh_partial timeout now header topic =
     \<lparr>deadline = now + timeout, expires_at = now + timeout, total_len = unat (frag_total_len header),
      partial_topic = topic, next_index = 0, partial_payload = []\<rparr>"

definition message_step ::
  "nat \<Rightarrow> nat \<Rightarrow> nat \<Rightarrow> (unit, reassembly_error) result \<Rightarrow> fragment_frame \<Rightarrow> string option \<Rightarrow> incoming_message
   \<Rightarrow> partial_message option \<Rightarrow> (incoming_message option, reassembly_error) result \<times> partial_message option" where
  "message_step timeout idle now admission frame topic message q =
     (case q of
        Some p \<Rightarrow> step_partial idle now frame topic message p
      | None \<Rightarrow>
          (if frag_index (frame_header frame) \<noteq> 0 then (Err OutOfOrder, None)
           else case admission of
             Err e \<Rightarrow> (Err e, None)
           | Ok _ \<Rightarrow> step_partial idle now frame topic message (fresh_partial timeout now (frame_header frame) topic)))"


subsection \<open>All messages\<close>

type_synonym partial_map = "message_key \<Rightarrow> partial_message option"

definition keys_of :: "partial_map \<Rightarrow> (source \<Rightarrow> bool) \<Rightarrow> message_key set" where
  "keys_of m P = {k \<in> dom m. P (fst k)}"

definition map_usage :: "partial_map \<Rightarrow> (source \<Rightarrow> bool) \<Rightarrow> usage" where
  "map_usage m P = \<lparr>usage_messages = card (keys_of m P), usage_bytes = (\<Sum>k \<in> keys_of m P. total_len (the (m k)))\<rparr>"

definition usage_le :: "usage \<Rightarrow> usage \<Rightarrow> bool" where
  "usage_le u v \<longleftrightarrow> usage_messages u \<le> usage_messages v \<and> usage_bytes u \<le> usage_bytes v"

text \<open>The use that one more message of \<open>len\<close> bytes makes.\<close>

definition usage_add :: "nat \<Rightarrow> usage \<Rightarrow> usage" where
  "usage_add len u = \<lparr>usage_messages = usage_messages u + 1, usage_bytes = usage_bytes u + len\<rparr>"

definition spec_admit :: "partial_map \<Rightarrow> source \<Rightarrow> nat \<Rightarrow> (unit, reassembly_error) result" where
  "spec_admit m s len =
     (let u = usage_add len (map_usage m (\<lambda>s'. s' = s));
          v = usage_add len (map_usage m (\<lambda>s'. pool_of s' = pool_of s));
          limit = pool_limit (pool_of s)
      in if usage_messages u > usage_messages SOURCE_LIMIT \<or> usage_messages v > usage_messages limit
         then Err TooManyPartialMessages
         else if usage_bytes u > usage_bytes SOURCE_LIMIT then Err SourceBufferFull
         else if usage_bytes v > usage_bytes limit then Err BufferFull
         else Ok ())"

definition unexpired :: "nat \<Rightarrow> partial_map \<Rightarrow> partial_map" where
  "unexpired now m k = (case m k of Some p \<Rightarrow> if expires_at p > now then Some p else None | None \<Rightarrow> None)"

definition spec_accept ::
  "header_codec \<Rightarrow> incoming_message \<Rightarrow> string option \<Rightarrow> nat \<Rightarrow> nat \<Rightarrow> nat \<Rightarrow> partial_map
   \<Rightarrow> (incoming_message option, reassembly_error) result \<times> partial_map" where
  "spec_accept C message topic now timeout idle m =
     (case frame_decode C (in_payload message) of
        None \<Rightarrow> (Err MalformedFragment, m)
      | Some frame \<Rightarrow>
          (if unat (frag_total_len (frame_header frame)) > MAX_PAYLOAD_SIZE \<or> frame_data frame = []
           then (Err InvalidHeader, m)
           else
           let key = (in_source message, message_id (frame_header frame));
               live = unexpired now m;
               (r, q) = message_step timeout idle now
                 (spec_admit live (fst key) (unat (frag_total_len (frame_header frame)))) frame topic message (live key)
           in (r, live(key := q))))"

definition abs_map :: "reassembler \<Rightarrow> partial_map" where
  "abs_map r = map_of (partials (re_state r))"

definition distinct_keys :: "reassembler \<Rightarrow> bool" where
  "distinct_keys r \<longleftrightarrow> distinct (map fst (partials (re_state r)))"


subsection \<open>Limits and reachable states\<close>

definition partial_wf :: "partial_message \<Rightarrow> bool" where
  "partial_wf p \<longleftrightarrow> length (partial_payload p) < total_len p \<and> total_len p \<le> MAX_PAYLOAD_SIZE
     \<and> unat (next_index p) \<le> length (partial_payload p) \<and> expires_at p \<le> deadline p"

definition within_limits :: "partial_map \<Rightarrow> bool" where
  "within_limits m \<longleftrightarrow> finite (dom m) \<and> (\<forall>p \<in> ran m. partial_wf p)
     \<and> (\<forall>s. usage_le (map_usage m (\<lambda>s'. s' = s)) SOURCE_LIMIT)
     \<and> (\<forall>pool. usage_le (map_usage m (\<lambda>s. pool_of s = pool)) (pool_limit pool))"

inductive reassembler_step :: "header_codec \<Rightarrow> reassembler \<Rightarrow> reassembler \<Rightarrow> bool" for C where
  process_step: "process C now message r = (out, r') \<Longrightarrow> reassembler_step C r r'"

text \<open>The bytes that are held for the sources of a pool.\<close>

definition held_bytes :: "partial_map \<Rightarrow> pool \<Rightarrow> nat" where
  "held_bytes m pool = (\<Sum>k \<in> keys_of m (\<lambda>s. pool_of s = pool). length (partial_payload (the (m k))))"


subsection \<open>Fragments and their delivery\<close>

text \<open>The fragments of a message from index \<open>i\<close> on, for the pieces of its payload.\<close>

definition fragment_at :: "header_codec \<Rightarrow> many_fragments \<Rightarrow> nat \<Rightarrow> bytes \<Rightarrow> outgoing_message" where
  "fragment_at C m i piece =
     \<lparr>out_payload = frame_encode C \<lparr>frame_header = \<lparr>message_id = frags_message_id m, frag_index = of_nat i,
          frag_total_len = of_nat (length (out_payload (frags_message m)))\<rparr>, frame_data = piece\<rparr>,
      out_destination = out_destination (frags_message m), out_topic = Some (frags_topic m)\<rparr>"

fun fragments_from :: "header_codec \<Rightarrow> many_fragments \<Rightarrow> nat \<Rightarrow> bytes list \<Rightarrow> outgoing_message list" where
  "fragments_from C m i [] = []"
| "fragments_from C m i (p # ps) = fragment_at C m i p # fragments_from C m (Suc i) ps"

text \<open>The message that a fragment belongs to; a backend that hands messages over from a source; a
  run of the receiver on messages with their arrival times.\<close>

definition frag_key :: "header_codec \<Rightarrow> incoming_message \<Rightarrow> message_key option" where
  "frag_key C message =
     Option.bind (original_topic (in_topic message)) (\<lambda>_.
     map_option (\<lambda>frame. (in_source message, message_id (frame_header frame))) (frame_decode C (in_payload message)))"

definition arriving :: "source \<Rightarrow> outgoing_message \<Rightarrow> incoming_message" where
  "arriving s m = \<lparr>in_payload = out_payload m, in_destination = out_destination m, in_source = s, in_topic = out_topic m\<rparr>"

type_synonym arrivals = "(incoming_message \<times> nat) list"

fun run :: "header_codec \<Rightarrow> arrivals \<Rightarrow> reassembler \<Rightarrow> incoming_message option list" where
  "run C [] r = []"
| "run C ((message, now) # evs) r = (let (out, r') = process C now message r in out # run C evs r')"

text \<open>The results for the fragments of one message.\<close>

definition results_for :: "header_codec \<Rightarrow> message_key \<Rightarrow> arrivals \<Rightarrow> reassembler \<Rightarrow> incoming_message option list" where
  "results_for C k evs r = map snd (filter (\<lambda>((message, _), _). frag_key C message = Some k) (zip evs (run C evs r)))"

text \<open>Up to the \<open>n\<close>-th fragment of the message, everything arrives before the message expires.\<close>

fun in_time :: "header_codec \<Rightarrow> message_key \<Rightarrow> nat \<Rightarrow> nat \<Rightarrow> nat \<Rightarrow> nat \<Rightarrow> arrivals \<Rightarrow> bool" where
  "in_time C k idle until ex n [] = True"
| "in_time C k idle until ex n ((message, now) # evs) =
     (n = 0 \<or> now < ex \<and>
       (if frag_key C message = Some k then in_time C k idle until (min until (now + idle)) (n - 1) evs
        else in_time C k idle until ex n evs))"

text \<open>A partial message that waits for the pieces \<open>ps\<close> of its payload, the next one at index \<open>i\<close>.\<close>

definition assembling :: "many_fragments \<Rightarrow> string option \<Rightarrow> nat \<Rightarrow> bytes list \<Rightarrow> partial_message \<Rightarrow> bool" where
  "assembling m t i ps p \<longleftrightarrow> total_len p = length (out_payload (frags_message m)) \<and> partial_topic p = t
     \<and> next_index p = of_nat i \<and> partial_payload p @ concat ps = out_payload (frags_message m)
     \<and> (\<forall>piece \<in> set ps. piece \<noteq> [])"

text \<open>A concrete codec, and a message that a provider with a limit of 200 bytes has to split.\<close>

definition codec_ref :: header_codec where
  "codec_ref = \<lparr>header_write = (\<lambda>h. enc_nat (unat (message_id h)) @ enc_nat (unat (frag_index h)) @ enc_nat (unat (frag_total_len h))),
     header_read = bind_dec dec_nat (\<lambda>a. bind_dec dec_nat (\<lambda>b. bind_dec dec_nat (\<lambda>c.
       return_dec \<lparr>message_id = of_nat a, frag_index = of_nat b, frag_total_len = of_nat c\<rparr>)))\<rparr>"

definition message_example :: outgoing_message where
  "message_example = \<lparr>out_payload = replicate 210 7, out_destination = DesktopMain, out_topic = Some ''greet''\<rparr>"

definition split_example :: fragments where
  "split_example = (case fragments_split 9 message_example 200 of Ok frs \<Rightarrow> frs)"

definition fragments_example :: "outgoing_message list" where
  "fragments_example = the (fragments_collect codec_ref split_example)"

text \<open>The last two fragments, with a message of another topic and a fragment of another source in between.\<close>

definition arrivals_example :: arrivals where
  "arrivals_example =
     [(arriving (CliSource Own) message_example, 20),
      (arriving DesktopRendererSource (fragments_example ! 1), 30),
      (arriving (BrowserForegroundSource 1) (fragments_example ! 0), 35),
      (arriving DesktopRendererSource (fragments_example ! 2), 40)]"


section \<open>Lemmas on maps\<close>

lemma map_of_filter_values:
  "distinct (map fst al) \<Longrightarrow>
   map_of (filter (\<lambda>(k, p). Q p) al) k = (case map_of al k of Some p \<Rightarrow> if Q p then Some p else None | None \<Rightarrow> None)"
proof (induction al)
  case (Cons x al)
  obtain j p where x: "x = (j, p)" by fastforce
  have "k = j \<Longrightarrow> map_of al k = None" using Cons.prems by (simp add: x map_of_eq_None_iff)
  with Cons show ?case by (auto simp: x split: option.split)
qed simp

lemma distinct_filter_values: "distinct (map fst al) \<Longrightarrow> distinct (map fst (filter Q al))"
  by (rule distinct_map_filter)

lemma fold_usage:
  "fold (\<lambda>(_, p) usage. \<lparr>usage_messages = usage_messages usage + 1, usage_bytes = usage_bytes usage + total_len p\<rparr>) xs u
   = \<lparr>usage_messages = usage_messages u + length xs, usage_bytes = usage_bytes u + sum_list (map (total_len \<circ> snd) xs)\<rparr>"
  by (induction xs arbitrary: u) (auto simp: usage.equality)

lemma state_usage_map:
  assumes "distinct (map fst (partials st))"
  shows "state_usage st P = map_usage (map_of (partials st)) P"
proof -
  let ?f = "filter (\<lambda>((s, _), _). P s) (partials st)"
  have d: "distinct (map fst ?f)" using assms by (rule distinct_filter_values)
  have keys: "fst ` set ?f = keys_of (map_of (partials st)) P"
    by (force simp: keys_of_def dom_map_of_conv_image_fst)
  have "card (keys_of (map_of (partials st)) P) = length ?f"
    using distinct_card [OF d] keys by simp
  moreover have "map (total_len \<circ> snd) ?f = map (\<lambda>k. total_len (the (map_of (partials st) k))) (map fst ?f)"
    using assms by (auto simp: map_of_is_SomeI)
  then have "sum_list (map (total_len \<circ> snd) ?f) = sum (\<lambda>k. total_len (the (map_of (partials st) k))) (set (map fst ?f))"
    by (simp only: sum_list_distinct_conv_sum_set [OF d])
  then have "sum_list (map (total_len \<circ> snd) ?f) = (\<Sum>k \<in> keys_of (map_of (partials st)) P. total_len (the (map_of (partials st) k)))"
    by (simp only: set_map keys)
  ultimately show ?thesis unfolding state_usage_def fold_usage map_usage_def by simp
qed

lemma admit_spec:
  "distinct (map fst (partials st)) \<Longrightarrow> admit st s len = spec_admit (map_of (partials st)) s len"
  by (simp add: admit_def spec_admit_def state_usage_map Let_def usage_add_def less_Suc_eq_le Suc_le_eq not_less)

text \<open>The reassembler computes the specification.\<close>

lemma remove_expired_map:
  "distinct (map fst (partials st)) \<Longrightarrow>
   map_of (partials (remove_expired now st)) = unexpired now (map_of (partials st))
   \<and> distinct (map fst (partials (remove_expired now st)))"
  by (auto simp: remove_expired_def unexpired_def fun_eq_iff map_of_filter_values intro: distinct_filter_values)

lemma partial_fields [simp]:
  "deadline (partial_append d p) = deadline p" "total_len (partial_append d p) = total_len p"
  "partial_topic (partial_append d p) = partial_topic p"
  by (simp_all add: partial_append_def)

lemma abs_map_update [simp]:
  "abs_map (r\<lparr>re_state := st\<rparr>) = map_of (partials st)"
  "distinct_keys (r\<lparr>re_state := st\<rparr>) = distinct (map fst (partials st))"
  by (simp_all add: abs_map_def distinct_keys_def)

lemma accept_refines:
  assumes "distinct_keys r"
  shows "spec_accept C message topic now (re_timeout r) (re_idle_timeout r) (abs_map r)
     = (fst (accept C message topic now r), abs_map (snd (accept C message topic now r)))" (is ?eq)
    and "distinct_keys (snd (accept C message topic now r))" (is ?distinct)
    and "re_timeout (snd (accept C message topic now r)) = re_timeout r
      \<and> re_idle_timeout (snd (accept C message topic now r)) = re_idle_timeout r" (is ?settings)
proof -
  define st where "st = remove_expired now (re_state r)"
  have d: "distinct (map fst (partials st))" and live: "unexpired now (abs_map r) = map_of (partials st)"
    using remove_expired_map [of "re_state r" now] assms by (simp_all add: distinct_keys_def abs_map_def st_def)
  have "?eq \<and> ?distinct \<and> ?settings"
  proof (cases "frame_decode C (in_payload message)")
    case None
    then show ?thesis using assms by (simp add: accept_def spec_accept_def)
  next
    case frame: (Some frame)
    let ?h = "frame_header frame" and ?k = "(in_source message, message_id (frame_header frame))"
    let ?len = "unat (frag_total_len ?h)"
    note unfold = accept_def spec_accept_def frame open_partial_def message_step_def step_partial_def Let_def live
      update_conv' delete_conv' distinct_update distinct_delete d
    show ?thesis
    proof (cases "?len > MAX_PAYLOAD_SIZE \<or> frame_data frame = []")
      case True
      then show ?thesis using frame assms by (simp add: accept_def spec_accept_def)
    next
      case valid: False
      show ?thesis
      proof (cases "map_of (partials st) ?k")
        case (Some p)
        with valid show ?thesis
          by (cases "partial_check p ?h topic (length (frame_data frame))")
             (simp_all add: unfold flip: st_def)
      next
        case None
        then have same: "(map_of (partials st))(?k := None) = map_of (partials st)" by (rule fun_upd_idem)
        from None valid show ?thesis
          by (cases "admit st (in_source message) ?len")
             (simp_all add: unfold same fresh_partial_def admit_spec [OF d] flip: st_def split: result.splits)
      qed
    qed
  qed
  then show ?eq ?distinct ?settings by blast+
qed

lemma process_refines:
  assumes "distinct_keys r" "process C now message r = (out, r')"
  shows "distinct_keys r' \<and> re_timeout r' = re_timeout r \<and> re_idle_timeout r' = re_idle_timeout r"
    and "case original_topic (in_topic message) of
           None \<Rightarrow> out = Some message \<and> r' = r
         | Some topic \<Rightarrow> \<exists>res. spec_accept C message topic now (re_timeout r) (re_idle_timeout r) (abs_map r) = (res, abs_map r')
             \<and> out = (case res of Ok x \<Rightarrow> x | Err _ \<Rightarrow> None)"
proof -
  have "(distinct_keys r' \<and> re_timeout r' = re_timeout r \<and> re_idle_timeout r' = re_idle_timeout r)
    \<and> (case original_topic (in_topic message) of
           None \<Rightarrow> out = Some message \<and> r' = r
         | Some topic \<Rightarrow> \<exists>res. spec_accept C message topic now (re_timeout r) (re_idle_timeout r) (abs_map r) = (res, abs_map r')
             \<and> out = (case res of Ok x \<Rightarrow> x | Err _ \<Rightarrow> None))"
  proof (cases "original_topic (in_topic message)")
    case (Some topic)
    obtain res r1 where a: "accept C message topic now r = (res, r1)" by fastforce
    then have "r' = r1" "out = (case res of Ok x \<Rightarrow> x | Err _ \<Rightarrow> None)"
      using assms(2) Some by (auto simp: process_def split: result.splits)
    then show ?thesis using accept_refines [OF assms(1), of C message topic now] Some a by auto
  qed (use assms in \<open>simp add: process_def\<close>)
  then show "distinct_keys r' \<and> re_timeout r' = re_timeout r \<and> re_idle_timeout r' = re_idle_timeout r"
    "case original_topic (in_topic message) of
           None \<Rightarrow> out = Some message \<and> r' = r
         | Some topic \<Rightarrow> \<exists>res. spec_accept C message topic now (re_timeout r) (re_idle_timeout r) (abs_map r) = (res, abs_map r')
             \<and> out = (case res of Ok x \<Rightarrow> x | Err _ \<Rightarrow> None)" by blast+
qed


section \<open>Limits\<close>

lemma keys_of_upd:
  "keys_of (m(k \<mapsto> p)) P = (if P (fst k) then insert k (keys_of m P) else keys_of m P - {k})"
  by (auto simp: keys_of_def)

lemma usage_mono:
  assumes "m' \<subseteq>\<^sub>m m" "finite (dom m)"
  shows "usage_le (map_usage m' P) (map_usage m P)"
proof -
  have sub: "keys_of m' P \<subseteq> keys_of m P" and fin: "finite (keys_of m P)"
    using map_le_implies_dom_le [OF assms(1)] assms(2) by (auto simp: keys_of_def)
  have "(\<Sum>k \<in> keys_of m' P. total_len (the (m' k))) = (\<Sum>k \<in> keys_of m' P. total_len (the (m k)))"
    using assms(1) by (intro sum.cong) (auto simp: keys_of_def map_le_def)
  also have "\<dots> \<le> (\<Sum>k \<in> keys_of m P. total_len (the (m k)))" by (rule sum_mono2 [OF fin sub]) simp
  finally show ?thesis using card_mono [OF fin sub] by (simp add: usage_le_def map_usage_def)
qed

lemma usage_replace:
  assumes "m k = Some p0" "total_len p = total_len p0"
  shows "map_usage (m(k \<mapsto> p)) P = map_usage m P"
proof -
  have keys: "keys_of (m(k \<mapsto> p)) P = keys_of m P" using assms(1) by (auto simp: keys_of_def)
  have "(\<Sum>j \<in> keys_of m P. total_len (the ((m(k \<mapsto> p)) j))) = (\<Sum>j \<in> keys_of m P. total_len (the (m j)))"
    using assms by (intro sum.cong) auto
  then show ?thesis by (simp add: map_usage_def keys)
qed

lemma usage_add_key:
  assumes "m k = None" "finite (dom m)"
  shows "map_usage (m(k \<mapsto> p)) P = (if P (fst k) then usage_add (total_len p) (map_usage m P) else map_usage m P)"
proof -
  have k: "k \<notin> keys_of m P" "finite (keys_of m P)" using assms by (auto simp: keys_of_def)
  have "(\<Sum>j \<in> keys_of m P. total_len (the ((m(k \<mapsto> p)) j))) = (\<Sum>j \<in> keys_of m P. total_len (the (m j)))"
    using k(1) by (intro sum.cong) auto
  then show ?thesis using k by (simp add: map_usage_def keys_of_upd usage_add_def)
qed

lemma within_limits_mono:
  assumes "within_limits m" "m' \<subseteq>\<^sub>m m"
  shows "within_limits m'"
proof -
  have fin: "finite (dom m)" using assms(1) by (simp add: within_limits_def)
  note mono = usage_mono [OF assms(2) fin]
  have "finite (dom m')" by (rule finite_subset [OF map_le_implies_dom_le [OF assms(2)] fin])
  moreover have "ran m' \<subseteq> ran m" using assms(2) by (force simp: ran_def map_le_def dom_def)
  ultimately show ?thesis
    using assms(1) mono unfolding within_limits_def usage_le_def by (meson order_trans subsetD)
qed

lemma within_limits_replace:
  assumes "within_limits m" "m k = Some p0" "total_len p = total_len p0" "partial_wf p"
  shows "within_limits (m(k \<mapsto> p))"
proof -
  have "ran (m(k \<mapsto> p)) \<subseteq> insert p (ran m)" by (auto simp: ran_def)
  then show ?thesis using assms(1,4) usage_replace [of m k p0 p, OF assms(2,3)] by (auto simp: within_limits_def)
qed

lemma within_limits_add:
  assumes "within_limits m" "m k = None" "spec_admit m (fst k) (total_len p) = Ok ()" "partial_wf p"
  shows "within_limits (m(k \<mapsto> p))"
proof -
  have fin: "finite (dom m)" using assms(1) by (simp add: within_limits_def)
  have "usage_le (usage_add (total_len p) (map_usage m (\<lambda>s. s = fst k))) SOURCE_LIMIT"
    "usage_le (usage_add (total_len p) (map_usage m (\<lambda>s. pool_of s = pool_of (fst k)))) (pool_limit (pool_of (fst k)))"
    using assms(3) by (auto simp: spec_admit_def Let_def usage_le_def not_less split: if_splits)
  moreover have "ran (m(k \<mapsto> p)) \<subseteq> insert p (ran m)" by (auto simp: ran_def)
  ultimately show ?thesis
    using assms(1,4) fin usage_add_key [of m k p, OF assms(2) fin] by (auto simp: within_limits_def)
qed

lemma step_partial_wf:
  assumes "step_partial idle now frame topic message p = (res, Some p')" "frame_data frame \<noteq> []"
    and "total_len p \<le> MAX_PAYLOAD_SIZE" "unat (next_index p) \<le> length (partial_payload p)"
  shows "partial_wf p' \<and> total_len p' = total_len p"
proof -
  let ?d = "frame_data frame"
  let ?q = "(partial_append ?d p)\<lparr>expires_at := min (deadline p) (now + idle)\<rparr>"
  have q: "p' = ?q" "\<not> is_complete ?q" "partial_check p (frame_header frame) topic (length ?d) = Ok ()"
    using assms(1) by (auto simp: step_partial_def Let_def split: result.splits if_splits)
  have "length (partial_payload p) + length ?d \<le> total_len p"
    using q(3) by (auto simp: partial_check_def split: if_splits)
  moreover have "unat (next_index p + 1) \<le> length (partial_payload p) + length ?d"
  proof -
    have "unat (next_index p + 1) \<le> unat (next_index p) + 1"
      by (simp only: unat_word_ariths(1) unat_1 mod_less_eq_dividend)
    also have "\<dots> \<le> length (partial_payload p) + length ?d"
      using assms(2,4) by (cases ?d) auto
    finally show ?thesis .
  qed
  ultimately show ?thesis using q(1,2) assms(3) by (simp add: partial_wf_def is_complete_def partial_append_def)
qed

lemma unexpired_le: "unexpired now m \<subseteq>\<^sub>m m"
  by (auto simp: map_le_def unexpired_def split: option.splits if_splits)

lemma spec_accept_limits:
  assumes "within_limits m" "spec_accept C message topic now timeout idle m = (res, m')"
  shows "within_limits m'"
proof (cases "frame_decode C (in_payload message)")
  case frame: (Some frame)
  let ?k = "(in_source message, message_id (frame_header frame))" and ?len = "unat (frag_total_len (frame_header frame))"
  let ?live = "unexpired now m"
  note live = within_limits_mono [OF assms(1) unexpired_le [of now]]
  show ?thesis
  proof (cases "?len > MAX_PAYLOAD_SIZE \<or> frame_data frame = []")
    case valid: False
    obtain r q where step: "message_step timeout idle now (spec_admit ?live (fst ?k) ?len) frame topic message (?live ?k) = (r, q)"
      by fastforce
    then have m': "m' = ?live(?k := q)"
      using assms(2) valid by (auto simp: spec_accept_def frame Let_def)
    show ?thesis
    proof (cases q)
      case None
      then have "m' \<subseteq>\<^sub>m ?live" by (simp add: m' map_le_def)
      then show ?thesis by (rule within_limits_mono [OF live])
    next
      case (Some p')
      show ?thesis
      proof (cases "?live ?k")
        case old: (Some p)
        then have "partial_wf p" using live by (auto simp: within_limits_def ran_def)
        then have "partial_wf p' \<and> total_len p' = total_len p"
          using step_partial_wf [of idle now frame topic message p r p'] step Some old valid
          by (simp add: message_step_def partial_wf_def)
        then show ?thesis using within_limits_replace [OF live old] m' Some by simp
      next
        case new: None
        let ?p = "fresh_partial timeout now (frame_header frame) topic"
        have adm: "spec_admit ?live (fst ?k) ?len = Ok ()" "step_partial idle now frame topic message ?p = (r, Some p')"
          using step Some new by (auto simp: message_step_def split: if_splits result.splits)
        then have "partial_wf p' \<and> total_len p' = ?len"
          using step_partial_wf [OF adm(2)] valid by (simp add: fresh_partial_def)
        then show ?thesis using within_limits_add [OF live new, of p'] adm(1) m' Some by simp
      qed
    qed
  qed (use assms frame in \<open>simp add: spec_accept_def\<close>)
qed (use assms in \<open>simp add: spec_accept_def\<close>)

lemma reassembler_step_limits:
  assumes "reassembler_step C r r'" "distinct_keys r" "within_limits (abs_map r)"
  shows "distinct_keys r' \<and> within_limits (abs_map r')"
proof -
  obtain now message out where p: "process C now message r = (out, r')"
    using assms(1) by (auto elim: reassembler_step.cases)
  note facts = process_refines [OF assms(2) p]
  show ?thesis
  proof (cases "original_topic (in_topic message)")
    case (Some topic)
    then obtain res where "spec_accept C message topic now (re_timeout r) (re_idle_timeout r) (abs_map r) = (res, abs_map r')"
      using facts(2) by auto
    from spec_accept_limits [OF assms(3) this] facts(1) show ?thesis by simp
  qed (use facts assms in simp)
qed

lemma new_limits: "distinct_keys (reassembler_new t i) \<and> within_limits (abs_map (reassembler_new t i))"
  by (simp add: reassembler_new_def distinct_keys_def abs_map_def within_limits_def map_usage_def keys_of_def usage_le_def)

lemma reachable_limits:
  "(reassembler_step C)\<^sup>*\<^sup>* (reassembler_new t i) r \<Longrightarrow> distinct_keys r \<and> within_limits (abs_map r)"
  by (induction rule: rtranclp_induct) (use new_limits reassembler_step_limits in blast)+

lemma reachable_settings:
  assumes "(reassembler_step C)\<^sup>*\<^sup>* (reassembler_new t i) r"
  shows "re_timeout r = t \<and> re_idle_timeout r = i"
  using assms
proof (induction rule: rtranclp_induct)
  case (step r r')
  then show ?case using reachable_limits [of C t i r] process_refines(1) [of r C _ _ _ r']
    by (auto elim!: reassembler_step.cases)
qed (simp add: reassembler_new_def)

lemma held_bytes_le:
  assumes "within_limits m"
  shows "held_bytes m pool \<le> usage_bytes (pool_limit pool)"
proof -
  have "held_bytes m pool \<le> usage_bytes (map_usage m (\<lambda>s. pool_of s = pool))"
    unfolding held_bytes_def map_usage_def usage.simps
    using assms by (intro sum_mono) (force simp: within_limits_def keys_of_def partial_wf_def ran_def)
  also have "\<dots> \<le> usage_bytes (pool_limit pool)" using assms by (simp add: within_limits_def usage_le_def)
  finally show ?thesis .
qed



section \<open>Splitting\<close>

lemma fragments_collect_Many:
  assumes "0 < fragment_len m" "length (out_payload (frags_message m)) < 2 ^ 32"
    and "i * fragment_len m \<le> length (out_payload (frags_message m)) + fragment_len m" "unat (frags_next_index m) = i"
  shows "fragments_collect C (Many m) =
     Some (fragments_from C m i (chunks (fragment_len m) (drop (i * fragment_len m) (out_payload (frags_message m)))))"
  using assms
proof (induction "length (out_payload (frags_message m)) - i * fragment_len m" arbitrary: i m rule: less_induct)
  case less
  let ?xs = "out_payload (frags_message m)" and ?n = "fragment_len m"
  show ?case
  proof (cases "length ?xs \<le> i * ?n")
    case True
    then show ?thesis using less.prems
      by (subst fragments_collect.simps) (simp add: fragments_next_def Let_def chunks.simps [of _ "[]"])
  next
    case False
    let ?m = "m\<lparr>frags_next_index := frags_next_index m + 1\<rparr>" and ?piece = "take ?n (drop (i * ?n) ?xs)"
    have "i \<le> i * ?n" using less.prems(1) by simp
    then have small: "i + 1 < 2 ^ 32" using False less.prems(2) by linarith
    then have idx: "unat (frags_next_index ?m) = Suc i"
      using less.prems(4) by (simp add: unat_word_ariths)
    have piece: "take (min (length ?xs) (i * ?n + ?n) - i * ?n) (drop (i * ?n) ?xs) = ?piece"
      by (cases "length ?xs \<le> i * ?n + ?n") (simp_all add: min_def)
    have w: "of_nat i = frags_next_index m" using less.prems(4) by (metis of_nat_unat ucast_id)
    have step: "fragments_next C (Many m) = (Some (fragment_at C m i ?piece), Many ?m)"
      using False by (simp add: fragments_next_def Let_def fragment_at_def piece less.prems(4) w)
    have "fragments_collect C (Many ?m) = Some (fragments_from C ?m (Suc i) (chunks ?n (drop (Suc i * ?n) ?xs)))"
      using less.hyps [of ?m "Suc i"] False less.prems idx by simp
    moreover have "fragments_from C ?m j ps = fragments_from C m j ps" for j ps
      by (induction ps arbitrary: j) (simp_all add: fragment_at_def)
    moreover have "chunks ?n (drop (i * ?n) ?xs) = ?piece # chunks ?n (drop (Suc i * ?n) ?xs)"
      using False less.prems(1) by (subst chunks.simps) (simp add: add.commute)
    ultimately show ?thesis by (subst fragments_collect.simps) (simp add: step)
  qed
qed

lemma enc_nat_length: "n < 128 ^ Suc k \<Longrightarrow> length (enc_nat n) \<le> Suc k"
proof (induction k arbitrary: n)
  case (Suc k)
  show ?case
  proof (cases "n < 128")
    case False
    have "n div 128 < 128 ^ Suc k" using Suc.prems by (simp add: less_mult_imp_div_less mult.commute)
    from Suc.IH [OF this] False show ?thesis by (subst enc_nat.simps) simp
  qed (subst enc_nat.simps, simp)
qed (subst enc_nat.simps, simp)

lemma codec_ref_ok: "header_codec_ok codec_ref"
proof -
  have "unat w < 128 ^ Suc 9" for w :: u64
    by (rule order_less_le_trans [OF unsigned_less]) simp
  then have l64: "length (enc_nat (unat w)) \<le> 10" for w :: u64 using enc_nat_length [of _ 9] by simp
  have "unat w < 128 ^ Suc 4" for w :: u32
    by (rule order_less_le_trans [OF unsigned_less]) simp
  then have l32: "length (enc_nat (unat w)) \<le> 5" for w :: u32 using enc_nat_length [of _ 4] by simp
  have "length (header_write codec_ref h) \<le> MAX_HEADER_LEN" for h
    using l64 [of "message_id h"] l32 [of "frag_index h"] l32 [of "frag_total_len h"]
    by (simp add: codec_ref_def MAX_HEADER_LEN_def)
  moreover have "header_read codec_ref (header_write codec_ref h @ data) = Some (h, data)" for h data
    using decodes_nat by (simp add: codec_ref_def)
  ultimately show ?thesis by (simp add: header_codec_ok_def)
qed

lemma length_chunks: "0 < n \<Longrightarrow> length (chunks n xs) = (length xs + n - 1) div n"
proof (induction n xs rule: chunks.induct)
  case (1 n xs)
  show ?case
  proof (cases "xs = []")
    case False
    then have "(length xs + n - 1) div n = Suc ((length xs - 1) div n)"
      using 1(2) div_add_self1 [of n "length xs - 1"] by (cases xs) (simp_all add: add.commute)
    moreover have "(length xs - n + n - 1) div n = (length xs - 1) div n"
    proof (cases "length xs \<le> n")
      case True
      then show ?thesis using False 1(2) by (cases xs) (simp_all add: div_eq_0_iff)
    qed simp
    ultimately show ?thesis using 1 False by (subst chunks.simps) simp
  qed (use 1(2) in \<open>simp add: chunks.simps [of n "[]"]\<close>)
qed

lemma fragments_from_length [simp]: "length (fragments_from C m i ps) = length ps"
  by (induction ps arbitrary: i) simp_all

lemma fragments_from_set:
  "x \<in> set (fragments_from C m i ps) \<Longrightarrow> \<exists>j p. p \<in> set ps \<and> x = fragment_at C m j p"
  by (induction ps arbitrary: i) fastforce+

lemma frame_roundtrip: "header_codec_ok C \<Longrightarrow> frame_decode C (frame_encode C f) = Some f"
  by (simp add: header_codec_ok_def frame_decode_def frame_encode_def)

lemma original_fragment_topic: "original_topic (Some (fragment_topic t)) = Some t"
  by (cases t) (simp_all add: original_topic_def fragment_topic_def FRAGMENT_TOPIC_def)



section \<open>Delivery\<close>

lemma frag_key_fragment:
  "header_codec_ok C \<Longrightarrow> frags_topic m = fragment_topic t \<Longrightarrow>
   frag_key C (arriving s (fragment_at C m i piece)) = Some (s, frags_message_id m)"
  by (simp add: frag_key_def arriving_def fragment_at_def original_fragment_topic frame_roundtrip)

text \<open>Messages of other keys leave an incomplete message alone until it expires.\<close>

lemma process_other:
  assumes "distinct_keys r" "process C now message r = (out, r')" "frag_key C message \<noteq> Some k"
    and "abs_map r k = Some p" "now < expires_at p"
  shows "abs_map r' k = Some p"
proof (cases "original_topic (in_topic message)")
  case (Some topic)
  then obtain res where acc: "spec_accept C message topic now (re_timeout r) (re_idle_timeout r) (abs_map r) = (res, abs_map r')"
    using process_refines(2) [OF assms(1,2)] by auto
  show ?thesis
  proof (cases "frame_decode C (in_payload message)")
    case frame: (Some frame)
    then have "k \<noteq> (in_source message, message_id (frame_header frame))"
      using assms(3) Some by (auto simp: frag_key_def)
    then show ?thesis
      using arg_cong [OF acc, of "\<lambda>x. snd x k"] assms(4,5)
      by (simp add: spec_accept_def frame Let_def unexpired_def split: if_splits prod.splits)
  qed (use acc assms(4) in \<open>simp add: spec_accept_def\<close>)
qed (use process_refines(2) [OF assms(1,2)] assms(4) in simp)

text \<open>The next fragment of a message extends it or, if it is the last, completes it.\<close>

lemma process_own:
  assumes C: "header_codec_ok C" and r: "distinct_keys r"
    and m: "frags_topic m = fragment_topic t" "length (out_payload (frags_message m)) \<le> MAX_PAYLOAD_SIZE"
    and k: "k = (s, frags_message_id m)"
    and p: "case unexpired now (abs_map r) k of
        Some q \<Rightarrow> q = p
      | None \<Rightarrow> i = 0 \<and> spec_admit (unexpired now (abs_map r)) s (length (out_payload (frags_message m))) = Ok ()
          \<and> p = \<lparr>deadline = now + re_timeout r, expires_at = now + re_timeout r,
              total_len = length (out_payload (frags_message m)), partial_topic = t, next_index = 0, partial_payload = []\<rparr>"
    and pf: "total_len p = length (out_payload (frags_message m))" "partial_topic p = t" "next_index p = of_nat i"
      "length (partial_payload p) + length piece \<le> total_len p" "piece \<noteq> []"
    and out: "process C now (arriving s (fragment_at C m i piece)) r = (out, r')"
  shows "if length (partial_payload p) + length piece = total_len p
     then out = Some \<lparr>in_payload = partial_payload p @ piece, in_destination = out_destination (frags_message m),
            in_source = s, in_topic = t\<rparr> \<and> abs_map r' k = None
     else out = None \<and> abs_map r' k = Some ((partial_append piece p)\<lparr>expires_at := min (deadline p) (now + re_idle_timeout r)\<rparr>)"
proof -
  let ?msg = "arriving s (fragment_at C m i piece)" and ?len = "length (out_payload (frags_message m))"
  let ?h = "\<lparr>message_id = frags_message_id m, frag_index = of_nat i, frag_total_len = of_nat ?len\<rparr>"
  let ?frame = "\<lparr>frame_header = ?h, frame_data = piece\<rparr>"
  have topic: "original_topic (in_topic ?msg) = Some t"
    by (simp add: arriving_def fragment_at_def m(1) original_fragment_topic)
  have frame: "frame_decode C (in_payload ?msg) = Some ?frame"
    by (simp add: arriving_def fragment_at_def frame_roundtrip [OF C])
  have "?len < 2 ^ 32" using m(2) by (simp add: MAX_PAYLOAD_SIZE_def)
  then have len: "unat (of_nat ?len :: u32) = ?len" by (simp add: unat_of_nat take_bit_nat_eq_self)
  obtain res where res: "spec_accept C ?msg t now (re_timeout r) (re_idle_timeout r) (abs_map r) = (res, abs_map r')"
    "out = (case res of Ok x \<Rightarrow> x | Err _ \<Rightarrow> None)"
    using process_refines(2) [OF r out] topic by auto
  have key: "(in_source ?msg, message_id ?h) = k" "in_source ?msg = s" by (simp_all add: k arriving_def)
  have step: "message_step (re_timeout r) (re_idle_timeout r) now
      (spec_admit (unexpired now (abs_map r)) s ?len) ?frame t ?msg (unexpired now (abs_map r) k)
      = step_partial (re_idle_timeout r) now ?frame t ?msg p"
    using p by (auto simp: message_step_def fresh_partial_def len split: option.splits)
  have "partial_check p ?h t (length piece) = Ok ()"
    using pf by (simp add: partial_check_def len)
  then have "step_partial (re_idle_timeout r) now ?frame t ?msg p =
      (if length (partial_payload p) + length piece = total_len p
       then (Ok (Some \<lparr>in_payload = partial_payload p @ piece, in_destination = out_destination (frags_message m),
            in_source = s, in_topic = t\<rparr>), None)
       else (Ok None, Some ((partial_append piece p)\<lparr>expires_at := min (deadline p) (now + re_idle_timeout r)\<rparr>)))"
    using pf(2) by (simp add: step_partial_def Let_def is_complete_def partial_append_def arriving_def fragment_at_def)
  then show ?thesis
    using res(2) arg_cong [OF res(1), of fst] arg_cong [OF res(1), of "\<lambda>x. snd x k"] m(2) pf(5) key step
    by (auto simp: spec_accept_def frame len Let_def split: if_splits prod.splits)
qed


text \<open>Once a message is open, its remaining pieces complete it, whatever else arrives in between.\<close>

lemma results_for_Cons:
  "results_for C k ((message, now) # evs) r =
     (let (out, r') = process C now message r
      in if frag_key C message = Some k then out # results_for C k evs r' else results_for C k evs r')"
  by (simp add: results_for_def split: prod.splits)

lemma results_for_none:
  "filter (\<lambda>(message, _). frag_key C message = Some k) evs = [] \<Longrightarrow> results_for C k evs r = []"
  by (induction evs arbitrary: r) (auto simp: results_for_Cons results_for_def split: prod.splits if_splits)

lemma assembling_step:
  assumes "assembling m t i (piece # ps) p"
  shows "assembling m t (Suc i) ps ((partial_append piece p)\<lparr>expires_at := e\<rparr>)"
    and "length (partial_payload p) + length piece \<le> total_len p"
    and "length (partial_payload p) + length piece = total_len p \<longleftrightarrow> ps = []"
    and "ps = [] \<Longrightarrow> partial_payload p @ piece = out_payload (frags_message m)"
proof -
  have "total_len p = length (partial_payload p) + length piece + length (concat ps)"
    using assms unfolding assembling_def by (metis append.assoc concat.simps(2) length_append)
  moreover have "concat ps = [] \<longleftrightarrow> ps = []" using assms by (cases ps) (auto simp: assembling_def)
  ultimately show "length (partial_payload p) + length piece \<le> total_len p"
    "length (partial_payload p) + length piece = total_len p \<longleftrightarrow> ps = []"
    by (simp_all flip: length_0_conv)
qed (use assms in \<open>auto simp: assembling_def partial_append_def add.commute\<close>)

lemma delivery_rest:
  assumes C: "header_codec_ok C" and m: "frags_topic m = fragment_topic t"
      "length (out_payload (frags_message m)) \<le> MAX_PAYLOAD_SIZE"
    and k: "k = (s, frags_message_id m)"
    and r: "distinct_keys r" "abs_map r k = Some p" and p: "assembling m t i ps p" "ps \<noteq> []"
    and time: "in_time C k (re_idle_timeout r) (deadline p) (expires_at p) (length ps) evs"
    and evs: "map fst (filter (\<lambda>(message, _). frag_key C message = Some k) evs) = map (arriving s) (fragments_from C m i ps)"
  shows "results_for C k evs r = replicate (length ps - 1) None
     @ [Some \<lparr>in_payload = out_payload (frags_message m), in_destination = out_destination (frags_message m),
         in_source = s, in_topic = t\<rparr>]"
  using r p time evs
proof (induction evs arbitrary: r p i ps)
  case Nil
  then show ?case by (cases ps) simp_all
next
  case (Cons ev evs)
  obtain message now where ev: "ev = (message, now)" by (cases ev)
  obtain piece ps' where ps: "ps = piece # ps'" using Cons.prems(4) by (cases ps) auto
  obtain out r' where step: "process C now message r = (out, r')" by (cases "process C now message r")
  have keep: "distinct_keys r'" "re_idle_timeout r' = re_idle_timeout r"
    using process_refines(1) [OF Cons.prems(1) step] by auto
  have now: "now < expires_at p" using Cons.prems(5) by (simp add: ev ps)
  show ?case
  proof (cases "frag_key C message = Some k")
    case False
    have "abs_map r' k = Some p"
      by (rule process_other [OF Cons.prems(1) step False Cons.prems(2) now])
    then show ?thesis
      using Cons.IH [OF keep(1) _ Cons.prems(3,4)] Cons.prems(5,6) False ps
      by (simp add: ev results_for_Cons step keep(2))
  next
    case True
    have message: "message = arriving s (fragment_at C m i piece)" using Cons.prems(6) True by (simp add: ev ps)
    let ?p = "(partial_append piece p)\<lparr>expires_at := min (deadline p) (now + re_idle_timeout r)\<rparr>"
    note p = Cons.prems(3) [unfolded ps]
    have outcome: "if ps' = []
      then out = Some \<lparr>in_payload = out_payload (frags_message m), in_destination = out_destination (frags_message m),
            in_source = s, in_topic = t\<rparr>
      else out = None \<and> abs_map r' k = Some ?p"
      using process_own [OF C Cons.prems(1) m k _ _ _ _ _ _ step [unfolded message], of p] p assembling_step(2-4) [OF p]
        Cons.prems(2) now by (simp add: unexpired_def assembling_def)
    show ?thesis
    proof (cases "ps' = []")
      case True': True
      then have "results_for C k evs r' = []" using Cons.prems(6) True by (intro results_for_none) (simp add: ev ps)
      then show ?thesis using outcome True True' by (simp add: ev results_for_Cons step ps)
    next
      case False
      have "results_for C k evs r' = replicate (length ps' - 1) None @ [Some \<lparr>in_payload = out_payload (frags_message m),
          in_destination = out_destination (frags_message m), in_source = s, in_topic = t\<rparr>]"
        using Cons.IH [OF keep(1) _ assembling_step(1) [OF p] False] Cons.prems(5,6) outcome False True ps
        by (simp add: ev keep(2) partial_append_def)
      then show ?thesis using outcome True False by (cases ps') (simp_all add: ev results_for_Cons step ps)
    qed
  qed
qed



section \<open>Properties\<close>

lemma split_outcome:
  assumes "fragments_split rng_id message max_len = Ok frs"
  shows "length (out_payload message) \<le> MAX_PAYLOAD_SIZE"
    and "length (out_payload message) \<le> max_len \<Longrightarrow> frs = Single (Some message)"
    and "max_len < length (out_payload message) \<Longrightarrow> MAX_HEADER_LEN < max_len
      \<and> frs = Many \<lparr>frags_message = message, frags_message_id = rng_id, frags_topic = fragment_topic (out_topic message),
          fragment_len = max_len - MAX_HEADER_LEN, frags_next_index = 0\<rparr>"
  using assms by (auto simp: fragments_split_def Let_def result_simps split: if_splits option.splits)

lemma chunks_bound: "0 < n \<Longrightarrow> piece \<in> set (chunks n xs) \<Longrightarrow> piece \<noteq> [] \<and> length piece \<le> n"
proof (induction n xs rule: chunks.induct)
  case (1 n xs)
  show ?case
  proof (cases "xs = []")
    case False
    then have "chunks n xs = take n xs # chunks n (drop n xs)" using 1(2) by (subst chunks.simps) simp
    then show ?thesis using 1 False by auto
  qed (use 1 in \<open>simp add: chunks.simps [of n "[]"]\<close>)
qed

lemma fragments_of_split:
  assumes "fragments_split rng_id message max_len = Ok frs" "max_len < length (out_payload message)"
  obtains m where "fragments_collect C frs = Some (fragments_from C m 0 (chunks (max_len - MAX_HEADER_LEN) (out_payload message)))"
    and "frags_message m = message" "frags_message_id m = rng_id" "frags_topic m = fragment_topic (out_topic message)"
proof (rule that)
  let ?m = "\<lparr>frags_message = message, frags_message_id = rng_id, frags_topic = fragment_topic (out_topic message),
          fragment_len = max_len - MAX_HEADER_LEN, frags_next_index = 0\<rparr>"
  show "fragments_collect C frs = Some (fragments_from C ?m 0 (chunks (max_len - MAX_HEADER_LEN) (out_payload message)))"
    using split_outcome [OF assms(1)] assms(2) fragments_collect_Many [of ?m 0 C] by (simp add: MAX_PAYLOAD_SIZE_def)
qed simp_all

lemma split_collects:
  assumes "fragments_split rng_id message max_len = Ok frs"
  obtains ms where "fragments_collect C frs = Some ms" "\<forall>x \<in> set ms. out_destination x = out_destination message"
proof (cases "length (out_payload message) \<le> max_len")
  case True
  then have "fragments_collect C frs = Some [message]"
    using split_outcome(2) [OF assms] by (simp add: fragments_collect.simps fragments_next_def)
  then show thesis using that by simp
next
  case False
  then obtain m where m: "fragments_collect C frs = Some (fragments_from C m 0 (chunks (max_len - MAX_HEADER_LEN) (out_payload message)))"
    "frags_message m = message"
    using fragments_of_split [OF assms] by (metis not_le)
  show thesis by (rule that [OF m(1)]) (auto dest!: fragments_from_set simp: fragment_at_def m(2))
qed

lemma split_example_sent: "fragments_split 9 message_example 200 = Ok split_example"
  by (simp add: split_example_def message_example_def fragments_split_def original_topic_def FRAGMENT_TOPIC_def
      MAX_PAYLOAD_SIZE_def MAX_HEADER_LEN_def result_simps)

lemma fragments_example_shape:
  obtains m a b c where "fragments_example = [fragment_at codec_ref m 0 a, fragment_at codec_ref m (Suc 0) b, fragment_at codec_ref m (Suc (Suc 0)) c]"
    and "frags_message_id m = 9" "frags_topic m = fragment_topic (Some ''greet'')"
    and "fragments_collect codec_ref split_example = Some fragments_example"
proof -
  have "200 < length (out_payload message_example)" by (simp add: message_example_def)
  from fragments_of_split [OF split_example_sent this, of codec_ref] obtain m where
    m: "fragments_collect codec_ref split_example = Some (fragments_from codec_ref m 0 (chunks 72 (out_payload message_example)))"
      "frags_message_id m = 9" "frags_topic m = fragment_topic (Some ''greet'')"
    by (auto simp: message_example_def MAX_HEADER_LEN_def)
  have "length (chunks 72 (out_payload message_example)) = 3" by (simp add: length_chunks message_example_def)
  then obtain a b c where "chunks 72 (out_payload message_example) = [a, b, c]" by (auto simp: numeral_3_eq_3 length_Suc_conv)
  then show thesis using that [of m a b c] m by (simp add: fragments_example_def)
qed

lemma arrivals_example_facts:
  fixes s defines "s \<equiv> DesktopRendererSource"
  shows "fragments_collect codec_ref split_example = Some (fragments_example ! 0 # [fragments_example ! 1, fragments_example ! 2])"
    and "200 < length (out_payload message_example)"
    and "unexpired 10 (abs_map (reassembler_new 60000 10000)) (s, 9) = None"
    and "spec_admit (unexpired 10 (abs_map (reassembler_new 60000 10000))) s (length (out_payload message_example)) = Ok ()"
    and "map fst (filter (\<lambda>(x, _). frag_key codec_ref x = Some (s, 9)) arrivals_example)
      = map (arriving s) [fragments_example ! 1, fragments_example ! 2]"
    and "in_time codec_ref (s, 9) 10000 (10 + 60000) (min (10 + 60000) (10 + 10000))
      (length [fragments_example ! 1, fragments_example ! 2]) arrivals_example"
proof -
  obtain m a b c where f: "fragments_example = [fragment_at codec_ref m 0 a, fragment_at codec_ref m (Suc 0) b, fragment_at codec_ref m (Suc (Suc 0)) c]"
    and m: "frags_message_id m = 9" "frags_topic m = fragment_topic (Some ''greet'')"
    and frags: "fragments_collect codec_ref split_example = Some fragments_example"
    by (rule fragments_example_shape)
  note key = frag_key_fragment [OF codec_ref_ok m(2), unfolded m(1)]
  have other: "frag_key codec_ref (arriving (CliSource Own) message_example) = None"
    by (simp add: frag_key_def arriving_def message_example_def original_topic_def FRAGMENT_TOPIC_def)
  show "fragments_collect codec_ref split_example = Some (fragments_example ! 0 # [fragments_example ! 1, fragments_example ! 2])"
    by (simp add: frags f numeral_2_eq_2)
  show "200 < length (out_payload message_example)" by (simp add: message_example_def)
  have empty: "unexpired 10 (abs_map (reassembler_new 60000 10000)) = Map.empty"
    by (rule ext) (simp add: abs_map_def reassembler_new_def unexpired_def)
  then show "unexpired 10 (abs_map (reassembler_new 60000 10000)) (s, 9) = None" by simp
  show "spec_admit (unexpired 10 (abs_map (reassembler_new 60000 10000))) s (length (out_payload message_example)) = Ok ()"
    by (simp add: empty spec_admit_def map_usage_def keys_of_def usage_add_def SOURCE_LIMIT_def OTHER_POOL_LIMIT_def pool_of_def
        MAX_PAYLOAD_SIZE_def message_example_def Let_def s_def)
  show "map fst (filter (\<lambda>(x, _). frag_key codec_ref x = Some (s, 9)) arrivals_example)
      = map (arriving s) [fragments_example ! 1, fragments_example ! 2]"
    "in_time codec_ref (s, 9) 10000 (10 + 60000) (min (10 + 60000) (10 + 10000))
      (length [fragments_example ! 1, fragments_example ! 2]) arrivals_example"
    by (simp_all add: arrivals_example_def f key other numeral_2_eq_2 s_def)
qed

text \<open>A message that the sender accepts for splitting is cut in finitely many steps, although the
  index of the iterator is a 32-bit number: the loop over the iterator ends with a list of messages that
  all fit the provider's limit.  A message within the limit is sent as it is; a larger one as
  \<open>\<lceil>len / (max - 128)\<rceil>\<close> fragments to the same destination, on a topic from which the receiver
  recovers the original one.\<close>

theorem splitting_ends:
  assumes C: "header_codec_ok C" and split: "fragments_split rng_id message max_len = Ok frs"
  shows "\<exists>ms. fragments_collect C frs = Some ms
     \<and> (\<forall>x \<in> set ms. length (out_payload x) \<le> max_len \<and> out_destination x = out_destination message)
     \<and> (if length (out_payload message) \<le> max_len then ms = [message]
        else length ms = (length (out_payload message) + (max_len - 128) - 1) div (max_len - 128)
          \<and> (\<forall>x \<in> set ms. original_topic (out_topic x) = Some (out_topic message)))"
proof (cases "length (out_payload message) \<le> max_len")
  case True
  then have "fragments_collect C frs = Some [message]"
    using split_outcome(2) [OF split] by (simp add: fragments_collect.simps fragments_next_def)
  then show ?thesis using True by simp
next
  case False
  let ?n = "max_len - MAX_HEADER_LEN"
  have n: "0 < ?n" "MAX_HEADER_LEN < max_len" using split_outcome(3) [OF split] False by simp_all
  obtain m where m: "fragments_collect C frs = Some (fragments_from C m 0 (chunks ?n (out_payload message)))"
    "frags_message m = message" "frags_topic m = fragment_topic (out_topic message)"
    using fragments_of_split [OF split] False by (metis not_le)
  have "length (out_payload (fragment_at C m i piece)) \<le> max_len" if "piece \<in> set (chunks ?n (out_payload message))" for i piece
  proof -
    have "length (header_write C h) \<le> MAX_HEADER_LEN" for h using C by (simp add: header_codec_ok_def)
    from add_mono [OF this conjunct2 [OF chunks_bound [OF n(1) that]]] n(2) show ?thesis
      by (simp add: fragment_at_def frame_encode_def)
  qed
  then have "\<forall>x \<in> set (fragments_from C m 0 (chunks ?n (out_payload message))). length (out_payload x) \<le> max_len
      \<and> out_destination x = out_destination message \<and> original_topic (out_topic x) = Some (out_topic message)"
    by (auto dest!: fragments_from_set simp: fragment_at_def m original_fragment_topic)
  then show ?thesis using m(1) False length_chunks [OF n(1)] by (auto simp: MAX_HEADER_LEN_def)
qed

theorem splitting_ends_witness:
  "header_codec_ok codec_ref \<and> fragments_split 9 message_example 200 = Ok split_example
   \<and> (\<exists>ms. fragments_collect codec_ref split_example = Some ms \<and> length ms = 3)"
  using splitting_ends [OF codec_ref_ok split_example_sent] codec_ref_ok split_example_sent
  by (auto simp: message_example_def)

text \<open>C7: The reassembler refines a reassembly of each message alone.  In every reachable state
  \<open>accept\<close> behaves as \<open>spec_accept\<close> on the map from a source and message id to the unfinished message:
  what has expired is dropped, and then only the addressed entry changes, by a step that looks at
  this entry and at the admission of a new message.\<close>

theorem reassembly_refinement:
  assumes "(reassembler_step C)\<^sup>*\<^sup>* (reassembler_new timeout idle) r" "accept C message topic now r = (res, r')"
  shows "spec_accept C message topic now timeout idle (abs_map r) = (res, abs_map r')"
  using accept_refines(1) [of r C message topic now] reachable_limits [OF assms(1)] reachable_settings [OF assms(1)] assms(2)
  by simp

theorem reassembly_refinement_witness:
  "(reassembler_step codec_ref)\<^sup>*\<^sup>* (reassembler_new 60000 10000) (reassembler_new 60000 10000)
   \<and> spec_accept codec_ref (arriving DesktopRendererSource message_example) None 5 60000 10000 (abs_map (reassembler_new 60000 10000))
     = (fst (accept codec_ref (arriving DesktopRendererSource message_example) None 5 (reassembler_new 60000 10000)),
        abs_map (snd (accept codec_ref (arriving DesktopRendererSource message_example) None 5 (reassembler_new 60000 10000))))"
  using reassembly_refinement [OF rtranclp.rtrancl_refl, of codec_ref "arriving DesktopRendererSource message_example" None 5 60000 10000]
  by simp

text \<open>C24: Whatever messages arrive, and at whatever times, the memory of the receiver is bounded: no
  source and no pool of sources has more unfinished messages, or announces more bytes, than its limit,
  the bytes that are held for a pool stay below that limit, and every unfinished message is shorter
  than it was announced and announced no longer than the largest payload.\<close>

theorem reassembly_bounded:
  assumes "(reassembler_step C)\<^sup>*\<^sup>* (reassembler_new timeout idle) r"
  shows "usage_le (state_usage (re_state r) (\<lambda>s. s = source)) SOURCE_LIMIT
     \<and> usage_le (state_usage (re_state r) (\<lambda>s. pool_of s = pool)) (pool_limit pool)
     \<and> held_bytes (abs_map r) pool \<le> usage_bytes (pool_limit pool)
     \<and> (\<forall>(key, p) \<in> set (partials (re_state r)). partial_wf p)"
proof -
  have inv: "distinct_keys r" "within_limits (abs_map r)" using reachable_limits [OF assms] by simp_all
  have "partial_wf p" if "(key, p) \<in> set (partials (re_state r))" for key p
  proof -
    have "p \<in> ran (abs_map r)" using inv(1) map_of_is_SomeI [OF _ that] by (simp add: abs_map_def distinct_keys_def ranI)
    then show ?thesis using inv(2) by (simp add: within_limits_def)
  qed
  then show ?thesis
    using inv held_bytes_le [OF inv(2)] state_usage_map [of "re_state r"]
    by (auto simp: within_limits_def abs_map_def distinct_keys_def)
qed

theorem reassembly_bounded_witness:
  "(reassembler_step codec_ref)\<^sup>*\<^sup>* (reassembler_new 60000 10000)
     (snd (process codec_ref 5 (arriving DesktopRendererSource (fragments_example ! 0)) (reassembler_new 60000 10000)))
   \<and> held_bytes (abs_map (snd (process codec_ref 5 (arriving DesktopRendererSource (fragments_example ! 0)) (reassembler_new 60000 10000)))) OtherPool
     \<le> usage_bytes (pool_limit OtherPool)"
proof -
  have "(reassembler_step codec_ref)\<^sup>*\<^sup>* (reassembler_new 60000 10000)
     (snd (process codec_ref 5 (arriving DesktopRendererSource (fragments_example ! 0)) (reassembler_new 60000 10000)))"
    by (rule r_into_rtranclp, rule process_step [OF surjective_pairing])
  from reassembly_bounded [OF this] this show ?thesis by blast
qed

lemma delivery_of_fragments:
  assumes C: "header_codec_ok C" and r: "(reassembler_step C)\<^sup>*\<^sup>* (reassembler_new timeout idle) r"
    and sent: "fragments_split rng_id message max_len = Ok frs" "fragments_collect C frs = Some (first # rest)"
      "max_len < length (out_payload message)"
    and start: "unexpired now (abs_map r) (s, rng_id) = None"
      "spec_admit (unexpired now (abs_map r)) s (length (out_payload message)) = Ok ()"
    and order: "map fst (filter (\<lambda>(x, _). frag_key C x = Some (s, rng_id)) evs) = map (arriving s) rest"
    and time: "in_time C (s, rng_id) idle (now + timeout) (min (now + timeout) (now + idle)) (length rest) evs"
  shows "results_for C (s, rng_id) ((arriving s first, now) # evs) r = replicate (length rest) None
     @ [Some \<lparr>in_payload = out_payload message, in_destination = out_destination message,
         in_source = s, in_topic = out_topic message\<rparr>]"
proof -
  let ?k = "(s, rng_id)" and ?n = "max_len - MAX_HEADER_LEN"
  have n: "0 < ?n" using split_outcome(3) [OF sent(1)] sent(3) by simp
  have inv: "distinct_keys r" "re_timeout r = timeout" "re_idle_timeout r = idle"
    using reachable_limits [OF r] reachable_settings [OF r] by simp_all
  obtain m where m: "fragments_collect C frs = Some (fragments_from C m 0 (chunks ?n (out_payload message)))"
    "frags_message m = message" "frags_message_id m = rng_id" "frags_topic m = fragment_topic (out_topic message)"
    using fragments_of_split [OF sent(1,3)] .
  obtain piece ps where ps: "chunks ?n (out_payload message) = piece # ps" "first = fragment_at C m 0 piece"
    "rest = fragments_from C m (Suc 0) ps"
    using m(1) sent(2) by (cases "chunks ?n (out_payload message)") auto
  define p where "p = \<lparr>deadline = now + timeout, expires_at = now + timeout, total_len = length (out_payload message),
     partial_topic = out_topic message, next_index = 0, partial_payload = []\<rparr>"
  have p: "assembling m (out_topic message) 0 (piece # ps) p"
    using concat_chunks [OF n, of "out_payload message"] chunks_bound [OF n, of _ "out_payload message"]
    by (auto simp: assembling_def p_def m(2) ps(1))
  have "length piece \<le> ?n" using chunks_bound [OF n, of piece "out_payload message"] by (simp add: ps(1))
  then have more: "ps \<noteq> []" using assembling_step(3) [OF p] sent(3) by (auto simp: p_def)
  obtain out r' where step: "process C now (arriving s first) r = (out, r')" by fastforce
  let ?p = "(partial_append piece p)\<lparr>expires_at := min (deadline p) (now + idle)\<rparr>"
  have len: "length (out_payload (frags_message m)) \<le> MAX_PAYLOAD_SIZE" using split_outcome(1) [OF sent(1)] m(2) by simp
  have "out = None \<and> abs_map r' ?k = Some ?p"
    using process_own [OF C inv(1) m(4) len _ _ _ _ _ _ _ step [unfolded ps(2)], of ?k p] p start
      assembling_step(2,3) [OF p] more by (simp add: m(2,3) inv assembling_def p_def)
  moreover have "distinct_keys r' \<and> re_idle_timeout r' = idle" using process_refines(1) [OF inv(1) step] inv by simp
  ultimately show ?thesis
    using delivery_rest [OF C m(4) len _ _ _ assembling_step(1) [OF p] more, of ?k s r' "min (deadline p) (now + idle)" evs]
      time order more frag_key_fragment [OF C m(4), of s 0 piece]
    by (cases ps) (simp_all add: results_for_Cons step [unfolded ps(2)] ps(2,3) m(2,3) partial_append_def p_def)
qed

text \<open>C6: A fragmented message is delivered.  Take a message that has to be split, whose first fragment
  arrives when the receiver, in any reachable state, has no live message of its key and admits its
  length.  If its fragments then arrive in order and before the message expires, among any other
  traffic, every fragment but the last yields nothing and the last one yields the original message.\<close>

theorem fragmented_delivery:
  assumes C: "header_codec_ok C" and r: "(reassembler_step C)\<^sup>*\<^sup>* (reassembler_new timeout idle) r"
    and sent: "fragments_split rng_id message max_len = Ok frs" "fragments_collect C frs = Some (first # rest)"
      "max_len < length (out_payload message)"
    and start: "unexpired now (abs_map r) (s, rng_id) = None"
      "spec_admit (unexpired now (abs_map r)) s (length (out_payload message)) = Ok ()"
    and order: "map fst (filter (\<lambda>(x, _). frag_key C x = Some (s, rng_id)) evs) = map (arriving s) rest"
    and time: "in_time C (s, rng_id) idle (now + timeout) (min (now + timeout) (now + idle)) (length rest) evs"
  shows "results_for C (s, rng_id) ((arriving s first, now) # evs) r = replicate (length rest) None
     @ [Some \<lparr>in_payload = out_payload message, in_destination = out_destination message,
         in_source = s, in_topic = out_topic message\<rparr>]"
  using assms by (rule delivery_of_fragments)

theorem fragmented_delivery_witness:
  "results_for codec_ref (DesktopRendererSource, 9)
     ((arriving DesktopRendererSource (fragments_example ! 0), 10) # arrivals_example) (reassembler_new 60000 10000)
   = [None, None, Some \<lparr>in_payload = replicate 210 7, in_destination = DesktopMain,
        in_source = DesktopRendererSource, in_topic = Some ''greet''\<rparr>]"
  using fragmented_delivery [OF codec_ref_ok rtranclp.rtrancl_refl split_example_sent arrivals_example_facts]
  by (simp add: message_example_def numeral_2_eq_2)

end
