(* ===== verification/Ipc_Client.thy ===== *)
theory Ipc_Client
  imports Ipc_Laws
begin

text \<open>
  The IPC client (\<open>crates/bitwarden-ipc/src/ipc_client.rs\<close> and \<open>broadcast.rs\<close>): sending a message
  in fragments, broadcasting to a group of endpoints, the processing loop with its dispatch of
  incoming messages, and starting and stopping.  The crypto provider with its communication
  backend and sessions is a parameter over its own state \<open>'c\<close>.  A cancellation token is a number;
  cancelling it adds it to the cancelled ones.  A processing loop is known by its token.  The
  client holds a weak reference to the channel of its last loop, which is alive as long as that
  loop runs.  The messages given to the provider and the ones dispatched to subscribers and to the
  RPC handlers are logged.  RPC handlers and subscriptions themselves are not modelled.
\<close>

section \<open>Model\<close>

datatype error_kind = Fatal | UnreachableKind | OtherKind

record provider_error =
  error_kind :: error_kind
  error_text :: string

datatype send_error = Unreachable | Other string

datatype broadcast_group = AllBrowserForeground | AllBrowserBackground

fun group_contains :: "broadcast_group \<Rightarrow> endpoint \<Rightarrow> bool" where
  "group_contains AllBrowserForeground (BrowserForeground _) = True"
| "group_contains AllBrowserBackground (BrowserBackground (HostNumber _)) = True"
| "group_contains _ _ = False"

datatype broadcast_resolution = Endpoints "endpoint list" | Delegate endpoint | UnsupportedResolution

datatype broadcast_error = UnsupportedGroup | DelegationUnsupported | OutOfScope endpoint | SerializationFailed string

record endpoint_send_result =
  esr_endpoint :: endpoint
  esr_result :: "(unit, send_error) result"

text \<open>The provider: its largest payload, sending, and the members of a group; and the texts of errors.\<close>

record 'c provider =
  max_payload_len :: nat
  provider_send :: "outgoing_message \<Rightarrow> 'c \<Rightarrow> (unit, provider_error) result \<times> 'c"
  provider_resolve :: "broadcast_group \<Rightarrow> 'c \<Rightarrow> broadcast_resolution"
  split_error_text :: "fragmentation_error \<Rightarrow> string"

record 'c ipc_client =
  ipc_backend :: 'c
  ipc_reassembler :: reassembler
  ipc_incoming :: "nat option"
  ipc_token :: "nat option"
  ipc_loops :: "nat list"
  ipc_cancelled :: "nat list"
  ipc_sent :: "outgoing_message list"
  ipc_requests :: "incoming_message list"
  ipc_published :: "incoming_message list"

definition ipc_client_new :: "'c \<Rightarrow> 'c ipc_client" where
  "ipc_client_new backend =
     \<lparr>ipc_backend = backend, ipc_reassembler = reassembler_new REASSEMBLY_TIMEOUT REASSEMBLY_IDLE_TIMEOUT,
      ipc_incoming = None, ipc_token = None, ipc_loops = [], ipc_cancelled = [],
      ipc_sent = [], ipc_requests = [], ipc_published = []\<rparr>"

definition ipc_is_running :: "'c ipc_client \<Rightarrow> bool" where
  "ipc_is_running self \<longleftrightarrow>
     (case ipc_incoming self of Some loop \<Rightarrow> loop \<in> set (ipc_loops self) | None \<Rightarrow> False) \<and> ipc_token self \<noteq> None"

text \<open>The error of \<open>start\<close> is \<open>AlreadyRunningError\<close>; the token is the caller's or a new one.\<close>

definition ipc_start :: "nat \<Rightarrow> 'c ipc_client \<Rightarrow> (unit, unit) result \<times> 'c ipc_client" where
  "ipc_start token self =
     (if ipc_is_running self then (Err (), self)
      else (Ok (), self\<lparr>ipc_token := Some token, ipc_incoming := Some token, ipc_loops := token # ipc_loops self\<rparr>))"

definition stop_inner :: "'c ipc_client \<Rightarrow> 'c ipc_client" where
  "stop_inner self =
     (case ipc_token self of
        Some token \<Rightarrow> self\<lparr>ipc_token := None, ipc_cancelled := token # ipc_cancelled self\<rparr>
      | None \<Rightarrow> self)"

text \<open>The end of a processing loop.\<close>

definition end_loop :: "nat \<Rightarrow> 'c ipc_client \<Rightarrow> 'c ipc_client" where
  "end_loop loop self = stop_inner (self\<lparr>ipc_loops := removeAll loop (ipc_loops self)\<rparr>)"

definition RPC_REQUEST_PAYLOAD_TYPE_NAME :: string where
  "RPC_REQUEST_PAYLOAD_TYPE_NAME = ''RpcRequestMessage''"

text \<open>The arm of the loop for what the provider has received.\<close>

definition loop_receive ::
  "header_codec \<Rightarrow> nat \<Rightarrow> nat \<Rightarrow> (incoming_message, provider_error) result \<Rightarrow> 'c ipc_client \<Rightarrow> 'c ipc_client" where
  "loop_receive C now loop received self =
     (case received of
        Ok message \<Rightarrow>
          (let (out, r) = process C now message (ipc_reassembler self);
               self = self\<lparr>ipc_reassembler := r\<rparr>
           in case out of
                None \<Rightarrow> self
              | Some message \<Rightarrow>
                  (if in_topic message = Some RPC_REQUEST_PAYLOAD_TYPE_NAME
                   then self\<lparr>ipc_requests := ipc_requests self @ [message]\<rparr>
                   else self\<lparr>ipc_published := ipc_published self @ [message]\<rparr>))
      | Err error \<Rightarrow> (if error_kind error = Fatal then end_loop loop self else self))"

record send_outcome =
  outcome_result :: "(unit, send_error) result"
  outcome_fatal :: bool

definition to_send_error :: "provider_error \<Rightarrow> send_error" where
  "to_send_error e = (case error_kind e of UnreachableKind \<Rightarrow> Unreachable | _ \<Rightarrow> Other (error_text e))"

definition send_fragment :: "'c provider \<Rightarrow> outgoing_message \<Rightarrow> 'c ipc_client \<Rightarrow> send_outcome \<times> 'c ipc_client" where
  "send_fragment P message self =
     (let (result, backend) = provider_send P message (ipc_backend self);
          self = self\<lparr>ipc_backend := backend, ipc_sent := ipc_sent self @ [message]\<rparr>;
          self = (case result of
             Err error \<Rightarrow> (if error_kind error = Fatal then stop_inner self else self)
           | Ok _ \<Rightarrow> self)
      in (\<lparr>outcome_result = map_err to_send_error result,
           outcome_fatal = (case result of Err e \<Rightarrow> error_kind e = Fatal | Ok _ \<Rightarrow> False)\<rparr>, self))"

text \<open>The loop over the fragments; \<open>None\<close> if it does not end.\<close>

partial_function (option) send_fragments ::
  "header_codec \<Rightarrow> 'c provider \<Rightarrow> fragments \<Rightarrow> 'c ipc_client \<Rightarrow> (send_outcome \<times> 'c ipc_client) option" where
  "send_fragments C P frags self =
     (case fragments_next C frags of
        (None, _) \<Rightarrow> Some (\<lparr>outcome_result = Ok (), outcome_fatal = False\<rparr>, self)
      | (Some fragment, frags') \<Rightarrow>
          (let (outcome, self') = send_fragment P fragment self
           in if is_ok (outcome_result outcome) then send_fragments C P frags' self' else Some (outcome, self')))"

definition ipc_send_message ::
  "header_codec \<Rightarrow> 'c provider \<Rightarrow> u64 \<Rightarrow> outgoing_message \<Rightarrow> 'c ipc_client \<Rightarrow> (send_outcome \<times> 'c ipc_client) option" where
  "ipc_send_message C P rng_id message self =
     (case fragments_split rng_id message (max_payload_len P) of
        Ok frags \<Rightarrow> send_fragments C P frags self
      | Err e \<Rightarrow> Some (\<lparr>outcome_result = Err (Other (split_error_text P e)), outcome_fatal = False\<rparr>, self))"

text \<open>The loop over the endpoints of a group, with a random message id for each one.\<close>

fun broadcast_loop ::
  "header_codec \<Rightarrow> 'c provider \<Rightarrow> (nat \<Rightarrow> u64) \<Rightarrow> bytes \<Rightarrow> string option \<Rightarrow> endpoint list \<Rightarrow> 'c ipc_client
   \<Rightarrow> (endpoint_send_result list \<times> 'c ipc_client) option" where
  "broadcast_loop C P rng_id payload topic [] self = Some ([], self)"
| "broadcast_loop C P rng_id payload topic (endpoint # endpoints) self =
     Option.bind (ipc_send_message C P (rng_id (length endpoints))
         \<lparr>out_payload = payload, out_destination = endpoint, out_topic = topic\<rparr> self) (\<lambda>(outcome, self).
     let result = \<lparr>esr_endpoint = endpoint, esr_result = outcome_result outcome\<rparr>
     in if outcome_fatal outcome then Some ([result], self)
        else Option.bind (broadcast_loop C P rng_id payload topic endpoints self) (\<lambda>(results, self).
             Some (result # results, self)))"

definition ipc_broadcast ::
  "header_codec \<Rightarrow> 'c provider \<Rightarrow> (nat \<Rightarrow> u64) \<Rightarrow> broadcast_group \<Rightarrow> bytes \<Rightarrow> string option \<Rightarrow> 'c ipc_client
   \<Rightarrow> ((endpoint_send_result list, broadcast_error) result \<times> 'c ipc_client) option" where
  "ipc_broadcast C P rng_id grp payload topic self =
     (case provider_resolve P grp (ipc_backend self) of
        Delegate _ \<Rightarrow> Some (Err DelegationUnsupported, self)
      | UnsupportedResolution \<Rightarrow> Some (Err UnsupportedGroup, self)
      | Endpoints endpoints \<Rightarrow>
          (case find (\<lambda>endpoint. \<not> group_contains grp endpoint) endpoints of
             Some endpoint \<Rightarrow> Some (Err (OutOfScope endpoint), self)
           | None \<Rightarrow>
               map_option (\<lambda>(results, self). (Ok results, self))
                 (broadcast_loop C P rng_id payload topic endpoints self)))"


section \<open>Specification vocabulary\<close>

text \<open>What sending a list of messages one after the other does, up to the first failure.\<close>

fun send_in_order :: "'c provider \<Rightarrow> outgoing_message list \<Rightarrow> 'c ipc_client \<Rightarrow> send_outcome \<times> 'c ipc_client" where
  "send_in_order P [] self = (\<lparr>outcome_result = Ok (), outcome_fatal = False\<rparr>, self)"
| "send_in_order P (m # ms) self =
     (let (outcome, self') = send_fragment P m self
      in if is_ok (outcome_result outcome) then send_in_order P ms self' else (outcome, self'))"

text \<open>A provider that delivers everything, and a backend that counts what it was given.\<close>

definition counting_provider :: "nat \<Rightarrow> nat provider" where
  "counting_provider limit =
     \<lparr>max_payload_len = limit, provider_send = (\<lambda>_ n. (Ok (), n + 1)),
      provider_resolve = (\<lambda>_ _. Endpoints [BrowserForeground 1, BrowserForeground 2]),
      split_error_text = (\<lambda>_. ''split'')\<rparr>"

text \<open>A provider that can no longer make progress.\<close>

definition failing_provider :: "nat provider" where
  "failing_provider = (counting_provider 200)\<lparr>provider_send := (\<lambda>_ n. (Err \<lparr>error_kind = Fatal, error_text = ''sessions''\<rparr>, n))\<rparr>"



section \<open>Sending\<close>

text \<open>The loop over the iterator sends what the iterator yields.\<close>

lemma send_fragments_collect:
  assumes "fragments_collect C frags = Some ms"
  shows "send_fragments C P frags self = Some (send_in_order P ms self)"
  using assms
proof (induction ms arbitrary: frags self)
  case Nil
  then show ?case
    by (subst send_fragments.simps, subst (asm) fragments_collect.simps)
       (auto split: prod.splits option.splits Option.bind_splits)
next
  case (Cons m ms)
  obtain frags' where next_frag: "fragments_next C frags = (Some m, frags')" "fragments_collect C frags' = Some ms"
    using Cons.prems by (subst (asm) fragments_collect.simps) (auto split: prod.splits option.splits Option.bind_splits)
  show ?case
    by (subst send_fragments.simps) (simp add: next_frag(1) Cons.IH [OF next_frag(2)] split: prod.splits)
qed

lemma send_fragment_sent: "ipc_sent (snd (send_fragment P m self)) = ipc_sent self @ [m]"
  by (simp add: send_fragment_def Let_def stop_inner_def split: prod.splits result.splits option.splits)

text \<open>A prefix is sent: all of it if the result is \<open>Ok\<close>.\<close>

lemma send_in_order_sent:
  "\<exists>n \<le> length ms. ipc_sent (snd (send_in_order P ms self)) = ipc_sent self @ take n ms
     \<and> (is_ok (outcome_result (fst (send_in_order P ms self))) \<longrightarrow> n = length ms)"
proof (induction ms arbitrary: self)
  case (Cons m ms)
  obtain outcome self' where s: "send_fragment P m self = (outcome, self')" by fastforce
  then have sent: "ipc_sent self' = ipc_sent self @ [m]" using send_fragment_sent [of P m self] by simp
  show ?case
  proof (cases "is_ok (outcome_result outcome)")
    case True
    obtain n where "n \<le> length ms" "ipc_sent (snd (send_in_order P ms self')) = ipc_sent self' @ take n ms"
      "is_ok (outcome_result (fst (send_in_order P ms self'))) \<longrightarrow> n = length ms"
      using Cons.IH by blast
    then show ?thesis using s sent True by (intro exI [of _ "Suc n"]) simp
  next
    case False
    then show ?thesis using s sent by (intro exI [of _ 1]) simp
  qed
qed simp

lemma send_message_returns:
  obtains outcome self' new where "ipc_send_message C P rng_id message self = Some (outcome, self')"
    "ipc_sent self' = ipc_sent self @ new" "\<forall>x \<in> set new. out_destination x = out_destination message"
proof (cases "fragments_split rng_id message (max_payload_len P)")
  case (Ok frags)
  obtain ms where ms: "fragments_collect C frags = Some ms" "\<forall>x \<in> set ms. out_destination x = out_destination message"
    using split_collects [OF Ok] .
  obtain n where n: "ipc_sent (snd (send_in_order P ms self)) = ipc_sent self @ take n ms"
    using send_in_order_sent by metis
  have "\<forall>x \<in> set (take n ms). out_destination x = out_destination message" using ms(2) by (meson in_set_takeD)
  then show thesis using that [of "fst (send_in_order P ms self)" "snd (send_in_order P ms self)" "take n ms"] n
    by (simp add: ipc_send_message_def Ok send_fragments_collect [OF ms(1)])
next
  case (Err e)
  then show thesis using that by (simp add: ipc_send_message_def)
qed

lemma send_in_order_fatal:
  "outcome_fatal (fst (send_in_order P ms self)) \<Longrightarrow>
   \<not> is_ok (outcome_result (fst (send_in_order P ms self))) \<and> ipc_token (snd (send_in_order P ms self)) = None"
proof (induction ms arbitrary: self)
  case (Cons m ms)
  obtain outcome self' where s: "send_fragment P m self = (outcome, self')" by fastforce
  then have "outcome_fatal outcome \<Longrightarrow> \<not> is_ok (outcome_result outcome) \<and> ipc_token self' = None"
    by (auto simp: send_fragment_def Let_def stop_inner_def split: prod.splits result.splits if_splits option.splits)
  then show ?case using Cons s by (auto split: if_splits)
qed simp

lemma send_message_fatal:
  assumes "ipc_send_message C P rng_id message self = Some (outcome, self')" "outcome_fatal outcome"
  shows "\<not> is_ok (outcome_result outcome) \<and> ipc_token self' = None"
proof (cases "fragments_split rng_id message (max_payload_len P)")
  case (Ok frags)
  obtain ms where ms: "fragments_collect C frags = Some ms" using split_collects [OF Ok] .
  then show ?thesis using assms send_in_order_fatal [of P ms self]
    by (simp add: ipc_send_message_def Ok send_fragments_collect [OF ms])
qed (use assms in \<open>auto simp: ipc_send_message_def\<close>)

lemma broadcast_loop_outcome:
  "\<exists>results self' new rest. broadcast_loop C P rng_id payload topic es self = Some (results, self')
     \<and> ipc_sent self' = ipc_sent self @ new \<and> out_destination ` set new \<subseteq> esr_endpoint ` set results
     \<and> es = map esr_endpoint results @ rest \<and> (rest \<noteq> [] \<longrightarrow> results \<noteq> [] \<and> ipc_token self' = None \<and> \<not> is_ok (esr_result (last results)))"
proof (induction es arbitrary: self)
  case (Cons e es)
  let ?m = "\<lparr>out_payload = payload, out_destination = e, out_topic = topic\<rparr>"
  obtain outcome self1 new1 where s: "ipc_send_message C P (rng_id (length es)) ?m self = Some (outcome, self1)"
    "ipc_sent self1 = ipc_sent self @ new1" "\<forall>x \<in> set new1. out_destination x = e"
    using send_message_returns [of C P "rng_id (length es)" ?m self] by auto
  let ?r = "\<lparr>esr_endpoint = e, esr_result = outcome_result outcome\<rparr>"
  show ?case
  proof (cases "outcome_fatal outcome")
    case True
    then show ?thesis using s send_message_fatal [OF s(1) True]
      by (intro exI [of _ "[?r]"] exI [of _ self1] exI [of _ new1] exI [of _ es]) (simp add: image_subset_iff)
  next
    case False
    obtain results self2 new2 rest where IH: "broadcast_loop C P rng_id payload topic es self1 = Some (results, self2)"
      "ipc_sent self2 = ipc_sent self1 @ new2" "out_destination ` set new2 \<subseteq> esr_endpoint ` set results"
      "es = map esr_endpoint results @ rest" "rest \<noteq> [] \<longrightarrow> results \<noteq> [] \<and> ipc_token self2 = None \<and> \<not> is_ok (esr_result (last results))"
      using Cons.IH by blast
    then show ?thesis using s False
      by (intro exI [of _ "?r # results"] exI [of _ self2] exI [of _ "new1 @ new2"] exI [of _ rest])
         (simp add: image_subset_iff ball_Un)
  qed
qed simp


section \<open>Receiving\<close>

text \<open>What the loop dispatches is what the reassembler yields.\<close>

lemma loop_receive_run:
  "ipc_published (fold (\<lambda>(m, now). loop_receive C now loop (Ok m)) evs self) = ipc_published self
     @ filter (\<lambda>m. in_topic m \<noteq> Some RPC_REQUEST_PAYLOAD_TYPE_NAME) (List.map_filter (\<lambda>x. x) (run C evs (ipc_reassembler self)))"
proof (induction evs arbitrary: self)
  case (Cons ev evs)
  obtain m now where ev: "ev = (m, now)" by (cases ev)
  obtain out r where p: "process C now m (ipc_reassembler self) = (out, r)" by fastforce
  show ?case
    using Cons.IH [of "loop_receive C now loop (Ok m) self"]
    by (cases out) (simp_all add: ev p loop_receive_def map_filter_simps)
qed (simp add: map_filter_simps)

lemma results_for_in_run: "x \<in> set (results_for C k evs r) \<Longrightarrow> x \<in> set (run C evs r)"
  by (auto simp: results_for_def dest: set_zip_rightD)


section \<open>Properties\<close>





text \<open>C31: A client that is restarted before its stopped loop has ended is stopped again.  After a fatal
  error while sending, the client is not running and \<open>start\<close> succeeds, but when the old loop then
  sees its cancelled token, it ends by stopping the client, which cancels the token of the new loop.\<close>

theorem restart_is_cancelled_by_old_loop:
  assumes "ipc_token self = Some old" "old \<in> set (ipc_loops self)" "new \<noteq> old"
    and "provider_send P message (ipc_backend self) = (Err e, backend)" "error_kind e = Fatal"
    and "c1 = snd (send_fragment P message self)" "c2 = snd (ipc_start new c1)" "c3 = end_loop old c2"
  shows "\<not> ipc_is_running c1 \<and> old \<in> set (ipc_cancelled c1) \<and> fst (ipc_start new c1) = Ok () \<and> ipc_is_running c2
     \<and> \<not> ipc_is_running c3 \<and> new \<in> set (ipc_cancelled c3)"
  using assms by (simp add: send_fragment_def stop_inner_def ipc_is_running_def ipc_start_def end_loop_def)

theorem restart_is_cancelled_by_old_loop_witness:
  "let c0 = snd (ipc_start 1 (ipc_client_new 0)); c1 = snd (send_fragment failing_provider message_example c0);
       c2 = snd (ipc_start 2 c1); c3 = end_loop 1 c2
   in ipc_is_running c0 \<and> ipc_is_running c2 \<and> \<not> ipc_is_running c3"
proof -
  let ?c0 = "snd (ipc_start 1 (ipc_client_new (0 :: nat)))"
  have "ipc_token ?c0 = Some 1" "1 \<in> set (ipc_loops ?c0)" "ipc_is_running ?c0"
    by (simp_all add: ipc_start_def ipc_client_new_def ipc_is_running_def)
  moreover have "provider_send failing_provider message_example (ipc_backend ?c0)
      = (Err \<lparr>error_kind = Fatal, error_text = ''sessions''\<rparr>, ipc_backend ?c0)"
    by (simp add: failing_provider_def)
  ultimately show ?thesis
    using restart_is_cancelled_by_old_loop [of ?c0 1 2 failing_provider message_example _ _ _ _ _, OF _ _ _ _ _ refl refl refl]
    by (simp add: Let_def)
qed

text \<open>C3: A message reaches the subscribers of its receiver.  If a client sends a message that has to be
  split and reports success, if the receiver admits its first fragment, and if the fragments that the
  provider was given arrive in order and in time among any other traffic, then the loop of the
  receiver publishes the original message, with the source it came from.\<close>

theorem message_reaches_subscribers:
  assumes C: "header_codec_ok C"
    and sent: "ipc_send_message C P rng_id message sender = Some (outcome, sender')" "is_ok (outcome_result outcome)"
      "max_payload_len P < length (out_payload message)" "ipc_sent sender' = ipc_sent sender @ first # rest"
    and topic: "out_topic message \<noteq> Some RPC_REQUEST_PAYLOAD_TYPE_NAME"
    and r: "(reassembler_step C)\<^sup>*\<^sup>* (reassembler_new timeout idle) (ipc_reassembler receiver)"
    and start: "unexpired now (abs_map (ipc_reassembler receiver)) (s, rng_id) = None"
      "spec_admit (unexpired now (abs_map (ipc_reassembler receiver))) s (length (out_payload message)) = Ok ()"
    and order: "map fst (filter (\<lambda>(x, _). frag_key C x = Some (s, rng_id)) evs) = map (arriving s) rest"
    and time: "in_time C (s, rng_id) idle (now + timeout) (min (now + timeout) (now + idle)) (length rest) evs"
  shows "\<lparr>in_payload = out_payload message, in_destination = out_destination message, in_source = s, in_topic = out_topic message\<rparr>
     \<in> set (ipc_published (fold (\<lambda>(m, now). loop_receive C now loop (Ok m)) ((arriving s first, now) # evs) receiver))"
proof -
  obtain frs where frs: "fragments_split rng_id message (max_payload_len P) = Ok frs"
    using sent(1,2) by (cases "fragments_split rng_id message (max_payload_len P)") (auto simp: ipc_send_message_def)
  obtain ms where ms: "fragments_collect C frs = Some ms" using split_collects [OF frs] .
  have send: "(outcome, sender') = send_in_order P ms sender"
    using sent(1) by (simp add: ipc_send_message_def frs send_fragments_collect [OF ms])
  have "ms = first # rest"
    using send_in_order_sent [of ms P sender] sent(2,4) by (auto simp flip: send)
  note results = delivery_of_fragments [OF C r frs _ sent(3) start order time, of first] 
  let ?m = "\<lparr>in_payload = out_payload message, in_destination = out_destination message, in_source = s, in_topic = out_topic message\<rparr>"
  have "Some ?m \<in> set (results_for C (s, rng_id) ((arriving s first, now) # evs) (ipc_reassembler receiver))"
    using results ms \<open>ms = first # rest\<close> by simp
  then have "?m \<in> set (List.map_filter (\<lambda>x. x) (run C ((arriving s first, now) # evs) (ipc_reassembler receiver)))"
    using results_for_in_run by (force simp: map_filter_def image_iff)
  then show ?thesis using topic unfolding loop_receive_run by simp
qed

theorem message_reaches_subscribers_witness:
  "\<lparr>in_payload = replicate 210 7, in_destination = DesktopMain, in_source = DesktopRendererSource, in_topic = Some ''greet''\<rparr>
     \<in> set (ipc_published (fold (\<lambda>(m, now). loop_receive codec_ref now 1 (Ok m))
         ((arriving DesktopRendererSource (fragments_example ! 0), 10) # arrivals_example)
         ((ipc_client_new ())\<lparr>ipc_reassembler := reassembler_new 60000 10000\<rparr>)))"
proof -
  let ?P = "counting_provider 200" and ?r = "(ipc_client_new ())\<lparr>ipc_reassembler := reassembler_new 60000 10000\<rparr>"
  let ?ms = "[fragments_example ! 0, fragments_example ! 1, fragments_example ! 2]"
  note facts = arrivals_example_facts
  have P: "max_payload_len ?P = 200" by (simp add: counting_provider_def)
  obtain outcome sender' where send: "send_in_order ?P ?ms (ipc_client_new 0) = (outcome, sender')" by fastforce
  have "is_ok (outcome_result outcome)" "ipc_sent sender' = ipc_sent (ipc_client_new 0) @ ?ms"
    using send by (auto simp: send_fragment_def counting_provider_def ipc_client_new_def)
  moreover have "ipc_send_message codec_ref ?P 9 message_example (ipc_client_new 0) = Some (outcome, sender')"
    unfolding ipc_send_message_def P split_example_sent result.case send_fragments_collect [OF facts(1)] send ..
  moreover have "(reassembler_step codec_ref)\<^sup>*\<^sup>* (reassembler_new 60000 10000) (ipc_reassembler ?r)" by simp
  moreover have "max_payload_len ?P < length (out_payload message_example)" using facts(2) by (simp add: P)
  moreover have "out_topic message_example \<noteq> Some RPC_REQUEST_PAYLOAD_TYPE_NAME"
    by (simp add: message_example_def RPC_REQUEST_PAYLOAD_TYPE_NAME_def)
  ultimately show ?thesis
    using message_reaches_subscribers [OF codec_ref_ok, of ?P 9 message_example "ipc_client_new 0" outcome sender'
        "fragments_example ! 0" "[fragments_example ! 1, fragments_example ! 2]" 60000 10000 ?r 10 DesktopRendererSource arrivals_example 1]
      facts(3-6) by (simp add: message_example_def)
qed

end
