(* ===== verification/Shared_Unlock.thy ===== *)
theory Shared_Unlock
  imports Ipc Symmetric_Key
begin

text \<open>
  The shared unlock protocol (\<open>crates/bitwarden-shared-unlock/src\<close>): peers tell each other the lock
  state of each user with the date at which it was entered, and the freshest state wins.  The
  driver of a device is implemented per platform and is a parameter: a record of functions over
  the state \<open>'d\<close> of the platform.  A handler runs from its start to its end as a function on the
  peer; what single accesses to the recorded states guarantee when handlers interleave at their
  \<open>await\<close> points is shown separately.  Clocks are arguments: \<open>now\<close> is an \<open>Instant\<close> and
  \<open>now_millis\<close> the system time.  The messages a peer hands to the IPC client are logged in the
  order in which they are sent; the outcome of sending has no effect on the peer.  Log output is
  not part of the model.
\<close>

section \<open>Lock states\<close>

type_synonym user_id = "128 word"

datatype lock_state = Locked | Unlocked symmetric_crypto_key

datatype peer_lock_state = PeerLocked | PeerUnlocked

primrec peer_state :: "lock_state \<Rightarrow> peer_lock_state" where
  "peer_state Locked = PeerLocked"
| "peer_state (Unlocked user_key) = PeerUnlocked"

primrec is_locked :: "lock_state \<Rightarrow> bool" where
  "is_locked Locked = True"
| "is_locked (Unlocked user_key) = False"

text \<open>The derived equality, which compares keys with the equality of \<open>SymmetricCryptoKey\<close>.\<close>

fun lock_state_eq :: "lock_state \<Rightarrow> lock_state \<Rightarrow> bool" where
  "lock_state_eq Locked Locked = True"
| "lock_state_eq (Unlocked a) (Unlocked b) = symmetric_key_ct_eq a b"
| "lock_state_eq _ _ = False"

record timestamped_lock_state =
  tls_lock_state :: lock_state
  changed_at :: u64

definition default_lock_state :: timestamped_lock_state where
  "default_lock_state = \<lparr>tls_lock_state = Locked, changed_at = 0\<rparr>"

definition supersedes :: "timestamped_lock_state \<Rightarrow> timestamped_lock_state option \<Rightarrow> bool" where
  "supersedes self recorded =
     (let recorded_at = (case recorded of Some r \<Rightarrow> changed_at r | None \<Rightarrow> 0)
      in if changed_at self > recorded_at then True
         else if changed_at self < recorded_at then False
         else is_locked (tls_lock_state self)
           \<and> (case recorded of Some r \<Rightarrow> \<not> is_locked (tls_lock_state r) | None \<Rightarrow> False))"

record shared_unlock_sync =
  sync_user_id :: user_id
  sync_state :: timestamped_lock_state

datatype device_event = ManualLock user_id | ManualUnlock user_id symmetric_crypto_key

datatype shared_unlock_client = BrowserClient | CliClient | DesktopClient | WebClient

primrec of_endpoint :: "endpoint \<Rightarrow> shared_unlock_client" where
  "of_endpoint (Web tab_id document_id) = WebClient"
| "of_endpoint (BrowserForeground n) = BrowserClient"
| "of_endpoint (BrowserBackground host) = BrowserClient"
| "of_endpoint (Cli host) = CliClient"
| "of_endpoint DesktopRenderer = DesktopClient"
| "of_endpoint DesktopMain = DesktopClient"


section \<open>Timing and drivers\<close>

record shared_unlock_timing =
  sync_interval :: nat
  vault_timeout_grace_period :: nat
  peer_stale_after :: nat

definition default_timing :: shared_unlock_timing where
  "default_timing = \<lparr>sync_interval = 5000, vault_timeout_grace_period = 2000, peer_stale_after = 30000\<rparr>"

record 'd shared_unlock_driver =
  lock_user :: "user_id \<Rightarrow> 'd \<Rightarrow> (unit, unit) result \<times> 'd"
  unlock_user :: "user_id \<Rightarrow> symmetric_crypto_key \<Rightarrow> 'd \<Rightarrow> (unit, unit) result \<times> 'd"
  list_users :: "'d \<Rightarrow> user_id list"
  get_vault_url :: "user_id \<Rightarrow> 'd \<Rightarrow> string option"
  suppress_vault_timeout :: "user_id \<Rightarrow> nat \<Rightarrow> 'd \<Rightarrow> 'd"
  on_peer_state :: "user_id \<Rightarrow> peer_lock_state \<Rightarrow> 'd \<Rightarrow> 'd"
  set_last_manual_lock :: "user_id \<Rightarrow> u64 \<Rightarrow> 'd \<Rightarrow> 'd"
  get_last_manual_lock :: "user_id \<Rightarrow> 'd \<Rightarrow> u64 option"
  discover_leader :: "'d \<Rightarrow> endpoint option"


section \<open>Active peers\<close>

record sync_target =
  target_endpoint :: endpoint
  target_origin :: "string option"

definition target_from_source :: "source \<Rightarrow> sync_target" where
  "target_from_source source =
     \<lparr>target_endpoint = to_endpoint source,
      target_origin = (case source of WebSource _ _ origin \<Rightarrow> Some origin | _ \<Rightarrow> None)\<rparr>"

definition target_without_origin :: "endpoint \<Rightarrow> sync_target" where
  "target_without_origin endpoint = \<lparr>target_endpoint = endpoint, target_origin = None\<rparr>"

record peer_record =
  last_seen :: nat
  record_origin :: "string option"

type_synonym active_peer_tracker = "(endpoint \<times> peer_record) list"

definition tracker_upsert :: "nat \<Rightarrow> sync_target \<Rightarrow> active_peer_tracker \<Rightarrow> bool \<times> active_peer_tracker" where
  "tracker_upsert now target peers =
     (map_of peers (target_endpoint target) = None,
      AList.update (target_endpoint target) \<lparr>last_seen = now, record_origin = target_origin target\<rparr> peers)"

definition tracker_targets :: "active_peer_tracker \<Rightarrow> sync_target list" where
  "tracker_targets peers = map (\<lambda>(endpoint, r). \<lparr>target_endpoint = endpoint, target_origin = record_origin r\<rparr>) peers"

definition prune_stale :: "nat \<Rightarrow> nat \<Rightarrow> active_peer_tracker \<Rightarrow> active_peer_tracker" where
  "prune_stale now stale_after peers = filter (\<lambda>(_, r). now - last_seen r \<le> stale_after) peers"


section \<open>The peer\<close>

record 'd peer =
  peer_driver :: 'd
  peer_states :: "user_id \<rightharpoonup> timestamped_lock_state"
  active_peers :: active_peer_tracker
  peer_timing :: shared_unlock_timing
  peer_destinations :: "user_id \<rightharpoonup> shared_unlock_client list"
  peer_sent :: "(shared_unlock_sync \<times> endpoint) list"

definition peer_create :: "'d \<Rightarrow> 'd peer" where
  "peer_create driver =
     \<lparr>peer_driver = driver, peer_states = Map.empty, active_peers = [], peer_timing = default_timing,
      peer_destinations = Map.empty, peer_sent = []\<rparr>"

definition set_destinations :: "user_id \<Rightarrow> shared_unlock_client list \<Rightarrow> 'd peer \<Rightarrow> 'd peer" where
  "set_destinations user_id destinations self =
     self\<lparr>peer_destinations := (peer_destinations self)(user_id \<mapsto> destinations)\<rparr>"

definition is_destination :: "user_id \<Rightarrow> endpoint \<Rightarrow> 'd peer \<Rightarrow> bool" where
  "is_destination user_id endpoint self =
     (case peer_destinations self user_id of
        Some clients \<Rightarrow> of_endpoint endpoint \<in> set clients
      | None \<Rightarrow> False)"

subsection \<open>Recorded states\<close>

text \<open>\<open>entry(user_id).or_insert(restored)\<close>\<close>

definition or_insert :: "'k \<Rightarrow> 'v \<Rightarrow> ('k \<rightharpoonup> 'v) \<Rightarrow> 'k \<rightharpoonup> 'v" where
  "or_insert k v m = (case m k of Some _ \<Rightarrow> m | None \<Rightarrow> m(k \<mapsto> v))"

definition restored_state :: "'d shared_unlock_driver \<Rightarrow> user_id \<Rightarrow> 'd peer \<Rightarrow> timestamped_lock_state option \<times> 'd peer" where
  "restored_state D user_id self =
     (case peer_states self user_id of
        Some recorded \<Rightarrow> (Some recorded, self)
      | None \<Rightarrow>
          (case get_last_manual_lock D user_id (peer_driver self) of
             None \<Rightarrow> (None, self)
           | Some at \<Rightarrow>
               (let states = or_insert user_id \<lparr>tls_lock_state = Locked, changed_at = at\<rparr> (peer_states self)
                in (states user_id, self\<lparr>peer_states := states\<rparr>))))"

definition advertised_state :: "'d shared_unlock_driver \<Rightarrow> user_id \<Rightarrow> 'd peer \<Rightarrow> timestamped_lock_state \<times> 'd peer" where
  "advertised_state D user_id self =
     (case restored_state D user_id self of
        (Some s, self) \<Rightarrow> (s, self)
      | (None, self) \<Rightarrow> (\<lparr>tls_lock_state = Locked, changed_at = 0\<rparr>, self))"

definition record_remote :: "user_id \<Rightarrow> timestamped_lock_state
   \<Rightarrow> (user_id \<rightharpoonup> timestamped_lock_state) \<Rightarrow> user_id \<rightharpoonup> timestamped_lock_state" where
  "record_remote user_id state states =
     (if supersedes state (states user_id) then states(user_id \<mapsto> state) else states)"

definition record_remote_state :: "user_id \<Rightarrow> timestamped_lock_state \<Rightarrow> 'd peer \<Rightarrow> 'd peer" where
  "record_remote_state user_id state self = self\<lparr>peer_states := record_remote user_id state (peer_states self)\<rparr>"

definition saturating_add :: "u64 \<Rightarrow> u64 \<Rightarrow> u64" where
  "saturating_add a b = (if unat a + unat b \<ge> 2 ^ 64 then -1 else a + b)"

definition local_date :: "u64 \<Rightarrow> timestamped_lock_state option \<Rightarrow> u64" where
  "local_date now_millis recorded =
     max (case recorded of Some r \<Rightarrow> saturating_add (changed_at r) 1 | None \<Rightarrow> 0) now_millis"

definition record_local_state :: "u64 \<Rightarrow> user_id \<Rightarrow> lock_state \<Rightarrow> 'd peer \<Rightarrow> u64 \<times> 'd peer" where
  "record_local_state now_millis user_id state self =
     (let at = local_date now_millis (peer_states self user_id)
      in (at, self\<lparr>peer_states := (peer_states self)(user_id \<mapsto> \<lparr>tls_lock_state = state, changed_at = at\<rparr>)\<rparr>))"

subsection \<open>Sending\<close>

definition sync_targets :: "'d shared_unlock_driver \<Rightarrow> 'd peer \<Rightarrow> sync_target list" where
  "sync_targets D self =
     (let targets = tracker_targets (active_peers self)
      in case discover_leader D (peer_driver self) of
           Some leader \<Rightarrow>
             (if leader \<notin> target_endpoint ` set targets then targets @ [target_without_origin leader] else targets)
         | None \<Rightarrow> targets)"

definition may_sync_user_to :: "'d shared_unlock_driver \<Rightarrow> user_id \<Rightarrow> sync_target \<Rightarrow> 'd peer \<Rightarrow> bool" where
  "may_sync_user_to D user_id target self =
     (if \<not> is_destination user_id (target_endpoint target) self then False
      else case target_endpoint target of
        Web _ _ \<Rightarrow>
          (case target_origin target of
             None \<Rightarrow> False
           | Some origin \<Rightarrow>
               (case get_vault_url D user_id (peer_driver self) of
                  Some user_vault_url \<Rightarrow> user_vault_url = origin
                | None \<Rightarrow> False))
      | _ \<Rightarrow> True)"

definition peer_send_message :: "shared_unlock_sync \<Rightarrow> endpoint \<Rightarrow> 'd peer \<Rightarrow> 'd peer" where
  "peer_send_message message recipient self = self\<lparr>peer_sent := peer_sent self @ [(message, recipient)]\<rparr>"

definition sync_user_to :: "'d shared_unlock_driver \<Rightarrow> user_id \<Rightarrow> sync_target \<Rightarrow> 'd peer \<Rightarrow> 'd peer" where
  "sync_user_to D user_id target self =
     (if \<not> may_sync_user_to D user_id target self then self
      else let (state, self) = advertised_state D user_id self
           in peer_send_message \<lparr>sync_user_id = user_id, sync_state = state\<rparr> (target_endpoint target) self)"

definition sync_user :: "'d shared_unlock_driver \<Rightarrow> user_id \<Rightarrow> 'd peer \<Rightarrow> 'd peer" where
  "sync_user D user_id self = fold (sync_user_to D user_id) (sync_targets D self) self"

definition sync_all_users :: "'d shared_unlock_driver \<Rightarrow> 'd peer \<Rightarrow> 'd peer" where
  "sync_all_users D self = fold (sync_user D) (list_users D (peer_driver self)) self"

definition sync_all_users_to :: "'d shared_unlock_driver \<Rightarrow> sync_target \<Rightarrow> 'd peer \<Rightarrow> 'd peer" where
  "sync_all_users_to D target self = fold (\<lambda>user_id. sync_user_to D user_id target) (list_users D (peer_driver self)) self"

definition relay_user_state :: "'d shared_unlock_driver \<Rightarrow> user_id \<Rightarrow> timestamped_lock_state \<Rightarrow> 'd peer \<Rightarrow> 'd peer" where
  "relay_user_state D user_id state self =
     fold (\<lambda>target self.
         if \<not> may_sync_user_to D user_id target self then self
         else peer_send_message \<lparr>sync_user_id = user_id, sync_state = state\<rparr> (target_endpoint target) self)
       (sync_targets D self) self"

subsection \<open>Handlers\<close>

abbreviation call_driver :: "('d \<Rightarrow> 'd) \<Rightarrow> 'd peer \<Rightarrow> 'd peer" where
  "call_driver f self \<equiv> self\<lparr>peer_driver := f (peer_driver self)\<rparr>"

definition apply_through_driver ::
  "'d shared_unlock_driver \<Rightarrow> user_id \<Rightarrow> lock_state \<Rightarrow> 'd peer \<Rightarrow> (unit, unit) result \<times> 'd peer" where
  "apply_through_driver D user_id state self =
     (let (r, d) = (case state of
             Locked \<Rightarrow> lock_user D user_id (peer_driver self)
           | Unlocked user_key \<Rightarrow> unlock_user D user_id user_key (peer_driver self))
      in (r, self\<lparr>peer_driver := d\<rparr>))"

definition apply_remote_state ::
  "'d shared_unlock_driver \<Rightarrow> user_id \<Rightarrow> timestamped_lock_state \<Rightarrow> 'd peer \<Rightarrow> (unit, unit) result \<times> 'd peer" where
  "apply_remote_state D user_id remote self =
     (let (restored, self) = restored_state D user_id self
      in if \<not> supersedes remote restored then (Ok (), self)
         else
         let self = (case tls_lock_state remote of
                Locked \<Rightarrow> call_driver (set_last_manual_lock D user_id (changed_at remote)) self
              | _ \<Rightarrow> self);
             (advertised, self) = advertised_state D user_id self;
             differs = (\<not> lock_state_eq (tls_lock_state remote) (tls_lock_state advertised));
             (r, self) = (if differs
                then apply_through_driver D user_id (tls_lock_state remote) (relay_user_state D user_id remote self)
                else (Ok (), self))
         in case r of
              Err e \<Rightarrow> (Err e, self)
            | Ok _ \<Rightarrow> (Ok (), record_remote_state user_id remote self))"

record 'p typed_incoming_message =
  typed_payload :: 'p
  typed_destination :: endpoint
  typed_source :: source

text \<open>The check of a web source against the vault URL of the user.\<close>

definition origin_valid :: "'d shared_unlock_driver \<Rightarrow> user_id \<Rightarrow> source \<Rightarrow> 'd peer \<Rightarrow> bool" where
  "origin_valid D user_id source self =
     (case source of
        WebSource _ _ origin \<Rightarrow>
          (case get_vault_url D user_id (peer_driver self) of
             Some user_vault_url \<Rightarrow> origin = user_vault_url
           | None \<Rightarrow> False)
      | _ \<Rightarrow> True)"

definition receive_message ::
  "'d shared_unlock_driver \<Rightarrow> nat \<Rightarrow> shared_unlock_sync typed_incoming_message \<Rightarrow> 'd peer
   \<Rightarrow> (unit, unit) result \<times> 'd peer" where
  "receive_message D now incoming_message self =
     (let source = typed_source incoming_message;
          user_id = sync_user_id (typed_payload incoming_message);
          state = sync_state (typed_payload incoming_message)
      in if \<not> is_destination user_id (to_endpoint source) self then (Ok (), self)
         else if \<not> origin_valid D user_id source self then (Ok (), self)
         else if user_id \<notin> set (list_users D (peer_driver self)) then (Ok (), self)
         else
         let target = target_from_source source;
             from_leader = (discover_leader D (peer_driver self) = Some (target_endpoint target));
             self = (if from_leader
               then call_driver (suppress_vault_timeout D user_id
                      (sync_interval (peer_timing self) + vault_timeout_grace_period (peer_timing self))) self
               else self);
             (first_contact, peers) = tracker_upsert now target (active_peers self);
             self = self\<lparr>active_peers := peers\<rparr>;
             reported = peer_state (tls_lock_state state)
         in case apply_remote_state D user_id state self of
              (Err e, self) \<Rightarrow> (Err e, self)
            | (Ok _, self) \<Rightarrow>
                (let self = call_driver (on_peer_state D user_id reported) self;
                     self = (if first_contact then sync_all_users_to D target self else self)
                 in (Ok (), self)))"

definition handle_device_event ::
  "'d shared_unlock_driver \<Rightarrow> u64 \<Rightarrow> device_event \<Rightarrow> 'd peer \<Rightarrow> (unit, unit) result \<times> 'd peer" where
  "handle_device_event D now_millis event self =
     (let (user_id, state) = (case event of
            ManualLock user_id \<Rightarrow> (user_id, Locked)
          | ManualUnlock user_id user_key \<Rightarrow> (user_id, Unlocked user_key));
          (at, self) = record_local_state now_millis user_id state self;
          self = (case event of
            ManualLock _ \<Rightarrow> call_driver (set_last_manual_lock D user_id at) self
          | _ \<Rightarrow> self)
      in (Ok (), sync_user D user_id self))"

text \<open>One turn of the timer loop.\<close>

definition timer_tick :: "'d shared_unlock_driver \<Rightarrow> nat \<Rightarrow> 'd peer \<Rightarrow> 'd peer" where
  "timer_tick D now self =
     sync_all_users D (self\<lparr>active_peers := prune_stale now (peer_stale_after (peer_timing self)) (active_peers self)\<rparr>)"

end
