(* ===== verification/Shared_Unlock_Laws.thy ===== *)
theory Shared_Unlock_Laws
  imports Shared_Unlock
begin

text \<open>
  What the shared unlock protocol guarantees.  The date and the lock state of a report are ordered
  by one number, its freshness; what a peer holds for a user (recorded, restored from the last
  persisted lock, or the default) is compared by it.  Shown are: what is recorded never becomes
  older, for every interleaving of the accesses to it; a peer ends with the freshest of the
  reports it accepts, in whatever order they come, so that two peers agree after one sync in each
  direction; a lock survives a reload; no page of another origin is ever told about a user.
\<close>

section \<open>Specification vocabulary\<close>

definition freshness :: "timestamped_lock_state \<Rightarrow> nat" where
  "freshness s = 2 * unat (changed_at s) + (if is_locked (tls_lock_state s) then 1 else 0)"

text \<open>What a peer holds for a user.\<close>

definition held_state :: "'d shared_unlock_driver \<Rightarrow> 'd peer \<Rightarrow> user_id \<Rightarrow> timestamped_lock_state" where
  "held_state D p u =
     (case peer_states p u of
        Some s \<Rightarrow> s
      | None \<Rightarrow>
          (case get_last_manual_lock D u (peer_driver p) of
             Some at \<Rightarrow> \<lparr>tls_lock_state = Locked, changed_at = at\<rparr>
           | None \<Rightarrow> default_lock_state))"

text \<open>The laws of a driver: the persisted date of a lock is kept until it is set again, and no call
  changes the accounts of the device or their vault URLs.\<close>

definition keeps_device :: "'d shared_unlock_driver \<Rightarrow> 'd \<Rightarrow> 'd \<Rightarrow> bool" where
  "keeps_device D d d' \<longleftrightarrow> list_users D d' = list_users D d \<and> (\<forall>u. get_vault_url D u d' = get_vault_url D u d)
     \<and> (\<forall>u. get_last_manual_lock D u d' = get_last_manual_lock D u d)"

definition driver_ok :: "'d shared_unlock_driver \<Rightarrow> bool" where
  "driver_ok D \<longleftrightarrow>
     (\<forall>u at d. get_last_manual_lock D u (set_last_manual_lock D u at d) = Some at)
     \<and> (\<forall>u u' at d. u' \<noteq> u \<longrightarrow> get_last_manual_lock D u' (set_last_manual_lock D u at d) = get_last_manual_lock D u' d)
     \<and> (\<forall>u at d. list_users D (set_last_manual_lock D u at d) = list_users D d)
     \<and> (\<forall>u u' at d. get_vault_url D u' (set_last_manual_lock D u at d) = get_vault_url D u' d)
     \<and> (\<forall>u d. keeps_device D d (snd (lock_user D u d)))
     \<and> (\<forall>u key d. keeps_device D d (snd (unlock_user D u key d)))
     \<and> (\<forall>u n d. keeps_device D d (suppress_vault_timeout D u n d))
     \<and> (\<forall>u s d. keeps_device D d (on_peer_state D u s d))"

text \<open>A driver may fail to lock or to unlock a user.\<close>

definition driver_fails :: "'d shared_unlock_driver \<Rightarrow> user_id \<Rightarrow> lock_state \<Rightarrow> bool" where
  "driver_fails D u l \<longleftrightarrow>
     (\<exists>d. \<not> is_ok (fst (case l of Locked \<Rightarrow> lock_user D u d | Unlocked key \<Rightarrow> unlock_user D u key d)))"

text \<open>The messages that a peer does not ignore.\<close>

definition admitted :: "'d shared_unlock_driver \<Rightarrow> 'd peer \<Rightarrow> shared_unlock_sync typed_incoming_message \<Rightarrow> bool" where
  "admitted D p m \<longleftrightarrow>
     is_destination (sync_user_id (typed_payload m)) (to_endpoint (typed_source m)) p
     \<and> origin_valid D (sync_user_id (typed_payload m)) (typed_source m) p
     \<and> sync_user_id (typed_payload m) \<in> set (list_users D (peer_driver p))"

text \<open>The messages of a list for a user, and a run of the receiver on messages with their arrival.\<close>

fun reports :: "user_id \<Rightarrow> (shared_unlock_sync typed_incoming_message \<times> nat) list \<Rightarrow> timestamped_lock_state set" where
  "reports u [] = {}"
| "reports u ((m, now) # evs) =
     (if sync_user_id (typed_payload m) = u then insert (sync_state (typed_payload m)) (reports u evs) else reports u evs)"

fun receive_all :: "'d shared_unlock_driver \<Rightarrow> (shared_unlock_sync typed_incoming_message \<times> nat) list \<Rightarrow> 'd peer \<Rightarrow> 'd peer" where
  "receive_all D [] p = p"
| "receive_all D ((m, now) # evs) p = receive_all D evs (snd (receive_message D now m p))"

text \<open>The reports for a user that are not ignored and are handled without an error.\<close>

fun accepted ::
  "'d shared_unlock_driver \<Rightarrow> user_id \<Rightarrow> (shared_unlock_sync typed_incoming_message \<times> nat) list \<Rightarrow> 'd peer
   \<Rightarrow> timestamped_lock_state set" where
  "accepted D u [] p = {}"
| "accepted D u ((m, now) # evs) p =
     (let (r, q) = receive_message D now m p
      in if admitted D p m \<and> is_ok r \<and> sync_user_id (typed_payload m) = u
         then insert (sync_state (typed_payload m)) (accepted D u evs q) else accepted D u evs q)"

text \<open>A process reload: the peer is created again, on the same device and for the same destinations.\<close>

definition reload :: "'d peer \<Rightarrow> 'd peer" where
  "reload p = (peer_create (peer_driver p))\<lparr>peer_destinations := peer_destinations p\<rparr>"

text \<open>The accesses to the recorded states, each made under the lock of the map.\<close>

inductive record_step :: "(user_id \<rightharpoonup> timestamped_lock_state) \<Rightarrow> (user_id \<rightharpoonup> timestamped_lock_state) \<Rightarrow> bool" where
  remote: "record_step st (record_remote u s st)"
| local_change: "record_step st (st(u \<mapsto> \<lparr>tls_lock_state = l, changed_at = local_date now (st u)\<rparr>))"
| restore: "record_step st (or_insert u s st)"

text \<open>The steps of a peer.  Messages come from sources whose origin is the one of their page.\<close>

inductive peer_step :: "'d shared_unlock_driver \<Rightarrow> (endpoint \<Rightarrow> string) \<Rightarrow> 'd peer \<Rightarrow> 'd peer \<Rightarrow> bool" for D origin_of where
  receive: "(case typed_source m of WebSource tab doc origin \<Rightarrow> origin = origin_of (Web tab doc) | _ \<Rightarrow> True) \<Longrightarrow>
    peer_step D origin_of p (snd (receive_message D now m p))"
| event: "peer_step D origin_of p (snd (handle_device_event D now_millis e p))"
| tick: "peer_step D origin_of p (timer_tick D now p)"
| announce: "peer_step D origin_of p (sync_all_users D p)"
| configure: "peer_step D origin_of p (set_destinations u cs p)"
| device: "peer_step D origin_of p (p\<lparr>peer_driver := d\<rparr>)"

text \<open>A peer that has told a page only about users whose vault has the origin of the page.\<close>

definition scoped :: "(user_id \<Rightarrow> string option) \<Rightarrow> (endpoint \<Rightarrow> string) \<Rightarrow> 'd peer \<Rightarrow> bool" where
  "scoped url origin_of p \<longleftrightarrow>
     (\<forall>(m, e) \<in> set (peer_sent p). of_endpoint e = WebClient \<longrightarrow> url (sync_user_id m) = Some (origin_of e))
     \<and> (\<forall>(e, r) \<in> set (active_peers p). of_endpoint e = WebClient \<longrightarrow> record_origin r \<in> {None, Some (origin_of e)})"

text \<open>A target that, if it is a page, carries no origin or its own.\<close>

definition target_scoped :: "(endpoint \<Rightarrow> string) \<Rightarrow> sync_target \<Rightarrow> bool" where
  "target_scoped og t \<longleftrightarrow> (of_endpoint (target_endpoint t) = WebClient \<longrightarrow> target_origin t \<in> {None, Some (og (target_endpoint t))})"

text \<open>Two peers that agree on everything but their log and what they have restored.\<close>

definition same_view :: "'d shared_unlock_driver \<Rightarrow> 'd peer \<Rightarrow> 'd peer \<Rightarrow> bool" where
  "same_view D p q \<longleftrightarrow> peer_driver p = peer_driver q \<and> active_peers p = active_peers q \<and> peer_timing p = peer_timing q
     \<and> peer_destinations p = peer_destinations q \<and> held_state D p = held_state D q"

text \<open>Once it has been asked for, a state is recorded if there is anything to record.\<close>

definition settled :: "'d shared_unlock_driver \<Rightarrow> 'd peer \<Rightarrow> user_id \<Rightarrow> bool" where
  "settled D p u \<longleftrightarrow> peer_states p u = None \<longrightarrow> get_last_manual_lock D u (peer_driver p) = None"

text \<open>The part of a peer that decides which messages are admitted.\<close>

definition same_accounts :: "'d shared_unlock_driver \<Rightarrow> 'd peer \<Rightarrow> 'd peer \<Rightarrow> bool" where
  "same_accounts D p q \<longleftrightarrow> peer_destinations p = peer_destinations q
     \<and> list_users D (peer_driver p) = list_users D (peer_driver q)
     \<and> (\<forall>u. get_vault_url D u (peer_driver p) = get_vault_url D u (peer_driver q))"

text \<open>The calls of a driver that persist nothing.\<close>

definition quiet_call :: "'d shared_unlock_driver \<Rightarrow> 'd peer \<Rightarrow> 'd peer \<Rightarrow> bool" where
  "quiet_call D p q \<longleftrightarrow> (\<exists>d. q = p\<lparr>peer_driver := d\<rparr> \<and> keeps_device D (peer_driver p) d)"

text \<open>The recorded state of a user after the first one, up to the last representable date.\<close>

definition not_older :: "timestamped_lock_state \<Rightarrow> timestamped_lock_state \<Rightarrow> bool" where
  "not_older r s \<longleftrightarrow> changed_at r \<le> changed_at s
     \<and> (changed_at r = changed_at s \<and> changed_at r \<noteq> - 1 \<and> is_locked (tls_lock_state r) \<longrightarrow> is_locked (tls_lock_state s))"

text \<open>A report that is applied is held if it is fresher; one that the driver refuses changes nothing.\<close>

definition report_effect ::
  "'d shared_unlock_driver \<Rightarrow> user_id \<Rightarrow> timestamped_lock_state \<Rightarrow> 'd peer \<Rightarrow> (unit, unit) result \<times> 'd peer \<Rightarrow> bool" where
  "report_effect D u s p y \<longleftrightarrow> same_accounts D (snd y) p
     \<and> (if is_ok (fst y)
        then held_state D (snd y) = (held_state D p)(u := if freshness (held_state D p u) < freshness s then s else held_state D p u)
        else held_state D (snd y) = held_state D p \<and> driver_fails D u (tls_lock_state s))"

text \<open>A report on its way through the driver, up to the point at which it is recorded.\<close>

definition driven :: "'d shared_unlock_driver \<Rightarrow> user_id \<Rightarrow> timestamped_lock_state \<Rightarrow> 'd peer \<Rightarrow> (unit, unit) result \<times> 'd peer" where
  "driven D u s p =
     (let p = snd (restored_state D u p);
          p = (case tls_lock_state s of
                 Locked \<Rightarrow> call_driver (set_last_manual_lock D u (changed_at s)) p | _ \<Rightarrow> p);
          (y, p) = advertised_state D u p
      in if \<not> lock_state_eq (tls_lock_state s) (tls_lock_state y)
         then apply_through_driver D u (tls_lock_state s) (relay_user_state D u s p)
         else (Ok (), p))"

text \<open>The two halves of a reception, before and after the report is applied.\<close>

definition arrival :: "'d shared_unlock_driver \<Rightarrow> nat \<Rightarrow> shared_unlock_sync typed_incoming_message \<Rightarrow> 'd peer \<Rightarrow> bool \<times> 'd peer" where
  "arrival D now m p =
     (let t = target_from_source (typed_source m);
          p = (if discover_leader D (peer_driver p) = Some (target_endpoint t)
            then call_driver (suppress_vault_timeout D (sync_user_id (typed_payload m))
                   (sync_interval (peer_timing p) + vault_timeout_grace_period (peer_timing p))) p
            else p);
          (first, peers) = tracker_upsert now t (active_peers p)
      in (first, p\<lparr>active_peers := peers\<rparr>))"

definition afterwards :: "'d shared_unlock_driver \<Rightarrow> shared_unlock_sync typed_incoming_message \<Rightarrow> bool \<Rightarrow> 'd peer \<Rightarrow> 'd peer" where
  "afterwards D m first p =
     (let p = call_driver (on_peer_state D (sync_user_id (typed_payload m)) (peer_state (tls_lock_state (sync_state (typed_payload m))))) p
      in if first then sync_all_users_to D (target_from_source (typed_source m)) p else p)"

text \<open>A concrete device: its accounts, their vault URL, the persisted locks and the unlocked users.\<close>

record device =
  dev_users :: "user_id list"
  dev_url :: string
  dev_locks :: "(user_id \<times> u64) list"
  dev_leader :: "endpoint option"
  dev_unlocked :: "user_id list"

definition device_driver :: "device shared_unlock_driver" where
  "device_driver =
     \<lparr>lock_user = (\<lambda>u d. (Ok (), d\<lparr>dev_unlocked := removeAll u (dev_unlocked d)\<rparr>)),
      unlock_user = (\<lambda>u _ d. (Ok (), d\<lparr>dev_unlocked := u # dev_unlocked d\<rparr>)),
      list_users = dev_users,
      get_vault_url = (\<lambda>u d. if u \<in> set (dev_users d) then Some (dev_url d) else None),
      suppress_vault_timeout = (\<lambda>_ _ d. d),
      on_peer_state = (\<lambda>_ _ d. d),
      set_last_manual_lock = (\<lambda>u at d. d\<lparr>dev_locks := (u, at) # dev_locks d\<rparr>),
      get_last_manual_lock = (\<lambda>u d. map_of (dev_locks d) u),
      discover_leader = dev_leader\<rparr>"

text \<open>A peer on such a device that shares its user with every client.\<close>

definition device_peer :: "endpoint option \<Rightarrow> device peer" where
  "device_peer leader = set_destinations 7 [BrowserClient, CliClient, DesktopClient, WebClient]
     (peer_create \<lparr>dev_users = [7], dev_url = ''https://vault'', dev_locks = [], dev_leader = leader, dev_unlocked = []\<rparr>)"

text \<open>The same device with accounts whose vaults are at two origins, and pages of these origins.\<close>

definition page_url :: "user_id \<Rightarrow> string option" where
  "page_url u = Some (if u = 7 then ''https://vault'' else ''https://other'')"

definition page_driver :: "device shared_unlock_driver" where
  "page_driver = device_driver\<lparr>get_vault_url := \<lambda>u _. page_url u\<rparr>"

definition page_origin :: "endpoint \<Rightarrow> string" where
  "page_origin e = (if e = Web 1 ''doc'' then ''https://vault'' else ''https://other'')"

definition page_device :: device where
  "page_device = \<lparr>dev_users = [7], dev_url = ''https://vault'', dev_locks = [], dev_leader = None, dev_unlocked = []\<rparr>"

definition lock_report :: "source \<Rightarrow> timestamped_lock_state \<Rightarrow> shared_unlock_sync typed_incoming_message" where
  "lock_report s state = \<lparr>typed_payload = \<lparr>sync_user_id = 7, sync_state = state\<rparr>,
     typed_destination = DesktopMain, typed_source = s\<rparr>"

definition lock_example :: "u64 \<Rightarrow> timestamped_lock_state" where
  "lock_example at = \<lparr>tls_lock_state = Locked, changed_at = at\<rparr>"

definition unlock_example :: "u64 \<Rightarrow> timestamped_lock_state" where
  "unlock_example at = \<lparr>tls_lock_state = Unlocked (Aes256CbcKey (replicate 32 3)), changed_at = at\<rparr>"


section \<open>Freshness\<close>

lemma unat_inj: "unat a = unat b \<longleftrightarrow> a = b" for a b :: u64
  by (metis of_nat_unat ucast_id)

lemma supersedes_freshness:
  "supersedes s (Some r) \<longleftrightarrow> freshness r < freshness s"
  "supersedes s None \<longleftrightarrow> freshness default_lock_state < freshness s"
proof -
  have less: "2 * b + (if y then 1 else 0) < 2 * a + (if x then 1 else 0)
      \<longleftrightarrow> (if a > b then True else if a < b then False else x \<and> \<not> y)" for a b :: nat and x y
    by (cases x; cases y; auto)
  show some: "supersedes s (Some r) \<longleftrightarrow> freshness r < freshness s" for r
    unfolding freshness_def less supersedes_def Let_def option.case word_less_nat_alt ..
  show "supersedes s None \<longleftrightarrow> freshness default_lock_state < freshness s"
    unfolding some [symmetric] by (simp add: supersedes_def default_lock_state_def)
qed

lemma freshness_eq:
  "freshness s = freshness r \<longleftrightarrow> changed_at s = changed_at r \<and> is_locked (tls_lock_state s) = is_locked (tls_lock_state r)"
proof -
  have "2 * a + (if x then 1 else 0) = 2 * b + (if y then 1 else 0) \<longleftrightarrow> a = b \<and> x = y" for a b :: nat and x y
    by (cases x; cases y; presburger)
  then show ?thesis by (simp only: freshness_def unat_inj)
qed

lemma saturating_add_later: "a \<noteq> - 1 \<Longrightarrow> a < saturating_add a 1"
  using word_order.extremum [of a] by (auto simp: saturating_add_def word_less_nat_alt unat_word_ariths le_less)

lemma local_date_later:
  "changed_at r \<le> local_date now (Some r)"
  "changed_at r \<noteq> - 1 \<Longrightarrow> changed_at r < local_date now (Some r)"
proof -
  have "saturating_add (- 1) 1 = (- 1 :: u64)"
    by (simp add: saturating_add_def unsigned_minus_1_eq_mask mask_eq_exp_minus_1)
  then show "changed_at r \<le> local_date now (Some r)"
    "changed_at r \<noteq> - 1 \<Longrightarrow> changed_at r < local_date now (Some r)"
    using saturating_add_later [of "changed_at r"]
    by (cases "changed_at r = - 1"; force simp: local_date_def less_max_iff_disj le_max_iff_disj)+
qed

lemma not_older_trans:
  assumes "not_older a b" "not_older b c"
  shows "not_older a c"
  unfolding not_older_def
proof (intro conjI impI)
  have le: "changed_at a \<le> changed_at b" "changed_at b \<le> changed_at c" using assms unfolding not_older_def by blast+
  from order_trans [OF le] show "changed_at a \<le> changed_at c" .
  assume tie: "changed_at a = changed_at c \<and> changed_at a \<noteq> - 1 \<and> is_locked (tls_lock_state a)"
  with le have same: "changed_at a = changed_at b" by (metis order_antisym)
  then have "is_locked (tls_lock_state b)" using tie assms(1) unfolding not_older_def by blast
  then show "is_locked (tls_lock_state c)" using tie same assms(2) unfolding not_older_def by metis
qed

lemma not_older_refl [simp]: "not_older r r"
  by (simp add: not_older_def)

lemma supersedes_not_older: "supersedes s (Some r) \<Longrightarrow> not_older r s"
  by (cases "changed_at r" "changed_at s" rule: linorder_cases)
     (simp_all add: supersedes_def not_older_def Let_def less_imp_le order_less_not_sym less_imp_neq)

lemma record_step_not_older:
  assumes "record_step st st'" "st u = Some r"
  shows "\<exists>s. st' u = Some s \<and> not_older r s"
  using assms(1)
proof (cases rule: record_step.cases)
  case (remote v s)
  then show ?thesis using assms(2) supersedes_not_older [of s r] by (cases "v = u") (auto simp: record_remote_def)
next
  case (local_change v l now)
  have "not_older r \<lparr>tls_lock_state = l, changed_at = local_date now (Some r)\<rparr>"
    using local_date_later [of r now] by (cases "changed_at r = - 1") (auto simp: not_older_def)
  then show ?thesis using local_change assms(2) by (cases "v = u") auto
next
  case (restore v s)
  then show ?thesis using assms(2) by (cases "st v") (auto simp: or_insert_def)
qed


section \<open>Views of a peer\<close>

lemma same_view_refl [simp]: "same_view D p p"
  by (simp add: same_view_def)

lemma same_view_trans: "same_view D p q \<Longrightarrow> same_view D q r \<Longrightarrow> same_view D p r"
  by (simp add: same_view_def)

lemma held_state_sent [simp]: "held_state D (p\<lparr>peer_sent := ms\<rparr>) = held_state D p"
  by (rule ext) (simp add: held_state_def split: option.split)

lemma held_state_peers [simp]: "held_state D (p\<lparr>active_peers := ps\<rparr>) = held_state D p"
  by (rule ext) (simp add: held_state_def split: option.split)

lemma same_view_sent [simp]: "same_view D (p\<lparr>peer_sent := ms\<rparr>) q \<longleftrightarrow> same_view D p q"
  by (simp add: same_view_def)

lemma same_view_fold: "(\<And>x q. same_view D (f x q) q) \<Longrightarrow> same_view D (fold f xs p) p"
proof (induction xs arbitrary: p)
  case (Cons x xs)
  from same_view_trans [OF Cons.IH [OF Cons.prems] Cons.prems] show ?case by simp
qed simp

lemma restored_view:
  assumes "restored_state D u p = (x, q)"
  shows "same_view D q p" "peer_sent q = peer_sent p" "settled D q u"
    and "supersedes s x \<longleftrightarrow> freshness (held_state D p u) < freshness s"
    and "(case x of Some y \<Rightarrow> y | None \<Rightarrow> default_lock_state) = held_state D p u"
  using assms
  by (auto simp: restored_state_def same_view_def held_state_def settled_def or_insert_def Let_def fun_eq_iff
      supersedes_freshness split: option.splits if_splits)

lemma advertised_view:
  assumes "advertised_state D u p = (x, q)"
  shows "same_view D q p" "peer_sent q = peer_sent p" "settled D q u" "x = held_state D p u"
proof -
  obtain y q' where r: "restored_state D u p = (y, q')" by fastforce
  note facts = restored_view [OF r]
  have "q = q'" "x = (case y of Some z \<Rightarrow> z | None \<Rightarrow> default_lock_state)"
    using assms r by (auto simp: advertised_state_def default_lock_state_def split: option.splits)
  then show "same_view D q p" "peer_sent q = peer_sent p" "settled D q u" "x = held_state D p u"
    using facts by simp_all
qed

lemma sync_user_to_view: "same_view D (sync_user_to D u t p) p"
proof -
  obtain x q where a: "advertised_state D u p = (x, q)" by fastforce
  show ?thesis using advertised_view(1) [OF a] by (simp add: sync_user_to_def a peer_send_message_def)
qed

lemma sync_user_to_sent:
  "may_sync_user_to D u t p \<Longrightarrow>
   peer_sent (sync_user_to D u t p) = peer_sent p @ [(\<lparr>sync_user_id = u, sync_state = held_state D p u\<rparr>, target_endpoint t)]"
  using advertised_view(2,4) [of D u p] by (auto simp: sync_user_to_def peer_send_message_def split: prod.splits)

lemma sync_views:
  "same_view D (sync_user D u p) p"
  "same_view D (sync_all_users D p) p"
  "same_view D (sync_all_users_to D t p) p"
  "same_view D (relay_user_state D u s p) p"
proof -
  show user: "same_view D (sync_user D u p) p" for u p
    unfolding sync_user_def by (rule same_view_fold) (rule sync_user_to_view)
  show "same_view D (sync_all_users D p) p"
    unfolding sync_all_users_def by (rule same_view_fold) (rule user)
  show "same_view D (sync_all_users_to D t p) p"
    unfolding sync_all_users_to_def by (rule same_view_fold) (rule sync_user_to_view)
  show "same_view D (relay_user_state D u s p) p"
    unfolding relay_user_state_def by (rule same_view_fold) (simp add: peer_send_message_def)
qed

lemma relay_states: "peer_states (relay_user_state D u s p) = peer_states p"
proof -
  have "peer_states (fold (\<lambda>t q. if \<not> may_sync_user_to D u t q then q
      else peer_send_message \<lparr>sync_user_id = u, sync_state = s\<rparr> (target_endpoint t) q) ts p) = peer_states p" for ts
    by (induction ts arbitrary: p) (simp_all add: peer_send_message_def)
  then show ?thesis by (simp add: relay_user_state_def)
qed


section \<open>The effect of a report\<close>

lemma same_accounts_refl [simp]: "same_accounts D p p"
  by (simp add: same_accounts_def)

lemma same_accounts_trans: "same_accounts D p q \<Longrightarrow> same_accounts D q r \<Longrightarrow> same_accounts D p r"
  by (simp add: same_accounts_def)

lemma same_view_accounts: "same_view D p q \<Longrightarrow> same_accounts D p q"
  by (simp add: same_view_def same_accounts_def)

lemma admitted_cong: "same_accounts D p q \<Longrightarrow> admitted D p m \<longleftrightarrow> admitted D q m"
  by (simp add: same_accounts_def admitted_def is_destination_def origin_valid_def split: source.split)

lemma quiet_call_facts:
  assumes "quiet_call D p q"
  shows "held_state D q = held_state D p" "same_accounts D q p" "peer_states q = peer_states p"
    "active_peers q = active_peers p" "settled D q u = settled D p u"
  using assms by (auto simp: quiet_call_def keeps_device_def held_state_def same_accounts_def settled_def fun_eq_iff
      split: option.splits)

lemma quiet_calls:
  assumes "driver_ok D"
  shows "quiet_call D p (call_driver (suppress_vault_timeout D u n) p)"
    and "quiet_call D p (call_driver (on_peer_state D u s) p)"
    and "quiet_call D p (snd (apply_through_driver D u l p))"
proof -
  show "quiet_call D p (call_driver (suppress_vault_timeout D u n) p)"
    "quiet_call D p (call_driver (on_peer_state D u s) p)"
    using assms by (auto simp: quiet_call_def driver_ok_def)
  have "snd (apply_through_driver D u l p) = p\<lparr>peer_driver := snd (case l of Locked \<Rightarrow> lock_user D u (peer_driver p)
      | Unlocked key \<Rightarrow> unlock_user D u key (peer_driver p))\<rparr>"
    by (simp add: apply_through_driver_def split: prod.splits)
  then show "quiet_call D p (snd (apply_through_driver D u l p))"
    using assms by (cases l) (auto simp: quiet_call_def driver_ok_def)
qed

lemma apply_through_fails: "fst (apply_through_driver D u l p) = Err e \<Longrightarrow> driver_fails D u l"
  by (cases l) (auto simp: apply_through_driver_def driver_fails_def case_prod_beta intro!: exI [of _ "peer_driver p"])

lemma held_record_remote:
  "settled D p u \<Longrightarrow> held_state D (record_remote_state u s p) =
     (held_state D p)(u := if freshness (held_state D p u) < freshness s then s else held_state D p u)"
  by (auto simp: record_remote_state_def record_remote_def held_state_def settled_def fun_eq_iff supersedes_freshness
      split: option.splits)

text \<open>Persisting the date of a lock changes what is held only if nothing was recorded.\<close>

lemma held_set_lock:
  assumes "driver_ok D"
  shows "held_state D (call_driver (set_last_manual_lock D u at) p) =
     (held_state D p)(u := if peer_states p u = None then \<lparr>tls_lock_state = Locked, changed_at = at\<rparr> else held_state D p u)"
  using assms by (auto simp: held_state_def driver_ok_def fun_eq_iff split: option.splits)

lemma apply_eq:
  "apply_remote_state D u s p =
     (if \<not> supersedes s (fst (restored_state D u p)) then (Ok (), snd (restored_state D u p))
      else case fst (driven D u s p) of
        Err e \<Rightarrow> (Err e, snd (driven D u s p))
      | Ok _ \<Rightarrow> (Ok (), record_remote_state u s (snd (driven D u s p))))"
  by (simp only: apply_remote_state_def driven_def Let_def case_prod_beta)

lemma driven_effect:
  assumes D: "driver_ok D"
  shows "settled D (snd (driven D u s p)) u \<and> same_accounts D (snd (driven D u s p)) p
     \<and> held_state D (snd (driven D u s p)) \<in> {held_state D p, (held_state D p)(u := s)}
     \<and> (\<not> is_ok (fst (driven D u s p)) \<longrightarrow>
          held_state D (snd (driven D u s p)) = held_state D p \<and> driver_fails D u (tls_lock_state s))"
proof -
  obtain x p0 where p0: "restored_state D u p = (x, p0)" by fastforce
  note v0 = restored_view [OF p0, unfolded same_view_def]
  define p1 where "p1 = (case tls_lock_state s of
      Locked \<Rightarrow> call_driver (set_last_manual_lock D u (changed_at s)) p0 | _ \<Rightarrow> p0)"
  obtain y p2 where p2: "advertised_state D u p1 = (y, p2)" by fastforce
  note v2 = advertised_view [OF p2]
  have a1: "same_accounts D p1 p"
    using v0(1) D by (cases "tls_lock_state s") (simp_all add: p1_def same_accounts_def driver_ok_def)
  have h1: "held_state D p1 = held_state D p
      \<or> held_state D p1 = (held_state D p)(u := s) \<and> tls_lock_state s = Locked"
    using v0(1) held_set_lock [OF D, of u "changed_at s" p0] by (cases "tls_lock_state s"; cases s) (auto simp: p1_def)
  have a2: "same_accounts D p2 p" "held_state D p2 = held_state D p1"
    using same_accounts_trans [OF same_view_accounts [OF v2(1)] a1] v2(1) by (simp_all add: same_view_def)
  show ?thesis
  proof (cases "lock_state_eq (tls_lock_state s) (tls_lock_state y)")
    case True
    then have "driven D u s p = (Ok (), p2)" by (simp add: driven_def p0 p2 Let_def flip: p1_def)
    then show ?thesis using v2(3) a2 h1 by auto
  next
    case False
    let ?p = "relay_user_state D u s p2"
    have eq: "driven D u s p = apply_through_driver D u (tls_lock_state s) ?p"
      using False by (simp add: driven_def p0 p2 Let_def flip: p1_def)
    have "held_state D p1 = held_state D p" using h1 False v2(4) by auto
    moreover note relay = sync_views(4) [of D u s p2]
    moreover have "settled D ?p u" using v2(3) relay by (simp add: settled_def relay_states same_view_def)
    moreover note call = quiet_call_facts [OF quiet_calls(3) [OF D, of ?p u "tls_lock_state s"]]
    moreover have "same_accounts D (snd (driven D u s p)) p"
      unfolding eq using same_accounts_trans [OF call(2) same_accounts_trans [OF same_view_accounts [OF relay] a2(1)]] .
    ultimately show ?thesis
      using a2(2) apply_through_fails [of D u "tls_lock_state s" ?p] unfolding eq
      by (cases "fst (apply_through_driver D u (tls_lock_state s) ?p)") (auto simp: same_view_def)
  qed
qed

lemma apply_remote_effect:
  assumes D: "driver_ok D"
  shows "report_effect D u s p (apply_remote_state D u s p)"
proof -
  obtain x p0 where p0: "restored_state D u p = (x, p0)" by fastforce
  note v0 = restored_view [OF p0, unfolded same_view_def]
  show ?thesis
  proof (cases "freshness (held_state D p u) < freshness s")
    case False
    then show ?thesis using v0 by (simp add: apply_remote_state_def p0 report_effect_def same_accounts_def Let_def)
  next
    case newer: True
    let ?q = "snd (driven D u s p)"
    note dr = driven_effect [OF D, of u s p]
    have eq: "apply_remote_state D u s p = (case fst (driven D u s p) of
        Err e \<Rightarrow> (Err e, ?q) | Ok _ \<Rightarrow> (Ok (), record_remote_state u s ?q))"
      using newer v0(4) by (simp add: apply_eq p0)
    have "held_state D (record_remote_state u s ?q) = (held_state D p)(u := s)"
      using dr newer by (auto simp: held_record_remote)
    moreover have "same_accounts D (record_remote_state u s ?q) p"
      using dr by (simp add: record_remote_state_def same_accounts_def)
    ultimately show ?thesis
      unfolding eq report_effect_def using dr newer by (cases "fst (driven D u s p)") simp_all
  qed
qed

lemma receive_eq:
  "receive_message D now m p =
     (if admitted D p m
      then let (first, p1) = arrival D now m p;
               (r, p2) = apply_remote_state D (sync_user_id (typed_payload m)) (sync_state (typed_payload m)) p1
           in (case r of Err e \<Rightarrow> (Err e, p2) | Ok _ \<Rightarrow> (Ok (), afterwards D m first p2))
      else (Ok (), p))"
  by (simp only: receive_message_def admitted_def arrival_def afterwards_def Let_def case_prod_beta fst_conv snd_conv) simp

lemma receive_effect:
  assumes D: "driver_ok D" and m: "admitted D p m"
  shows "report_effect D (sync_user_id (typed_payload m)) (sync_state (typed_payload m)) p (receive_message D now m p)"
proof -
  let ?u = "sync_user_id (typed_payload m)" and ?s = "sync_state (typed_payload m)"
  let ?t = "target_from_source (typed_source m)"
  obtain first p1 where p1: "arrival D now m p = (first, p1)" by fastforce
  obtain r p2 where p2: "apply_remote_state D ?u ?s p1 = (r, p2)" by fastforce
  define p3 where "p3 = call_driver (on_peer_state D ?u (peer_state (tls_lock_state ?s))) p2"
  have before: "held_state D p1 = held_state D p" "same_accounts D p1 p"
    using p1 quiet_call_facts(1,2) [OF quiet_calls(1) [OF D]]
    by (auto simp: arrival_def Let_def same_accounts_def split: prod.splits if_splits)
  have eff: "report_effect D ?u ?s p (r, p2)"
    using apply_remote_effect [OF D, of ?u ?s p1] before(1) same_accounts_trans [OF _ before(2)]
    by (simp add: p2 report_effect_def split: if_splits)
  have p3: "held_state D p3 = held_state D p2" "same_accounts D p3 p2"
    using quiet_call_facts(1,2) [OF quiet_calls(2) [OF D]] by (simp_all add: p3_def)
  note sync = sync_views(3) [of D ?t p3]
  have after: "afterwards D m first p2 = (if first then sync_all_users_to D ?t p3 else p3)"
    by (simp add: afterwards_def p3_def Let_def)
  have "held_state D (afterwards D m first p2) = held_state D p2 \<and> same_accounts D (afterwards D m first p2) p2"
    unfolding after using p3 sync same_accounts_trans [OF same_view_accounts [OF sync] p3(2)] by (simp add: same_view_def)
  then have "report_effect D ?u ?s p (Ok (), afterwards D m first p2)" if "is_ok r"
    using eff that same_accounts_trans by (auto simp: report_effect_def)
  then show ?thesis using m p2 eff by (cases r) (simp_all add: receive_eq p1)
qed

lemma fresher_insert:
  fixes f :: "'a \<Rightarrow> nat"
  assumes "x \<in> insert (if f h < f s then s else h) R \<and> (\<forall>r \<in> insert (if f h < f s then s else h) R. f r \<le> f x)"
  shows "x \<in> insert h (insert s R) \<and> (\<forall>r \<in> insert h (insert s R). f r \<le> f x)"
  using assms by (cases "f h < f s") auto

lemma receive_accounts:
  assumes "driver_ok D"
  shows "same_accounts D (snd (receive_message D now m p)) p"
  using receive_effect [OF assms, of p m now] by (cases "admitted D p m") (simp_all add: report_effect_def receive_eq)

lemma receive_held:
  assumes "driver_ok D"
  shows "held_state D (snd (receive_message D now m p)) u =
     (if admitted D p m \<and> is_ok (fst (receive_message D now m p)) \<and> sync_user_id (typed_payload m) = u
        \<and> freshness (held_state D p u) < freshness (sync_state (typed_payload m))
      then sync_state (typed_payload m) else held_state D p u)"
  using receive_effect [OF assms, of p m now]
  by (cases "admitted D p m") (auto simp: report_effect_def receive_eq [of D now m p] split: if_splits)

lemma receive_all_effect:
  assumes D: "driver_ok D"
  shows "held_state D (receive_all D evs p) u \<in> insert (held_state D p u) (accepted D u evs p)
     \<and> (\<forall>r \<in> insert (held_state D p u) (accepted D u evs p). freshness r \<le> freshness (held_state D (receive_all D evs p) u))"
proof (induction evs arbitrary: p)
  case (Cons ev evs)
  obtain m now where ev: "ev = (m, now)" by (cases ev)
  obtain r q where step: "receive_message D now m p = (r, q)" by fastforce
  let ?s = "sync_state (typed_payload m)"
  note held = receive_held [OF D, of now m p u, unfolded step fst_conv snd_conv] and IH = Cons.IH [of q]
  have run: "receive_all D (ev # evs) p = receive_all D evs q" by (simp add: ev step)
  show ?case
  proof (cases "admitted D p m \<and> is_ok r \<and> sync_user_id (typed_payload m) = u")
    case True
    then have acc: "accepted D u (ev # evs) p = insert ?s (accepted D u evs q)"
      and q: "held_state D q u = (if freshness (held_state D p u) < freshness ?s then ?s else held_state D p u)"
      using held by (simp_all add: ev step)
    show ?thesis unfolding acc run using IH unfolding q by (rule fresher_insert)
  next
    case False
    then have "accepted D u (ev # evs) p = accepted D u evs q" "held_state D q u = held_state D p u"
      using held by (auto simp: ev step)
    then show ?thesis using IH unfolding run by simp
  qed
qed simp

lemma accepted_reports: "accepted D u evs p \<subseteq> reports u evs"
proof (induction evs arbitrary: p)
  case (Cons ev evs)
  then have "accepted D u evs (snd (receive_message D (snd ev) (fst ev) p)) \<subseteq> reports u evs" .
  then show ?case by (cases ev) (auto simp: case_prod_beta Let_def)
qed simp

lemma accepted_unless_driver_fails:
  assumes D: "driver_ok D" and "(m, now) \<in> set evs" "admitted D p m" "sync_user_id (typed_payload m) = u"
    and "\<not> driver_fails D u (tls_lock_state (sync_state (typed_payload m)))"
  shows "sync_state (typed_payload m) \<in> accepted D u evs p"
  using assms(2,3)
proof (induction evs arbitrary: p)
  case (Cons ev evs)
  obtain m' now' where ev: "ev = (m', now')" by (cases ev)
  obtain r q where step: "receive_message D now' m' p = (r, q)" by fastforce
  show ?case
  proof (cases "ev = (m, now)")
    case True
    then have "is_ok r"
      using receive_effect [OF D Cons.prems(2), of now'] assms(4,5) step ev by (auto simp: report_effect_def split: if_splits)
    then show ?thesis using True Cons.prems(2) assms(4) step ev by simp
  next
    case False
    have "same_accounts D q p" using receive_accounts [OF D, of now' m' p] by (simp add: step)
    then have "sync_state (typed_payload m) \<in> accepted D u evs q"
      using Cons False admitted_cong [of D q p m] by simp
    then show ?thesis by (simp add: ev step)
  qed
qed simp

lemma freshness_Max:
  assumes "s \<in> insert r S" "t \<in> insert r S" "\<forall>x \<in> insert r S. freshness x \<le> freshness s" "\<forall>x \<in> insert r S. freshness x \<le> freshness t"
  shows "freshness s = freshness t"
  using assms by (meson order_antisym)


section \<open>Accesses to the recorded states\<close>

abbreviation record_steps :: "'d peer \<Rightarrow> 'd peer \<Rightarrow> bool" where
  "record_steps p q \<equiv> record_step\<^sup>*\<^sup>* (peer_states p) (peer_states q)"

lemma record_steps_fold: "(\<And>x q. record_steps q (f x q)) \<Longrightarrow> record_steps p (fold f xs p)"
proof (induction xs arbitrary: p)
  case (Cons x xs)
  from rtranclp_trans [OF Cons.prems Cons.IH [OF Cons.prems]] show ?case by simp
qed simp

lemma restored_steps: "record_steps p (snd (restored_state D u p))"
  by (auto simp: restored_state_def Let_def intro!: r_into_rtranclp record_step.restore split: option.splits)

lemma advertised_steps: "record_steps p (snd (advertised_state D u p))"
  using restored_steps [of p D u] by (auto simp: advertised_state_def split: prod.splits option.splits)

lemma sync_user_to_steps: "record_steps p (sync_user_to D u t p)"
  using advertised_steps [of p D u] by (auto simp: sync_user_to_def peer_send_message_def split: prod.splits)

lemma sync_steps:
  "record_steps p (sync_user D u p)"
  "record_steps p (sync_all_users D p)"
  "record_steps p (sync_all_users_to D t p)"
proof -
  show user: "record_steps p (sync_user D u p)" for u and p :: "'a peer"
    unfolding sync_user_def by (rule record_steps_fold) (rule sync_user_to_steps)
  show "record_steps p (sync_all_users D p)"
    unfolding sync_all_users_def by (rule record_steps_fold) (rule user)
  show "record_steps p (sync_all_users_to D t p)"
    unfolding sync_all_users_to_def by (rule record_steps_fold) (rule sync_user_to_steps)
qed

lemma driven_steps: "record_steps p (snd (driven D u s p))"
proof -
  define p0 where "p0 = snd (restored_state D u p)"
  define p1 where "p1 = (case tls_lock_state s of
        Locked \<Rightarrow> call_driver (set_last_manual_lock D u (changed_at s)) p0 | _ \<Rightarrow> p0)"
  have "peer_states p1 = peer_states p0" by (simp add: p1_def split: lock_state.split)
  then have "record_steps p (snd (advertised_state D u p1))"
    using rtranclp_trans [OF restored_steps [of p D u]] advertised_steps [of p1 D u] by (simp add: p0_def)
  moreover have "peer_states (snd (driven D u s p)) = peer_states (snd (advertised_state D u p1))"
    by (simp add: driven_def Let_def case_prod_beta apply_through_driver_def relay_states flip: p0_def p1_def)
  ultimately show ?thesis by simp
qed

lemma apply_remote_steps: "record_steps p (snd (apply_remote_state D u s p))"
proof -
  note to = driven_steps [of p D u s]
  have "record_step\<^sup>*\<^sup>* (peer_states p) (record_remote u s (peer_states (snd (driven D u s p))))"
    using to by (rule rtranclp.rtrancl_into_rtrancl) (rule record_step.remote)
  then show ?thesis
    unfolding apply_eq using to restored_steps [of p D u]
    by (cases "fst (driven D u s p)") (simp_all add: record_remote_state_def)
qed

lemma receive_steps: "record_steps p (snd (receive_message D now m p))"
proof -
  obtain first p1 where p1: "arrival D now m p = (first, p1)" by fastforce
  obtain r p2 where p2: "apply_remote_state D (sync_user_id (typed_payload m)) (sync_state (typed_payload m)) p1 = (r, p2)" by fastforce
  have "peer_states p1 = peer_states p" using p1 by (auto simp: arrival_def Let_def split: prod.splits if_splits)
  then have to: "record_steps p p2"
    using apply_remote_steps [of p1 D "sync_user_id (typed_payload m)" "sync_state (typed_payload m)"] by (simp add: p2)
  let ?p3 = "call_driver (on_peer_state D (sync_user_id (typed_payload m)) (peer_state (tls_lock_state (sync_state (typed_payload m))))) p2"
  have "record_steps p2 (afterwards D m first p2)"
    using sync_steps(3) [of ?p3 D "target_from_source (typed_source m)"] by (simp add: afterwards_def Let_def)
  from rtranclp_trans [OF to this] to show ?thesis by (cases r) (simp_all add: receive_eq p1 p2)
qed

lemma event_steps: "record_steps p (snd (handle_device_event D now e p))"
proof -
  have change: "record_step\<^sup>*\<^sup>* (peer_states p) (peer_states (sync_user D u q))"
    if "peer_states q = (peer_states p)(u \<mapsto> \<lparr>tls_lock_state = l, changed_at = local_date now (peer_states p u)\<rparr>)" for u l q
  proof -
    have "record_steps p q" by (simp add: that r_into_rtranclp record_step.local_change)
    from rtranclp_trans [OF this sync_steps(1)] show ?thesis .
  qed
  show ?thesis
    by (cases e) (simp_all add: handle_device_event_def record_local_state_def Let_def change)
qed

lemma peer_step_records: "peer_step D og p q \<Longrightarrow> record_steps p q"
proof (induction rule: peer_step.induct)
  case (tick p now)
  then show ?case using sync_steps(2) [of "p\<lparr>active_peers := prune_stale now (peer_stale_after (peer_timing p)) (active_peers p)\<rparr>" D]
    by (simp add: timer_tick_def)
qed (simp_all add: receive_steps event_steps sync_steps set_destinations_def)


section \<open>Origins\<close>

lemma scoped_cong:
  "peer_sent p = peer_sent q \<Longrightarrow> active_peers p = active_peers q \<Longrightarrow> scoped url og p \<longleftrightarrow> scoped url og q"
  by (simp add: scoped_def)

lemma of_endpoint_Web: "of_endpoint e = WebClient \<longleftrightarrow> (\<exists>tab doc. e = Web tab doc)"
  by (cases e) simp_all

lemma scoped_send:
  assumes "\<forall>u d. get_vault_url D u d = url u" "target_scoped og t" "may_sync_user_to D u t q" "scoped url og p"
  shows "scoped url og (peer_send_message \<lparr>sync_user_id = u, sync_state = s\<rparr> (target_endpoint t) p)"
proof -
  have "url u = Some (og (target_endpoint t))" if "of_endpoint (target_endpoint t) = WebClient"
    using assms(1-3) that
    by (auto simp: may_sync_user_to_def target_scoped_def of_endpoint_Web split: if_splits option.splits)
  then show ?thesis using assms(4) by (auto simp: scoped_def peer_send_message_def)
qed

lemma targets_scoped: "scoped url og p \<Longrightarrow> t \<in> set (sync_targets D p) \<Longrightarrow> target_scoped og t"
  by (fastforce simp: sync_targets_def tracker_targets_def target_without_origin_def scoped_def target_scoped_def Let_def
      split: option.splits if_splits)

lemma scoped_sync_user_to:
  assumes "\<forall>u d. get_vault_url D u d = url u" "target_scoped og t" "scoped url og p"
  shows "scoped url og (sync_user_to D u t p)"
proof -
  obtain x q where a: "advertised_state D u p = (x, q)" by fastforce
  have "scoped url og q"
    using advertised_view(1,2) [OF a] assms(3) scoped_cong [of q p] by (simp add: same_view_def)
  then show ?thesis using scoped_send [OF assms(1,2), of u p q x] assms(3) by (simp add: sync_user_to_def a)
qed

lemma scoped_syncs:
  assumes url: "\<forall>u d. get_vault_url D u d = url u" and p: "scoped url og p"
  shows "scoped url og (sync_user D u p)" "scoped url og (sync_all_users D p)"
    and "target_scoped og t \<Longrightarrow> scoped url og (sync_all_users_to D t p)"
    and "scoped url og (relay_user_state D u s p)"
proof -
  have user: "scoped url og (sync_user D u q)" if "scoped url og q" for u q
    unfolding sync_user_def
    by (rule fold_invariant [where Q = "target_scoped og"]) (use that url scoped_sync_user_to targets_scoped in blast)+
  then show "scoped url og (sync_user D u p)" using p .
  show "scoped url og (sync_all_users D p)"
    unfolding sync_all_users_def by (rule fold_invariant [where Q = "\<lambda>_. True"]) (use p user in blast)+
  show "scoped url og (sync_all_users_to D t p)" if "target_scoped og t"
    unfolding sync_all_users_to_def
    by (rule fold_invariant [where Q = "\<lambda>_. True"]) (use that p url scoped_sync_user_to in blast)+
  show "scoped url og (relay_user_state D u s p)"
    unfolding relay_user_state_def
    by (rule fold_invariant [where Q = "target_scoped og"]) (use p url scoped_send targets_scoped in \<open>auto\<close>)
qed

lemma scoped_driven:
  assumes url: "\<forall>u d. get_vault_url D u d = url u" and p: "scoped url og p"
  shows "scoped url og (snd (driven D u s p))"
proof -
  define p0 where "p0 = snd (restored_state D u p)"
  define p1 where "p1 = (case tls_lock_state s of
        Locked \<Rightarrow> call_driver (set_last_manual_lock D u (changed_at s)) p0 | _ \<Rightarrow> p0)"
  define p2 where "p2 = snd (advertised_state D u p1)"
  have "scoped url og p0"
    using restored_view(1,2) [of D u p "fst (restored_state D u p)" p0] p scoped_cong [of p0 p]
    by (simp add: p0_def same_view_def)
  then have "scoped url og p1" by (simp add: p1_def scoped_def split: lock_state.split)
  then have v2: "scoped url og p2"
    using advertised_view(1,2) [of D u p1 "fst (advertised_state D u p1)" p2] scoped_cong [of p2 p1]
    by (simp add: p2_def same_view_def)
  then show ?thesis
    using scoped_syncs(4) [OF url v2, of u s]
    by (simp add: driven_def Let_def case_prod_beta apply_through_driver_def scoped_def flip: p0_def p1_def p2_def)
qed

lemma scoped_apply_remote:
  assumes url: "\<forall>u d. get_vault_url D u d = url u" and p: "scoped url og p"
  shows "scoped url og (snd (apply_remote_state D u s p))"
proof -
  have "scoped url og (snd (restored_state D u p))"
    using restored_view(1,2) [of D u p "fst (restored_state D u p)" "snd (restored_state D u p)"] p
      scoped_cong [of "snd (restored_state D u p)" p] by (simp add: same_view_def)
  then show ?thesis unfolding apply_eq using scoped_driven [OF assms, of u s]
    by (cases "fst (driven D u s p)") (simp_all add: record_remote_state_def scoped_def)
qed

lemma set_alist_update: "x \<in> set (AList.update k v al) \<Longrightarrow> x = (k, v) \<or> x \<in> set al"
  by (induction al) (auto split: if_splits)

lemma scoped_arrival:
  assumes "scoped url og p" "target_scoped og (target_from_source (typed_source m))"
  shows "scoped url og (snd (arrival D now m p))"
  using assms
  by (auto simp: arrival_def Let_def tracker_upsert_def scoped_def target_scoped_def case_prod_beta dest!: set_alist_update)

lemma peer_step_scoped:
  assumes url: "\<forall>u d. get_vault_url D u d = url u" and step: "peer_step D og p q" and p: "scoped url og p"
  shows "scoped url og q"
  using step p
proof (induction rule: peer_step.induct)
  case (receive m p now)
  let ?u = "sync_user_id (typed_payload m)" and ?s = "sync_state (typed_payload m)" and ?t = "target_from_source (typed_source m)"
  have t: "target_scoped og ?t"
    using receive.hyps by (auto simp: target_scoped_def target_from_source_def split: source.splits)
  obtain first p1 where p1: "arrival D now m p = (first, p1)" by fastforce
  obtain r p2 where p2: "apply_remote_state D ?u ?s p1 = (r, p2)" by fastforce
  have v2: "scoped url og p2"
    using scoped_apply_remote [OF url, of og p1 ?u ?s] scoped_arrival [OF receive.prems t, of D now] by (simp add: p1 p2)
  then have "scoped url og (call_driver f p2)" for f by (simp add: scoped_def)
  then have "scoped url og (afterwards D m first p2)"
    using scoped_syncs(3) [OF url _ t] by (simp add: afterwards_def Let_def)
  then show ?case using v2 receive.prems by (cases r) (simp_all add: receive_eq p1 p2)
next
  case (event p now e)
  have "scoped url og (sync_user D u p')" if "peer_sent p' = peer_sent p" "active_peers p' = active_peers p" for u p'
    using event that scoped_cong [of p' p] scoped_syncs(1) [OF url] by simp
  then show ?case by (cases e) (simp_all add: handle_device_event_def record_local_state_def Let_def)
next
  case (tick p now)
  then have "scoped url og (p\<lparr>active_peers := prune_stale now (peer_stale_after (peer_timing p)) (active_peers p)\<rparr>)"
    by (auto simp: scoped_def prune_stale_def)
  then show ?case by (simp add: timer_tick_def scoped_syncs [OF url])
next
  case (announce p)
  then show ?case by (rule scoped_syncs(2) [OF url])
qed (simp_all add: set_destinations_def scoped_def)


section \<open>The concrete device\<close>

lemma device_driver_ok: "driver_ok device_driver"
  by (simp add: driver_ok_def keeps_device_def device_driver_def)

lemma device_driver_works: "\<not> driver_fails device_driver u l"
  by (cases l) (simp_all add: driver_fails_def device_driver_def)

lemma device_accepts:
  assumes "\<forall>(m, now) \<in> set evs. admitted device_driver p m"
  shows "accepted device_driver u evs p = reports u evs"
proof
  have "s \<in> accepted device_driver u evs p" if "s \<in> reports u evs" for s
  proof -
    obtain m now where m: "(m, now) \<in> set evs" "sync_user_id (typed_payload m) = u" "s = sync_state (typed_payload m)"
      using \<open>s \<in> reports u evs\<close> by (induction u evs rule: reports.induct) (auto split: if_splits)
    then show ?thesis
      using accepted_unless_driver_fails [OF device_driver_ok m(1) _ m(2) device_driver_works] assms by auto
  qed
  then show "reports u evs \<subseteq> accepted device_driver u evs p" by blast
qed (rule accepted_reports)

lemma device_peer_admits:
  "sync_user_id (typed_payload m) = 7 \<Longrightarrow> (case typed_source m of WebSource _ _ _ \<Rightarrow> False | _ \<Rightarrow> True) \<Longrightarrow>
   admitted device_driver (device_peer leader) m"
  by (cases "typed_source m") (simp_all add: admitted_def device_peer_def set_destinations_def is_destination_def peer_create_def
      origin_valid_def device_driver_def)

lemma device_event_accounts:
  "same_accounts device_driver (snd (handle_device_event device_driver now (ManualLock u) (device_peer leader))) (device_peer None)"
proof -
  let ?q = "\<lambda>at. call_driver (set_last_manual_lock device_driver u at)
     ((device_peer leader)\<lparr>peer_states := (peer_states (device_peer leader))(u \<mapsto> \<lparr>tls_lock_state = Locked, changed_at = at\<rparr>)\<rparr>)"
  have "same_accounts device_driver (?q at) (device_peer None)" for at
    by (simp add: same_accounts_def device_driver_def device_peer_def set_destinations_def peer_create_def)
  moreover have "snd (handle_device_event device_driver now (ManualLock u) (device_peer leader))
      = sync_user device_driver u (?q (local_date now (peer_states (device_peer leader) u)))"
    by (simp add: handle_device_event_def record_local_state_def Let_def)
  ultimately show ?thesis
    using same_accounts_trans [OF same_view_accounts [OF sync_views(1)]] by metis
qed


section \<open>Properties\<close>

text \<open>C4: A peer ends with the freshest of what it held for a user and the reports about them that it accepted:
  the newest date, and on equal dates a lock before an unlock.  A report that is not ignored is accepted unless the
  driver fails to lock or unlock the user; then it changes nothing.  The order of the reports, their repetition and
  reports about other users between them do not matter, so two peers that start alike and accept the same reports
  agree on the date and on whether the user is locked.\<close>

theorem freshest_report_wins:
  assumes D: "driver_ok D"
  shows "held_state D (receive_all D evs p) u \<in> insert (held_state D p u) (accepted D u evs p)
     \<and> (\<forall>r \<in> insert (held_state D p u) (accepted D u evs p). freshness r \<le> freshness (held_state D (receive_all D evs p) u))
     \<and> (\<forall>(m, now) \<in> set evs. admitted D p m \<and> sync_user_id (typed_payload m) = u
          \<and> \<not> driver_fails D u (tls_lock_state (sync_state (typed_payload m)))
          \<longrightarrow> sync_state (typed_payload m) \<in> accepted D u evs p)
     \<and> (admitted D p m \<and> \<not> is_ok (fst (receive_message D now m p))
          \<longrightarrow> held_state D (snd (receive_message D now m p)) = held_state D p)
     \<and> (held_state D q u = held_state D p u \<and> accepted D u evs' q = accepted D u evs p
          \<longrightarrow> changed_at (held_state D (receive_all D evs' q) u) = changed_at (held_state D (receive_all D evs p) u)
            \<and> is_locked (tls_lock_state (held_state D (receive_all D evs' q) u))
              = is_locked (tls_lock_state (held_state D (receive_all D evs p) u)))"
proof -
  note P = receive_all_effect [OF D, of evs p u] and Q = receive_all_effect [OF D, of evs' q u]
  have "freshness (held_state D (receive_all D evs' q) u) = freshness (held_state D (receive_all D evs p) u)"
    if "held_state D q u = held_state D p u" "accepted D u evs' q = accepted D u evs p"
    using P Q freshness_Max unfolding that by blast
  moreover have "held_state D (snd (receive_message D now m p)) = held_state D p"
    if "admitted D p m" "\<not> is_ok (fst (receive_message D now m p))"
    using receive_effect [OF D that(1), of now] that(2) by (simp add: report_effect_def)
  ultimately show ?thesis
    using P accepted_unless_driver_fails [OF D, of _ _ evs p u] unfolding freshness_eq by blast
qed

theorem freshest_report_wins_witness:
  "driver_ok device_driver
   \<and> freshness (lock_example 9) \<le> freshness (held_state device_driver (receive_all device_driver
       [(lock_report DesktopRendererSource (lock_example 9), 1), (lock_report (CliSource Own) (unlock_example 4), 2)] (device_peer None)) 7)
   \<and> changed_at (held_state device_driver (receive_all device_driver
       [(lock_report (CliSource Own) (unlock_example 4), 1), (lock_report DesktopRendererSource (lock_example 9), 2)] (device_peer None)) 7)
     = changed_at (held_state device_driver (receive_all device_driver
       [(lock_report DesktopRendererSource (lock_example 9), 1), (lock_report (CliSource Own) (unlock_example 4), 2)] (device_peer None)) 7)"
proof -
  let ?a = "[(lock_report DesktopRendererSource (lock_example 9), 1 :: nat), (lock_report (CliSource Own) (unlock_example 4), 2)]"
  let ?b = "[(lock_report (CliSource Own) (unlock_example 4), 1 :: nat), (lock_report DesktopRendererSource (lock_example 9), 2)]"
  have a: "accepted device_driver 7 ?a (device_peer None) = {lock_example 9, unlock_example 4}"
    by (subst device_accepts) (auto simp: device_peer_admits lock_report_def)
  moreover have b: "accepted device_driver 7 ?b (device_peer None) = {lock_example 9, unlock_example 4}"
    by (subst device_accepts) (auto simp: device_peer_admits lock_report_def)
  ultimately have "accepted device_driver 7 ?b (device_peer None) = accepted device_driver 7 ?a (device_peer None)"
    "lock_example 9 \<in> accepted device_driver 7 ?a (device_peer None)" by blast+
  then show ?thesis
    using freshest_report_wins [OF device_driver_ok, where evs = ?a and evs' = ?b and p = "device_peer None" and q = "device_peer None" and u = 7]
      device_driver_ok by blast
qed

text \<open>C22: Two peers that share a user agree after one sync in each direction that both handle without an error:
  both hold the same date and lock state, the fresher of the two that they held before.  If one of them fails to
  lock or unlock the user, what it holds stays as it was.\<close>

theorem exchange_converges:
  fixes D :: "'d shared_unlock_driver" and E :: "'e shared_unlock_driver"
  assumes D: "driver_ok D" and E: "driver_ok E"
    and send: "may_sync_user_to D u t p" "(typed_payload m, target_endpoint t) = last (peer_sent (sync_user_to D u t p))"
    and recv: "admitted E q m" "receive_message E now m q = (r, q')"
    and send': "may_sync_user_to E u t' q'" "(typed_payload m', target_endpoint t') = last (peer_sent (sync_user_to E u t' q'))"
    and recv': "admitted D (sync_user_to D u t p) m'" "receive_message D now' m' (sync_user_to D u t p) = (r', p')"
  shows "(is_ok r \<and> is_ok r' \<longrightarrow>
       freshness (held_state D p' u) = max (freshness (held_state D p u)) (freshness (held_state E q u))
       \<and> changed_at (held_state D p' u) = changed_at (held_state E q' u)
       \<and> is_locked (tls_lock_state (held_state D p' u)) = is_locked (tls_lock_state (held_state E q' u)))
     \<and> (\<not> is_ok r \<longrightarrow> held_state E q' = held_state E q \<and> driver_fails E u (tls_lock_state (held_state D p u)))
     \<and> (\<not> is_ok r' \<longrightarrow> held_state D p' = held_state D p \<and> driver_fails D u (tls_lock_state (held_state E q' u)))"
proof -
  have pay: "typed_payload m = \<lparr>sync_user_id = u, sync_state = held_state D p u\<rparr>"
    "typed_payload m' = \<lparr>sync_user_id = u, sync_state = held_state E q' u\<rparr>"
    using send(2) send'(2) sync_user_to_sent [OF send(1)] sync_user_to_sent [OF send'(1)] by simp_all
  have same: "held_state D (sync_user_to D u t p) = held_state D p"
    using sync_user_to_view [of D u t p] by (simp add: same_view_def)
  note q' = receive_effect [OF E recv(1), of now, unfolded recv(2) pay report_effect_def, simplified]
    and p' = receive_effect [OF D recv'(1), of now', unfolded recv'(2) pay report_effect_def same, simplified]
  have "freshness (held_state E q' u) = max (freshness (held_state D p u)) (freshness (held_state E q u))" if "is_ok r"
    using q' that by (auto simp: max_def)
  moreover have "freshness (held_state D p' u) = max (freshness (held_state D p u)) (freshness (held_state E q' u))" if "is_ok r'"
    using p' that by (auto simp: max_def)
  ultimately have "freshness (held_state D p' u) = max (freshness (held_state D p u)) (freshness (held_state E q u))
      \<and> freshness (held_state D p' u) = freshness (held_state E q' u)" if "is_ok r" "is_ok r'" using that by simp
  then show ?thesis using q' p' unfolding freshness_eq by (cases "is_ok r"; cases "is_ok r'") simp_all
qed

theorem exchange_converges_witness:
  "\<exists>m m'. let D = device_driver;
       p = snd (handle_device_event D 5 (ManualLock 7) (device_peer (Some DesktopMain)));
       q = device_peer None;
       q' = snd (receive_message D 1 m q);
       p' = snd (receive_message D 2 m' (sync_user_to D 7 (target_without_origin DesktopMain) p))
     in changed_at (held_state D p' 7) = changed_at (held_state D q' 7)"
proof -
  let ?D = device_driver and ?p = "snd (handle_device_event device_driver 5 (ManualLock 7) (device_peer (Some DesktopMain)))"
  let ?t = "target_without_origin DesktopMain" and ?t' = "target_without_origin (BrowserBackground Own)"
  define m where "m = \<lparr>typed_payload = fst (last (peer_sent (sync_user_to ?D 7 ?t ?p))),
     typed_destination = DesktopMain, typed_source = BrowserBackgroundSource Own\<rparr>"
  define q' where "q' = snd (receive_message ?D 1 m (device_peer None))"
  define m' where "m' = \<lparr>typed_payload = fst (last (peer_sent (sync_user_to ?D 7 ?t' q'))),
     typed_destination = BrowserBackground Own, typed_source = DesktopMainSource\<rparr>"
  have may: "may_sync_user_to ?D 7 ?t ?p"
    using device_event_accounts [of 5 7 "Some DesktopMain"]
    by (simp add: may_sync_user_to_def same_accounts_def is_destination_def device_peer_def set_destinations_def
        target_without_origin_def)
  note sent = sync_user_to_sent [OF may]
  have adm: "admitted ?D (device_peer None) m" by (rule device_peer_admits) (simp_all add: m_def sent)
  have acc: "same_accounts ?D q' (device_peer None)"
    using receive_accounts [OF device_driver_ok] by (simp add: q'_def)
  have may': "may_sync_user_to ?D 7 ?t' q'"
    using acc by (simp add: may_sync_user_to_def same_accounts_def is_destination_def device_peer_def set_destinations_def
        target_without_origin_def)
  note sent' = sync_user_to_sent [OF may']
  have acc': "same_accounts ?D (sync_user_to ?D 7 ?t ?p) (device_peer None)"
    by (rule same_accounts_trans [OF same_view_accounts [OF sync_user_to_view]]) (simp add: device_event_accounts)
  have adm': "admitted ?D (sync_user_to ?D 7 ?t ?p) m'"
    unfolding admitted_cong [OF acc'] by (rule device_peer_admits) (simp_all add: m'_def sent')
  have "(typed_payload m, target_endpoint ?t) = last (peer_sent (sync_user_to ?D 7 ?t ?p))"
    "(typed_payload m', target_endpoint ?t') = last (peer_sent (sync_user_to ?D 7 ?t' q'))"
    by (simp_all add: m_def m'_def sent sent')
  from exchange_converges [OF device_driver_ok device_driver_ok may this(1) adm _ may' this(2) adm' surjective_pairing,
      of 1 "fst (receive_message ?D 1 m (device_peer None))" 2]
  show ?thesis using device_driver_works
    by (intro exI [of _ m] exI [of _ m']) (auto simp: Let_def q'_def)
qed

text \<open>C23: A lock survives a reload.  After a user has been locked manually, the peer may be created
  anew and may then be told of any state that is not newer, in whatever order: the user stays locked,
  with the date of the lock.\<close>

theorem lock_survives_reload:
  assumes D: "driver_ok D" and q: "q = reload (snd (handle_device_event D now_millis (ManualLock u) p))"
    and old: "\<forall>s \<in> reports u evs. changed_at s \<le> local_date now_millis (peer_states p u)"
  shows "held_state D (receive_all D evs q) u = \<lparr>tls_lock_state = Locked, changed_at = local_date now_millis (peer_states p u)\<rparr>"
proof -
  let ?at = "local_date now_millis (peer_states p u)" and ?s = "held_state D (receive_all D evs q) u"
  let ?p = "p\<lparr>peer_states := (peer_states p)(u \<mapsto> \<lparr>tls_lock_state = Locked, changed_at = ?at\<rparr>)\<rparr>"
  have "peer_driver (sync_user D u (call_driver (set_last_manual_lock D u ?at) ?p)) = set_last_manual_lock D u ?at (peer_driver p)"
    using sync_views(1) [of D u "call_driver (set_last_manual_lock D u ?at) ?p"] by (simp add: same_view_def)
  then have "peer_driver q = set_last_manual_lock D u ?at (peer_driver p)"
    by (simp add: q reload_def peer_create_def handle_device_event_def record_local_state_def Let_def)
  then have held: "held_state D q u = \<lparr>tls_lock_state = Locked, changed_at = ?at\<rparr>"
    using D by (simp add: held_state_def driver_ok_def) (simp add: q reload_def peer_create_def)
  note eff = receive_all_effect [OF D, of evs q u]
  have "freshness s \<le> freshness (held_state D q u)" if "s \<in> insert (held_state D q u) (accepted D u evs q)" for s
  proof -
    have "s = held_state D q u \<or> changed_at s \<le> ?at" using that old accepted_reports by blast
    then show ?thesis by (auto simp: held freshness_def word_le_nat_alt)
  qed
  then have "freshness ?s = freshness (held_state D q u)" using eff by (meson insertI1 order_antisym)
  then have "changed_at ?s = ?at" "is_locked (tls_lock_state ?s)" by (simp_all add: freshness_eq held)
  then show ?thesis by (cases ?s; cases "tls_lock_state ?s") simp_all
qed

theorem lock_survives_reload_witness:
  "held_state device_driver (receive_all device_driver [(lock_report DesktopRendererSource (unlock_example 4), 1)]
     (reload (snd (handle_device_event device_driver 5 (ManualLock 7) (device_peer None))))) 7
   = \<lparr>tls_lock_state = Locked, changed_at = 5\<rparr>"
proof -
  let ?evs = "[(lock_report DesktopRendererSource (unlock_example 4), 1 :: nat)]"
  have date: "local_date 5 (peer_states (device_peer None) 7) = 5"
    by (simp add: local_date_def device_peer_def set_destinations_def peer_create_def)
  have "\<forall>s \<in> reports 7 ?evs. changed_at s \<le> local_date 5 (peer_states (device_peer None) 7)"
    by (simp add: lock_report_def date unlock_example_def)
  from lock_survives_reload [OF device_driver_ok refl this] show ?thesis by (simp add: date)
qed

text \<open>C8: Shared unlock is scoped to the origin of a page.  If the vault URL of a user does not change
  and messages carry the origin of the page they come from, then in every reachable state of a peer
  every message that was ever sent to a page is about a user whose vault has the origin of that page;
  no other page is told about a user, let alone their key.\<close>

theorem pages_learn_only_their_users:
  assumes "\<forall>u d. get_vault_url D u d = url u" "(peer_step D origin_of)\<^sup>*\<^sup>* (peer_create d) p"
    and "(m, e) \<in> set (peer_sent p)" "of_endpoint e = WebClient"
  shows "url (sync_user_id m) = Some (origin_of e)"
proof -
  have "scoped url origin_of p"
    using assms(2)
  proof (induction rule: rtranclp_induct)
    case base
    show ?case by (simp add: scoped_def peer_create_def)
  next
    case (step p q)
    show ?case by (rule peer_step_scoped [OF assms(1) step(2,3)])
  qed
  then show ?thesis using assms(3,4) by (auto simp: scoped_def)
qed

theorem pages_learn_only_their_users_witness:
  "\<exists>p. (\<forall>u d. get_vault_url page_driver u d = page_url u)
     \<and> (peer_step page_driver page_origin)\<^sup>*\<^sup>* (peer_create page_device) p
     \<and> (\<lparr>sync_user_id = 7, sync_state = lock_example 9\<rparr>, Web 1 ''doc'') \<in> set (peer_sent p)
     \<and> page_url 7 = Some (page_origin (Web 1 ''doc''))"
proof -
  let ?m = "lock_report (WebSource 1 ''doc'' ''https://vault'') (lock_example 9)"
  let ?p = "snd (receive_message page_driver 1 ?m (device_peer None))"
  have "peer_step page_driver page_origin (peer_create page_device) (device_peer None)"
    unfolding device_peer_def page_device_def by (rule peer_step.configure)
  moreover have "peer_step page_driver page_origin (device_peer None) ?p"
    by (rule peer_step.receive) (simp add: lock_report_def page_origin_def)
  ultimately have reach: "(peer_step page_driver page_origin)\<^sup>*\<^sup>* (peer_create page_device) ?p"
    by (meson r_into_rtranclp rtranclp_trans)
  have sent: "(\<lparr>sync_user_id = 7, sync_state = lock_example 9\<rparr>, Web 1 ''doc'') \<in> set (peer_sent ?p)"
    by (simp add: receive_eq arrival_def afterwards_def admitted_def device_peer_def set_destinations_def peer_create_def
        is_destination_def origin_valid_def lock_report_def page_driver_def page_url_def device_driver_def target_from_source_def
        tracker_upsert_def apply_eq driven_def restored_state_def advertised_state_def supersedes_def lock_example_def
        or_insert_def relay_user_state_def record_remote_state_def record_remote_def sync_all_users_to_def
        sync_user_to_def may_sync_user_to_def peer_send_message_def Let_def)
  have url: "\<forall>u d. get_vault_url page_driver u d = page_url u" by (simp add: page_driver_def)
  have "page_url 7 = Some (page_origin (Web 1 ''doc''))"
    using pages_learn_only_their_users [OF url reach sent] by simp
  with url reach sent show ?thesis by blast
qed

text \<open>What a peer has recorded for a user never becomes older.  Each handler changes the recorded
  states through a sequence of accesses under the lock of the map; after any sequence of such
  accesses, also of several handlers that interleave, the date of a recorded state has not decreased,
  and a lock has not been replaced by an unlock of the same date unless the clock is at its end.\<close>

theorem recorded_never_older:
  "(peer_step D origin_of p q \<longrightarrow> record_step\<^sup>*\<^sup>* (peer_states p) (peer_states q))
   \<and> (record_step\<^sup>*\<^sup>* st st' \<and> st u = Some r \<longrightarrow> (\<exists>s. st' u = Some s \<and> changed_at r \<le> changed_at s
       \<and> (changed_at r = changed_at s \<and> changed_at r \<noteq> - 1 \<and> is_locked (tls_lock_state r) \<longrightarrow> is_locked (tls_lock_state s))))"
proof -
  have "\<exists>s. st' u = Some s \<and> not_older r s" if "record_step\<^sup>*\<^sup>* st st'" "st u = Some r"
    using that
  proof (induction rule: rtranclp_induct)
    case (step st1 st2)
    then show ?case using record_step_not_older not_older_trans by blast
  qed (simp add: not_older_def)
  then show ?thesis using peer_step_records [of D origin_of p q] unfolding not_older_def by blast
qed

theorem recorded_never_older_witness:
  "\<exists>s. record_remote 7 (unlock_example 9) [7 \<mapsto> lock_example 4] 7 = Some s \<and> changed_at (lock_example 4) \<le> changed_at s"
proof -
  have "record_step\<^sup>*\<^sup>* [7 \<mapsto> lock_example 4] (record_remote 7 (unlock_example 9) [7 \<mapsto> lock_example 4])"
    by (rule r_into_rtranclp) (rule record_step.remote)
  then show ?thesis
    using recorded_never_older [of device_driver "\<lambda>_. []" "device_peer None" "device_peer None" "[7 \<mapsto> lock_example 4]" _ 7 "lock_example 4"]
    by auto
qed

end
