(* ===== verification/Password_Generator.thy ===== *)
theory Password_Generator
  imports Prelude "HOL-Library.Char_ord" "HOL-Library.Multiset"
begin

text \<open>
  The password generator (\<open>crates/bitwarden-generators/src/password.rs\<close>).  A \<open>CharSet\<close> is a
  finite set of characters that is iterated in ascending order.  The random number generator is a
  parameter over its state \<open>'r\<close>: an index below a bound, and a shuffle, which must return a
  permutation.  Drawing from an empty set panics; it is \<open>None\<close>.  Text is a list of bytes, of
  which the filter for printable ASCII characters keeps the same characters as of the text.
\<close>

section \<open>Model\<close>

datatype password_error = NoCharacterSetEnabled | InvalidLength

record password_generator_request =
  lowercase :: bool
  uppercase :: bool
  numbers :: bool
  special :: bool
  request_length :: u8
  avoid_ambiguous :: bool
  min_lowercase :: "u8 option"
  min_uppercase :: "u8 option"
  min_number :: "u8 option"
  min_special :: "u8 option"
  custom_required_chars :: "string option"
  custom_allowed_chars :: "string option"
  max_consecutive :: "u8 option"

definition default_password_request :: password_generator_request where
  "default_password_request =
     \<lparr>lowercase = True, uppercase = True, numbers = True, special = False, request_length = 16, avoid_ambiguous = False,
      min_lowercase = None, min_uppercase = None, min_number = None, min_special = None,
      custom_required_chars = None, custom_allowed_chars = None, max_consecutive = None\<rparr>"

definition is_ascii_graphic :: "char \<Rightarrow> bool" where
  "is_ascii_graphic c \<longleftrightarrow> 33 \<le> (of_char c :: nat) \<and> (of_char c :: nat) \<le> 126"

text \<open>Characters that pass the filter, each at its first occurrence.\<close>

definition sanitize_custom_chars :: "string \<Rightarrow> char list" where
  "sanitize_custom_chars s = rev (remdups (rev (filter is_ascii_graphic s)))"

type_synonym char_set = "char set"

definition include_if :: "bool \<Rightarrow> char list \<Rightarrow> char_set \<Rightarrow> char_set" where
  "include_if predicate other self = (if predicate then self \<union> set other else self)"

definition exclude_if :: "bool \<Rightarrow> char list \<Rightarrow> char_set \<Rightarrow> char_set" where
  "exclude_if predicate other self = (if predicate then self - set other else self)"

definition UPPER_CHARS_AMBIGUOUS :: "char list" where
  "UPPER_CHARS_AMBIGUOUS = ''IO''"

definition LOWER_CHARS_AMBIGUOUS :: "char list" where
  "LOWER_CHARS_AMBIGUOUS = ''l''"

definition NUMBER_CHARS_AMBIGUOUS :: "char list" where
  "NUMBER_CHARS_AMBIGUOUS = ''01''"

definition SPECIAL_CHARS :: "char list" where
  "SPECIAL_CHARS = ''!@#$%^&*''"

record password_generator_options =
  opt_lower :: "char_set \<times> nat"
  opt_upper :: "char_set \<times> nat"
  opt_number :: "char_set \<times> nat"
  opt_special :: "char_set \<times> nat"
  opt_custom :: "char_set \<times> nat"
  opt_all :: "char_set \<times> nat"
  opt_length :: nat
  opt_max_consecutive :: "nat option"

definition get_minimum :: "u8 option \<Rightarrow> bool \<Rightarrow> nat" where
  "get_minimum least enabled =
     (if enabled then max (case least of Some m \<Rightarrow> unat m | None \<Rightarrow> 1) 1 else 0)"

definition validate_options :: "password_generator_request \<Rightarrow> (password_generator_options, password_error) result" where
  "validate_options self =
     (let custom_required = (case custom_required_chars self of Some s \<Rightarrow> sanitize_custom_chars s | None \<Rightarrow> []);
          custom_allowed = (case custom_allowed_chars self of Some s \<Rightarrow> sanitize_custom_chars s | None \<Rightarrow> [])
      in if \<not> lowercase self \<and> \<not> uppercase self \<and> \<not> numbers self \<and> \<not> special self
            \<and> custom_required = [] \<and> custom_allowed = []
         then Err NoCharacterSetEnabled
         else if request_length self < 4 then Err InvalidLength
         else
         let len = unat (request_length self);
             least_lowercase = get_minimum (min_lowercase self) (lowercase self);
             least_uppercase = get_minimum (min_uppercase self) (uppercase self);
             least_number = get_minimum (min_number self) (numbers self);
             least_special = get_minimum (min_special self) (special self);
             least_custom = (if custom_required = [] then 0 else 1);
             minimum_length = least_lowercase + least_uppercase + least_number + least_special + least_custom
         in if minimum_length > len then Err InvalidLength
            else
            let lower = exclude_if (avoid_ambiguous self) LOWER_CHARS_AMBIGUOUS
                          (include_if (lowercase self) ''abcdefghijklmnopqrstuvwxyz'' {});
                upper = exclude_if (avoid_ambiguous self) UPPER_CHARS_AMBIGUOUS
                          (include_if (uppercase self) ''ABCDEFGHIJKLMNOPQRSTUVWXYZ'' {});
                number = exclude_if (avoid_ambiguous self) NUMBER_CHARS_AMBIGUOUS
                          (include_if (numbers self) ''0123456789'' {});
                specials = include_if (special self) SPECIAL_CHARS {};
                custom = include_if True custom_required {};
                all_chars = include_if True custom_allowed (lower \<union> upper \<union> number \<union> specials \<union> custom)
            in and_then
                 (case max_consecutive self of
                    None \<Rightarrow> Ok None
                  | Some n \<Rightarrow> if n = 0 then Err InvalidLength else Ok (Some (unat n))) (\<lambda>limit.
               Ok \<lparr>opt_lower = (lower, least_lowercase), opt_upper = (upper, least_uppercase),
                   opt_number = (number, least_number), opt_special = (specials, least_special),
                   opt_custom = (custom, least_custom), opt_all = (all_chars, len - minimum_length),
                   opt_length = len, opt_max_consecutive = limit\<rparr>))"

record 'r password_rng =
  random_range :: "nat \<Rightarrow> 'r \<Rightarrow> nat \<times> 'r"
  shuffle :: "char list \<Rightarrow> 'r \<Rightarrow> char list \<times> 'r"

text \<open>The laws of the generator: an index below the bound, and a permutation.\<close>

definition rng_ok :: "'r password_rng \<Rightarrow> bool" where
  "rng_ok R \<longleftrightarrow> (\<forall>n r. 0 < n \<longrightarrow> fst (random_range R n r) < n) \<and> (\<forall>xs r. mset (fst (shuffle R xs r)) = mset xs)"

definition sample :: "'r password_rng \<Rightarrow> char_set \<Rightarrow> 'r \<Rightarrow> (char \<times> 'r) option" where
  "sample R self rng =
     (if self = {} then None
      else let (idx, rng) = random_range R (card self) rng in Some (sorted_list_of_set self ! idx, rng))"

text \<open>\<open>sample_iter(rng).take(qty)\<close>\<close>

fun sample_take :: "'r password_rng \<Rightarrow> char_set \<Rightarrow> nat \<Rightarrow> 'r \<Rightarrow> (char list \<times> 'r) option" where
  "sample_take R self 0 rng = Some ([], rng)"
| "sample_take R self (Suc n) rng =
     Option.bind (sample R self rng) (\<lambda>(c, rng). map_option (\<lambda>(cs, rng). (c # cs, rng)) (sample_take R self n rng))"

fun fill_buffer :: "'r password_rng \<Rightarrow> (char_set \<times> nat) list \<Rightarrow> char list \<Rightarrow> 'r \<Rightarrow> (char list \<times> 'r) option" where
  "fill_buffer R [] buf rng = Some (buf, rng)"
| "fill_buffer R ((cs, qty) # opts) buf rng =
     Option.bind (sample_take R cs qty rng) (\<lambda>(drawn, rng). fill_buffer R opts (buf @ drawn) rng)"

text \<open>The loop over the windows of two characters.\<close>

fun exceeds_run :: "nat \<Rightarrow> nat \<Rightarrow> char list \<Rightarrow> bool" where
  "exceeds_run limit n (a # b # rest) =
     (if a = b then (if n + 1 > limit then True else exceeds_run limit (n + 1) (b # rest))
      else exceeds_run limit 1 (b # rest))"
| "exceeds_run limit n _ = False"

definition violates_max_consecutive :: "char list \<Rightarrow> nat \<Rightarrow> bool" where
  "violates_max_consecutive buf limit =
     (if limit = 0 \<or> length buf \<le> limit then False else exceeds_run limit 1 buf)"

definition swap :: "nat \<Rightarrow> nat \<Rightarrow> 'a list \<Rightarrow> 'a list" where
  "swap i j xs = xs[i := xs ! j, j := xs ! i]"

function repair_loop :: "nat \<Rightarrow> nat \<Rightarrow> nat \<Rightarrow> char list \<Rightarrow> char list" where
  "repair_loop limit n i buf =
     (if i \<ge> length buf then buf
      else if buf ! i = buf ! (i - 1) then
        (if n + 1 > limit then
           (case find (\<lambda>k. buf ! k \<noteq> buf ! i \<and> (k + 1 = length buf \<or> buf ! (k + 1) \<noteq> buf ! i)) [i + 1..<length buf] of
              Some j \<Rightarrow> repair_loop limit 1 (i + 1) (swap i j buf)
            | None \<Rightarrow> buf)
         else repair_loop limit (n + 1) (i + 1) buf)
      else repair_loop limit 1 (i + 1) buf)"
  by pat_completeness auto
termination
  by (relation "measure (\<lambda>(limit, n, i, buf). length buf - i)") (auto simp: swap_def)

declare repair_loop.simps [simp del]

definition repair_consecutive :: "char list \<Rightarrow> nat \<Rightarrow> char list" where
  "repair_consecutive buf limit =
     (if limit = 0 \<or> length buf \<le> limit then buf else repair_loop limit 1 1 buf)"

text \<open>The loop that shuffles again, at most \<open>tries\<close> more times.\<close>

fun reshuffle :: "'r password_rng \<Rightarrow> nat \<Rightarrow> nat \<Rightarrow> char list \<Rightarrow> 'r \<Rightarrow> char list \<times> 'r" where
  "reshuffle R limit 0 buf rng = (buf, rng)"
| "reshuffle R limit (Suc tries) buf rng =
     (if violates_max_consecutive buf limit
      then let (buf, rng) = shuffle R buf rng in reshuffle R limit tries buf rng
      else (buf, rng))"

definition MAX_RESHUFFLES :: nat where
  "MAX_RESHUFFLES = 16"

definition password_with_rng :: "'r password_rng \<Rightarrow> 'r \<Rightarrow> password_generator_options \<Rightarrow> string option" where
  "password_with_rng R rng options =
     Option.bind (fill_buffer R [opt_all options, opt_upper options, opt_lower options, opt_number options,
         opt_special options, opt_custom options] [] rng) (\<lambda>(buf, rng).
     let (buf, rng) = shuffle R buf rng
     in case opt_max_consecutive options of
          None \<Rightarrow> Some buf
        | Some limit \<Rightarrow>
            (let (buf, rng) = reshuffle R limit MAX_RESHUFFLES buf rng
             in Some (if violates_max_consecutive buf limit then repair_consecutive buf limit else buf)))"

text \<open>The generator; an error, or \<open>None\<close> for a panic.\<close>

definition password :: "'r password_rng \<Rightarrow> 'r \<Rightarrow> password_generator_request \<Rightarrow> (string option, password_error) result" where
  "password R rng input = map_ok (password_with_rng R rng) (validate_options input)"


section \<open>Specification vocabulary\<close>

text \<open>A run of more than \<open>limit\<close> equal characters.\<close>

definition has_long_run :: "char list \<Rightarrow> nat \<Rightarrow> bool" where
  "has_long_run xs limit \<longleftrightarrow> (\<exists>us c vs. xs = us @ replicate (Suc limit) c @ vs)"

text \<open>The run that a repair leaves: the characters before \<open>i\<close> have no long run, and after \<open>i\<close> every
  other character is followed by the character at \<open>i\<close>.\<close>

definition stuck_run :: "nat \<Rightarrow> char list \<Rightarrow> bool" where
  "stuck_run limit xs \<longleftrightarrow> (\<exists>i < length xs. \<not> has_long_run (take i xs) limit
     \<and> (\<forall>k. i < k \<and> k < length xs \<and> xs ! k \<noteq> xs ! i \<longrightarrow> k + 1 < length xs \<and> xs ! (k + 1) = xs ! i))"

text \<open>The characters before \<open>i\<close> have no long run and end with \<open>n\<close> equal ones.\<close>

definition tail_run :: "nat \<Rightarrow> nat \<Rightarrow> nat \<Rightarrow> char list \<Rightarrow> bool" where
  "tail_run limit n i buf \<longleftrightarrow> 0 < n \<and> n \<le> limit \<and> 0 < i \<and> i \<le> length buf
     \<and> (\<exists>rest. rev (take i buf) = replicate n (buf ! (i - 1)) @ rest
          \<and> (rest = [] \<or> hd rest \<noteq> buf ! (i - 1)) \<and> \<not> has_long_run rest limit)"

text \<open>The characters that a request asks for, by kind, and the length that its minimums need.\<close>

definition lower_chars :: "password_generator_request \<Rightarrow> char set" where
  "lower_chars req = (if lowercase req
     then set ''abcdefghijklmnopqrstuvwxyz'' - (if avoid_ambiguous req then set ''l'' else {}) else {})"

definition upper_chars :: "password_generator_request \<Rightarrow> char set" where
  "upper_chars req = (if uppercase req
     then set ''ABCDEFGHIJKLMNOPQRSTUVWXYZ'' - (if avoid_ambiguous req then set ''IO'' else {}) else {})"

definition number_chars :: "password_generator_request \<Rightarrow> char set" where
  "number_chars req = (if numbers req then set ''0123456789'' - (if avoid_ambiguous req then set ''01'' else {}) else {})"

definition special_chars :: "password_generator_request \<Rightarrow> char set" where
  "special_chars req = (if special req then set ''!@#$%^&*'' else {})"

definition custom_chars :: "string option \<Rightarrow> char set" where
  "custom_chars s = (case s of None \<Rightarrow> {} | Some s \<Rightarrow> {c \<in> set s. is_ascii_graphic c})"

definition requested_chars :: "password_generator_request \<Rightarrow> char set" where
  "requested_chars req = lower_chars req \<union> upper_chars req \<union> number_chars req \<union> special_chars req
     \<union> custom_chars (custom_required_chars req) \<union> custom_chars (custom_allowed_chars req)"

definition required_length :: "password_generator_request \<Rightarrow> nat" where
  "required_length req = get_minimum (min_lowercase req) (lowercase req) + get_minimum (min_uppercase req) (uppercase req)
     + get_minimum (min_number req) (numbers req) + get_minimum (min_special req) (special req)
     + (if custom_chars (custom_required_chars req) = {} then 0 else 1)"

definition count_in :: "char set \<Rightarrow> string \<Rightarrow> nat" where
  "count_in A s = length (filter (\<lambda>c. c \<in> A) s)"

text \<open>A generator that always draws the first character and leaves the order.\<close>

definition first_rng :: "unit password_rng" where
  "first_rng = \<lparr>random_range = (\<lambda>_ r. (0, r)), shuffle = (\<lambda>xs r. (xs, r))\<rparr>"


section \<open>Runs\<close>

lemma mset_swap: "i < length xs \<Longrightarrow> j < length xs \<Longrightarrow> mset (swap i j xs) = mset xs"
  by (simp add: swap_def mset_swap)

lemma repair_loop_mset: "mset (repair_loop limit n i buf) = mset buf"
proof (induction limit n i buf rule: repair_loop.induct)
  case (1 limit n i buf)
  let ?find = "find (\<lambda>k. buf ! k \<noteq> buf ! i \<and> (k + 1 = length buf \<or> buf ! (k + 1) \<noteq> buf ! i)) [i + 1..<length buf]"
  have swapped: "mset (swap i j buf) = mset buf" if "?find = Some j" "i < length buf" for j
    using that by (intro mset_swap) (auto simp: find_Some_iff)
  show ?case
    using 1 swapped by (cases ?find) (auto simp: repair_loop.simps [of limit n i buf])
qed

lemma repair_mset: "mset (repair_consecutive buf limit) = mset buf"
  by (simp add: repair_consecutive_def repair_loop_mset)

lemma reshuffle_mset: "rng_ok R \<Longrightarrow> mset (fst (reshuffle R limit tries buf rng)) = mset buf"
proof (induction tries arbitrary: buf rng)
  case (Suc tries)
  then show ?case by (auto simp: rng_ok_def split: prod.splits) (metis fst_conv)
qed simp

lemma long_run_Cons:
  "has_long_run (x # xs) limit \<longleftrightarrow> take (Suc limit) (x # xs) = replicate (Suc limit) x \<or> has_long_run xs limit"
proof
  assume "has_long_run (x # xs) limit"
  then obtain us c vs where eq: "x # xs = us @ replicate (Suc limit) c @ vs" by (auto simp: has_long_run_def)
  show "take (Suc limit) (x # xs) = replicate (Suc limit) x \<or> has_long_run xs limit"
  proof (cases us)
    case Nil
    then show ?thesis using eq by (simp add: append_eq_conv_conj)
  next
    case (Cons u us')
    then show ?thesis using eq by (auto simp: has_long_run_def)
  qed
next
  assume "take (Suc limit) (x # xs) = replicate (Suc limit) x \<or> has_long_run xs limit"
  then show "has_long_run (x # xs) limit"
  proof
    assume "take (Suc limit) (x # xs) = replicate (Suc limit) x"
    then have "x # xs = [] @ replicate (Suc limit) x @ drop (Suc limit) (x # xs)" by (metis append_Nil append_take_drop_id)
    then show ?thesis unfolding has_long_run_def by blast
  next
    assume "has_long_run xs limit"
    then show ?thesis unfolding has_long_run_def by (metis append_Cons)
  qed
qed

lemma long_run_skip:
  "a \<noteq> b \<Longrightarrow> n \<le> limit \<Longrightarrow> has_long_run (replicate n a @ b # rest) limit \<longleftrightarrow> has_long_run (b # rest) limit"
proof (induction n)
  case (Suc n)
  have "take (Suc limit) (replicate (Suc n) a @ b # rest) ! Suc n = b" using Suc.prems by (simp add: nth_append)
  then have "take (Suc limit) (replicate (Suc n) a @ b # rest) \<noteq> replicate (Suc limit) a"
    using Suc.prems by (metis Suc_le_eq le_imp_less_Suc nth_replicate)
  then show ?case using Suc by (simp add: long_run_Cons [of a "replicate n a @ b # rest"] del: take_Suc_Cons)
qed simp

lemma exceeds_run_iff:
  "1 \<le> n \<Longrightarrow> n \<le> limit \<Longrightarrow> exceeds_run limit n (a # xs) \<longleftrightarrow> has_long_run (replicate n a @ xs) limit"
proof (induction xs arbitrary: n a)
  case Nil
  then show ?case by (auto simp: has_long_run_def dest: arg_cong [of _ _ length])
next
  case (Cons b xs)
  show ?case
  proof (cases "a = b")
    case False
    then show ?thesis using Cons.IH [of 1 b] Cons.prems long_run_skip [OF False Cons.prems(2)] by simp
  next
    case same: True
    have shift: "replicate n a @ b # xs = replicate (Suc n) a @ xs" by (simp add: same replicate_append_same)
    show ?thesis
    proof (cases "n + 1 > limit")
      case True
      then have "has_long_run (replicate (Suc n) a @ xs) limit"
        using Cons.prems unfolding has_long_run_def by (intro exI [of _ "[]"] exI [of _ a] exI [of _ xs]) simp
      then show ?thesis using same True unfolding shift by simp
    next
      case False
      then show ?thesis using same Cons.IH [of "Suc n" b] unfolding shift by simp
    qed
  qed
qed

lemma violates_iff: "0 < limit \<Longrightarrow> violates_max_consecutive buf limit \<longleftrightarrow> has_long_run buf limit"
proof (cases buf)
  case Nil
  then show ?thesis by (simp add: violates_max_consecutive_def has_long_run_def)
next
  case (Cons a xs)
  assume "0 < limit"
  moreover have "has_long_run buf limit \<Longrightarrow> limit < length buf" by (auto simp: has_long_run_def)
  ultimately show ?thesis using exceeds_run_iff [of 1 limit a xs]
    by (auto simp: violates_max_consecutive_def Cons)
qed


section \<open>Repair\<close>

lemma long_run_rev: "has_long_run (rev xs) limit \<longleftrightarrow> has_long_run xs limit"
proof -
  have "has_long_run ys limit \<Longrightarrow> has_long_run (rev ys) limit" for ys
    unfolding has_long_run_def by (metis append.assoc rev_append rev_replicate)
  from this [of xs] this [of "rev xs"] show ?thesis by auto
qed

lemma long_run_short: "length xs \<le> limit \<Longrightarrow> \<not> has_long_run xs limit"
  by (auto simp: has_long_run_def)

lemma no_long_run_head:
  assumes "n \<le> limit" "rest = [] \<or> hd rest \<noteq> c" "\<not> has_long_run rest limit"
  shows "\<not> has_long_run (replicate n c @ rest) limit"
proof (cases rest)
  case Nil
  then show ?thesis using assms(1) by (simp add: long_run_short)
next
  case (Cons b bs)
  then show ?thesis using long_run_skip [of c b n limit bs] assms by auto
qed

lemma tail_run_prefix: "tail_run limit n i buf \<Longrightarrow> \<not> has_long_run (take i buf) limit"
  unfolding tail_run_def by (metis long_run_rev no_long_run_head)

lemma tail_run_start: "0 < limit \<Longrightarrow> limit < length buf \<Longrightarrow> tail_run limit 1 1 buf"
  by (cases buf) (auto simp: tail_run_def long_run_short)

lemma tail_run_same:
  assumes "tail_run limit n i buf" "i < length buf" "buf ! i = buf ! (i - 1)" "n + 1 \<le> limit"
  shows "tail_run limit (n + 1) (i + 1) buf"
  using assms by (auto simp: tail_run_def take_Suc_conv_app_nth)

lemma tail_run_next:
  assumes "tail_run limit n i buf" "take i buf' = take i buf" "i < length buf'" "buf' ! i \<noteq> buf ! (i - 1)"
  shows "tail_run limit 1 (i + 1) buf'"
proof -
  obtain rest where rest: "rev (take i buf) = replicate n (buf ! (i - 1)) @ rest" "0 < n" "n \<le> limit"
    using assms(1) by (auto simp: tail_run_def)
  have "hd (rev (take i buf)) = buf ! (i - 1)" using rest by (cases n) auto
  moreover have "\<not> has_long_run (rev (take i buf)) limit" using tail_run_prefix [OF assms(1)] by (simp add: long_run_rev)
  ultimately show ?thesis using assms rest(2,3)
    by (auto simp: tail_run_def take_Suc_conv_app_nth intro!: exI [of _ "rev (take i buf)"])
qed

lemma tail_run_other:
  "tail_run limit n i buf \<Longrightarrow> i < length buf \<Longrightarrow> buf ! i \<noteq> buf ! (i - 1) \<Longrightarrow> tail_run limit 1 (i + 1) buf"
  by (rule tail_run_next) simp_all

lemma tail_run_swap:
  assumes "tail_run limit n i buf" "i < j" "j < length buf" "buf ! j \<noteq> buf ! i" "buf ! i = buf ! (i - 1)"
  shows "tail_run limit 1 (i + 1) (swap i j buf)"
  by (rule tail_run_next [OF assms(1)]) (use assms in \<open>auto simp: swap_def nth_list_update\<close>)

lemma repair_loop_stops:
  assumes "tail_run limit n i buf"
  shows "\<not> has_long_run (repair_loop limit n i buf) limit \<or> stuck_run limit (repair_loop limit n i buf)"
  using assms
proof (induction limit n i buf rule: repair_loop.induct)
  case (1 limit n i buf)
  note run = "1.prems"
  show ?case
  proof (cases "i < length buf")
    case False
    then show ?thesis using tail_run_prefix [OF run] by (simp add: repair_loop.simps)
  next
    case inside: True
    show ?thesis
    proof (cases "buf ! i = buf ! (i - 1)")
      case False
      then show ?thesis using inside "1.IH"(3) [OF _ False] tail_run_other [OF run inside False]
        by (simp add: repair_loop.simps [of limit n i])
    next
      case same: True
      show ?thesis
      proof (cases "n + 1 > limit")
        case False
        then show ?thesis using inside same "1.IH"(2) [OF _ same False] tail_run_same [OF run inside same]
          by (simp add: repair_loop.simps [of limit n i])
      next
        case long: True
        let ?P = "\<lambda>k. buf ! k \<noteq> buf ! i \<and> (k + 1 = length buf \<or> buf ! (k + 1) \<noteq> buf ! i)"
        show ?thesis
        proof (cases "find ?P [i + 1..<length buf]")
          case None
          have "repair_loop limit n i buf = buf"
            by (subst repair_loop.simps, subst None) (use inside same long in simp)
          then show ?thesis using inside tail_run_prefix [OF run] None
            by (auto simp: find_None_iff stuck_run_def intro!: exI [of _ i])
        next
          case (Some j)
          then have j: "i < j" "j < length buf" "buf ! j \<noteq> buf ! i"
            by (auto simp: find_Some_iff)
          have "repair_loop limit n i buf = repair_loop limit 1 (i + 1) (swap i j buf)"
            by (subst repair_loop.simps, subst Some) (use inside same long in simp)
          then show ?thesis using "1.IH"(1) [OF _ same long Some] tail_run_swap [OF run j same] inside by simp
        qed
      qed
    qed
  qed
qed

lemma repair_stops:
  "0 < limit \<Longrightarrow> \<not> has_long_run (repair_consecutive buf limit) limit \<or> stuck_run limit (repair_consecutive buf limit)"
  using repair_loop_stops [OF tail_run_start, of limit buf]
  by (auto simp: repair_consecutive_def long_run_short)


section \<open>Drawing\<close>

lemma sample_take_Some:
  assumes "rng_ok R" "finite A" "0 < n \<longrightarrow> A \<noteq> {}"
  shows "\<exists>cs rng'. sample_take R A n rng = Some (cs, rng') \<and> length cs = n \<and> set cs \<subseteq> A"
  using assms(3)
proof (induction n arbitrary: rng)
  case (Suc n)
  obtain i rng1 where i: "random_range R (card A) rng = (i, rng1)" by fastforce
  have "0 < card A" using Suc.prems assms(2) by (simp add: card_gt_0_iff)
  then have "i < card A" using assms(1) i unfolding rng_ok_def by (metis fst_conv)
  then have "sorted_list_of_set A ! i \<in> A" using assms(2) by (metis length_sorted_list_of_set nth_mem set_sorted_list_of_set)
  moreover obtain cs rng2 where "sample_take R A n rng1 = Some (cs, rng2)" "length cs = n" "set cs \<subseteq> A"
    using Suc by blast
  ultimately show ?case using Suc.prems i by (simp add: sample_def)
qed simp

lemma fill_buffer_Some:
  assumes "rng_ok R" "\<forall>(A, n) \<in> set opts. finite A \<and> (0 < n \<longrightarrow> A \<noteq> {})"
  shows "\<exists>drawn rng'. fill_buffer R opts buf rng = Some (buf @ concat drawn, rng')
     \<and> list_all2 (\<lambda>cs (A, n). length cs = n \<and> set cs \<subseteq> A) drawn opts"
  using assms(2)
proof (induction opts arbitrary: buf rng)
  case (Cons opt opts)
  obtain A n where opt: "opt = (A, n)" by (cases opt)
  obtain cs rng1 where cs: "sample_take R A n rng = Some (cs, rng1)" "length cs = n" "set cs \<subseteq> A"
    using sample_take_Some [OF assms(1), of A n rng] Cons.prems by (auto simp: opt)
  obtain drawn rng2 where "fill_buffer R opts (buf @ cs) rng1 = Some ((buf @ cs) @ concat drawn, rng2)"
    "list_all2 (\<lambda>cs (A, n). length cs = n \<and> set cs \<subseteq> A) drawn opts"
    using Cons.IH [of "buf @ cs" rng1] Cons.prems by auto
  then show ?case using cs by (intro exI [of _ "cs # drawn"] exI [of _ rng2]) (simp add: opt)
qed simp

lemma password_with_rng_Some:
  assumes "rng_ok R" "\<forall>(A, n) \<in> {opt_all os, opt_upper os, opt_lower os, opt_number os, opt_special os, opt_custom os}.
     finite A \<and> (0 < n \<longrightarrow> A \<noteq> {})"
  obtains s ds where "password_with_rng R rng os = Some s" "mset s = mset (concat ds)"
    "list_all2 (\<lambda>cs (A, n). length cs = n \<and> set cs \<subseteq> A) ds
       [opt_all os, opt_upper os, opt_lower os, opt_number os, opt_special os, opt_custom os]"
    "\<forall>limit. opt_max_consecutive os = Some limit \<and> 0 < limit \<longrightarrow> \<not> has_long_run s limit \<or> stuck_run limit s"
proof -
  obtain ds rng1 where fill: "fill_buffer R [opt_all os, opt_upper os, opt_lower os, opt_number os, opt_special os, opt_custom os] [] rng
      = Some (concat ds, rng1)" and ds: "list_all2 (\<lambda>cs (A, n). length cs = n \<and> set cs \<subseteq> A) ds
       [opt_all os, opt_upper os, opt_lower os, opt_number os, opt_special os, opt_custom os]"
    using fill_buffer_Some [OF assms(1), of "[opt_all os, opt_upper os, opt_lower os, opt_number os, opt_special os, opt_custom os]" "[]" rng]
      assms(2) by auto
  obtain b rng2 where b: "shuffle R (concat ds) rng1 = (b, rng2)" "mset b = mset (concat ds)"
    using assms(1) unfolding rng_ok_def by (metis prod.collapse)
  let ?ok = "\<lambda>s. mset s = mset (concat ds)
    \<and> (\<forall>limit. opt_max_consecutive os = Some limit \<and> 0 < limit \<longrightarrow> \<not> has_long_run s limit \<or> stuck_run limit s)"
  have "\<exists>s. password_with_rng R rng os = Some s \<and> ?ok s"
  proof (cases "opt_max_consecutive os")
    case None
    then show ?thesis using fill b by (simp add: password_with_rng_def)
  next
    case (Some limit)
    obtain b' rng3 where b': "reshuffle R limit MAX_RESHUFFLES b rng2 = (b', rng3)" by fastforce
    then have "mset b' = mset b" using reshuffle_mset [OF assms(1), of limit MAX_RESHUFFLES b rng2] by simp
    then show ?thesis using fill b b' Some violates_iff [of limit b'] repair_stops [of limit b']
      by (auto simp: password_with_rng_def repair_mset)
  qed
  then show thesis using that ds by blast
qed


section \<open>Requests\<close>

lemma set_sanitize: "set (sanitize_custom_chars s) = {c \<in> set s. is_ascii_graphic c}"
  by (auto simp: sanitize_custom_chars_def)

lemma sanitize_empty: "sanitize_custom_chars s = [] \<longleftrightarrow> {c \<in> set s. is_ascii_graphic c} = {}"
  using set_sanitize [of s] by (metis set_empty)

lemma kinds_empty:
  "lower_chars req = {} \<longleftrightarrow> \<not> lowercase req" "upper_chars req = {} \<longleftrightarrow> \<not> uppercase req"
  "number_chars req = {} \<longleftrightarrow> \<not> numbers req" "special_chars req = {} \<longleftrightarrow> \<not> special req"
proof -
  have "lowercase req \<Longrightarrow> CHR ''a'' \<in> lower_chars req" "uppercase req \<Longrightarrow> CHR ''A'' \<in> upper_chars req"
    "numbers req \<Longrightarrow> CHR ''2'' \<in> number_chars req" "special req \<Longrightarrow> CHR ''!'' \<in> special_chars req"
    by (simp_all add: lower_chars_def upper_chars_def number_chars_def special_chars_def)
  then show "lower_chars req = {} \<longleftrightarrow> \<not> lowercase req" "upper_chars req = {} \<longleftrightarrow> \<not> uppercase req"
    "number_chars req = {} \<longleftrightarrow> \<not> numbers req" "special_chars req = {} \<longleftrightarrow> \<not> special req"
    by (auto simp: lower_chars_def upper_chars_def number_chars_def special_chars_def simp del: list.set)
qed

lemma requested_chars_empty:
  "requested_chars req = {} \<longleftrightarrow> \<not> lowercase req \<and> \<not> uppercase req \<and> \<not> numbers req \<and> \<not> special req
     \<and> custom_chars (custom_required_chars req) = {} \<and> custom_chars (custom_allowed_chars req) = {}"
  by (simp add: requested_chars_def kinds_empty)

lemma kinds_finite:
  "finite (lower_chars req)" "finite (upper_chars req)" "finite (number_chars req)" "finite (special_chars req)"
  "finite (custom_chars cs)" "finite (requested_chars req)"
  by (simp_all add: lower_chars_def upper_chars_def number_chars_def special_chars_def custom_chars_def
      requested_chars_def del: list.set split: option.split)

lemma validate_options_cases:
  "validate_options req =
     (if requested_chars req = {} then Err NoCharacterSetEnabled
      else if request_length req < 4 \<or> unat (request_length req) < required_length req \<or> max_consecutive req = Some 0
      then Err InvalidLength
      else Ok \<lparr>opt_lower = (lower_chars req, get_minimum (min_lowercase req) (lowercase req)),
               opt_upper = (upper_chars req, get_minimum (min_uppercase req) (uppercase req)),
               opt_number = (number_chars req, get_minimum (min_number req) (numbers req)),
               opt_special = (special_chars req, get_minimum (min_special req) (special req)),
               opt_custom = (custom_chars (custom_required_chars req), if custom_chars (custom_required_chars req) = {} then 0 else 1),
               opt_all = (requested_chars req, unat (request_length req) - required_length req),
               opt_length = unat (request_length req), opt_max_consecutive = map_option unat (max_consecutive req)\<rparr>)"
proof -
  have custom: "(case s of Some s \<Rightarrow> sanitize_custom_chars s | None \<Rightarrow> []) = [] \<longleftrightarrow> custom_chars s = {}"
    "set (case s of Some s \<Rightarrow> sanitize_custom_chars s | None \<Rightarrow> []) = custom_chars s" for s
    by (cases s; auto simp: custom_chars_def sanitize_empty set_sanitize)+
  have sets: "exclude_if (avoid_ambiguous req) LOWER_CHARS_AMBIGUOUS (include_if (lowercase req) ''abcdefghijklmnopqrstuvwxyz'' {}) = lower_chars req"
    "exclude_if (avoid_ambiguous req) UPPER_CHARS_AMBIGUOUS (include_if (uppercase req) ''ABCDEFGHIJKLMNOPQRSTUVWXYZ'' {}) = upper_chars req"
    "exclude_if (avoid_ambiguous req) NUMBER_CHARS_AMBIGUOUS (include_if (numbers req) ''0123456789'' {}) = number_chars req"
    "include_if (special req) SPECIAL_CHARS {} = special_chars req"
    by (simp_all add: exclude_if_def include_if_def LOWER_CHARS_AMBIGUOUS_def UPPER_CHARS_AMBIGUOUS_def
        NUMBER_CHARS_AMBIGUOUS_def SPECIAL_CHARS_def lower_chars_def upper_chars_def number_chars_def special_chars_def
        del: list.set)
  show ?thesis
    unfolding validate_options_def Let_def sets requested_chars_empty custom
    by (simp add: include_if_def custom required_length_def requested_chars_def split: option.split)
qed

lemma count_in_mset: "count_in A s = size {#c \<in># mset s. c \<in> A#}"
  by (simp add: count_in_def flip: mset_filter)

lemma count_in_concat: "cs \<in> set ds \<Longrightarrow> set cs \<subseteq> A \<Longrightarrow> length cs \<le> count_in A (concat ds)"
  by (induction ds) (auto simp: count_in_def filter_id_conv subset_iff intro: le_trans)

lemma get_minimum_pos: "0 < get_minimum m enabled \<longleftrightarrow> enabled"
  by (auto simp: get_minimum_def less_max_iff_disj)


section \<open>Generated passwords\<close>

text \<open>C16: The password generator answers every request, and never panics. It refuses a request with
  \<open>NoCharacterSetEnabled\<close> exactly when the request asks for no character at all. Otherwise it
  refuses with \<open>InvalidLength\<close> exactly when the length is below four, or below the sum of the
  minimums, or the limit on runs is zero. Else the password has the requested length, consists of
  requested characters only, has at least the minimum number of each enabled kind and a required
  custom character if there are any. If there is a limit on runs of equal characters, the password
  obeys it, except for a part that the final repair cannot separate: there every other character is
  followed by the repeated one.\<close>

theorem password_meets_request:
  assumes "rng_ok R"
  shows "if requested_chars req = {} then password R rng req = Err NoCharacterSetEnabled
    else if request_length req < 4 \<or> unat (request_length req) < required_length req \<or> max_consecutive req = Some 0
    then password R rng req = Err InvalidLength
    else \<exists>s. password R rng req = Ok (Some s)
        \<and> length s = unat (request_length req)
        \<and> set s \<subseteq> requested_chars req
        \<and> get_minimum (min_lowercase req) (lowercase req) \<le> count_in (lower_chars req) s
        \<and> get_minimum (min_uppercase req) (uppercase req) \<le> count_in (upper_chars req) s
        \<and> get_minimum (min_number req) (numbers req) \<le> count_in (number_chars req) s
        \<and> get_minimum (min_special req) (special req) \<le> count_in (special_chars req) s
        \<and> (custom_chars (custom_required_chars req) \<noteq> {} \<longrightarrow> 1 \<le> count_in (custom_chars (custom_required_chars req)) s)
        \<and> (\<forall>limit. max_consecutive req = Some limit
              \<longrightarrow> \<not> has_long_run s (unat limit) \<or> stuck_run (unat limit) s)"
proof (cases "requested_chars req = {} \<or> request_length req < 4 \<or> unat (request_length req) < required_length req
    \<or> max_consecutive req = Some 0")
  case True
  then show ?thesis by (auto simp: password_def result_simps validate_options_cases)
next
  case valid: False
  then obtain os where Ok: "validate_options req = Ok os" by (auto simp: validate_options_cases)
  from Ok have os: "opt_lower os = (lower_chars req, get_minimum (min_lowercase req) (lowercase req))"
    "opt_upper os = (upper_chars req, get_minimum (min_uppercase req) (uppercase req))"
    "opt_number os = (number_chars req, get_minimum (min_number req) (numbers req))"
    "opt_special os = (special_chars req, get_minimum (min_special req) (special req))"
    "opt_custom os = (custom_chars (custom_required_chars req), if custom_chars (custom_required_chars req) = {} then 0 else 1)"
    "opt_all os = (requested_chars req, unat (request_length req) - required_length req)"
    "opt_max_consecutive os = map_option unat (max_consecutive req)"
    by (auto simp: validate_options_cases split: if_splits)
  have "\<forall>(A, n) \<in> {opt_all os, opt_upper os, opt_lower os, opt_number os, opt_special os, opt_custom os}.
     finite A \<and> (0 < n \<longrightarrow> A \<noteq> {})"
    using valid by (auto simp: os kinds_finite kinds_empty get_minimum_pos)
  then obtain s ds where s: "password_with_rng R rng os = Some s" "mset s = mset (concat ds)"
    and ds: "list_all2 (\<lambda>cs (A, n). length cs = n \<and> set cs \<subseteq> A) ds
       [opt_all os, opt_upper os, opt_lower os, opt_number os, opt_special os, opt_custom os]"
    and run: "\<forall>limit. opt_max_consecutive os = Some limit \<and> 0 < limit \<longrightarrow> \<not> has_long_run s limit \<or> stuck_run limit s"
    using password_with_rng_Some [OF assms, of os rng] by blast
  obtain ca cu cl cn cp cc where cs: "ds = [ca, cu, cl, cn, cp, cc]"
    using ds by (auto simp: list_all2_Cons2)
  have len: "length s = length (concat ds)" and mem: "set s = set (concat ds)"
    using s(2) by (metis size_mset, metis set_mset_mset)
  have count: "length c \<le> count_in A s" if "c \<in> set ds" "set c \<subseteq> A" for c A
    using count_in_concat [OF that] by (simp only: count_in_mset s(2))
  have custom: "custom_chars (custom_required_chars req) \<noteq> {} \<longrightarrow> 1 \<le> count_in (custom_chars (custom_required_chars req)) s"
    using ds count [of cc "custom_chars (custom_required_chars req)"] by (intro impI) (simp add: os cs)
  have "unat l > 0" if "max_consecutive req = Some l" for l using valid that by (auto simp: unat_gt_0)
  then show ?thesis
    using valid ds run count [of cu] count [of cl] count [of cn] count [of cp] custom len mem
    by (auto simp: password_def Ok result_simps s(1) os cs required_length_def requested_chars_def)
qed

theorem password_meets_request_witness:
  "rng_ok first_rng
   \<and> (\<exists>s. password first_rng () (default_password_request\<lparr>request_length := 5, max_consecutive := Some 2\<rparr>) = Ok (Some s)
        \<and> length s = 5 \<and> (\<not> has_long_run s 2 \<or> stuck_run 2 s))"
proof -
  let ?req = "default_password_request\<lparr>request_length := 5, max_consecutive := Some 2\<rparr>"
  have rng: "rng_ok first_rng" by (simp add: rng_ok_def first_rng_def)
  have "requested_chars ?req \<noteq> {}" "required_length ?req = 3"
    by (simp_all add: requested_chars_empty required_length_def default_password_request_def get_minimum_def custom_chars_def)
  then have "\<exists>os. validate_options ?req = Ok os"
    by (simp add: validate_options_cases default_password_request_def)
  then obtain out where out: "password first_rng () ?req = Ok out" by (auto simp: password_def result_simps)
  then show ?thesis using password_meets_request [OF rng, of ?req "()"] rng
    by (auto simp: default_password_request_def split: if_splits)
qed

end
