(* ===== verification/Key_Rotation.thy ===== *)
theory Key_Rotation
  imports Key_Store_Laws
begin

text \<open>
  Rotateable key sets (\<open>crates/bitwarden-crypto/src/keys/rotateable_key_set.rs\<close>): a downstream key that
  is reached from an upstream key through an RSA key pair, and that can be replaced without the
  upstream key.  The random choices are arguments.
\<close>

section \<open>Model\<close>

record rotateable_key_set =
  encapsulated_downstream_key :: unsigned_shared_key
  encrypted_encapsulation_key :: enc_string
  encrypted_decapsulation_key :: enc_string

text \<open>The random choices of a new key set.\<close>

record 'priv key_set_rng =
  rng_set_private_key :: 'priv
  rng_set_oaep :: bytes
  rng_set_upstream_nonce :: bytes
  rng_set_downstream_nonce :: bytes

definition key_set_new ::
  "crypto_lib \<Rightarrow> ('pub, 'priv) rsa_lib \<Rightarrow> 'priv key_set_rng \<Rightarrow> ('priv, 'sig) key_store_context \<Rightarrow> symmetric_crypto_key
   \<Rightarrow> symmetric_key_slot_id \<Rightarrow> (rotateable_key_set, crypto_error) result" where
  "key_set_new L R rng ctx upstream_key downstream_key_id =
     (let key_pair = private_key.RsaOaepSha1 (rng_set_private_key rng)
      in and_then (get_symmetric_key ctx downstream_key_id) (\<lambda>downstream_key.
         and_then (encapsulate_key_unsigned L R (rng_set_oaep rng) downstream_key (to_public_key R key_pair)) (\<lambda>encapsulated.
         and_then (private_key_to_der R key_pair) (\<lambda>private_der.
         and_then (encrypt_with_key L private_der upstream_key content_format.Pkcs8PrivateKey (rng_set_upstream_nonce rng)) (\<lambda>encrypted_private.
         and_then (public_key_to_der R (to_public_key R key_pair)) (\<lambda>public_der.
         and_then (encrypt_with_key L public_der downstream_key content_format.SPKIPublicKeyDer (rng_set_downstream_nonce rng)) (\<lambda>encrypted_public.
         Ok \<lparr>encapsulated_downstream_key = encapsulated, encrypted_encapsulation_key = encrypted_public,
             encrypted_decapsulation_key = encrypted_private\<rparr>)))))))"

definition key_set_unlock ::
  "crypto_lib \<Rightarrow> ('pub, 'priv) rsa_lib \<Rightarrow> rotateable_key_set \<Rightarrow> symmetric_crypto_key \<Rightarrow> symmetric_key_slot_id
   \<Rightarrow> (('priv, 'sig) key_store_context, unit) action" where
  "key_set_unlock L R self upstream_key downstream_key_id =
     act_then (act_read (\<lambda>_.
       and_then (decrypt_with_key L (encrypted_decapsulation_key self) upstream_key) (\<lambda>priv_key_bytes.
       and_then (private_key_from_der R priv_key_bytes) (\<lambda>decapsulation_key.
         decapsulate_key_unsigned L R (encapsulated_downstream_key self) decapsulation_key)))) (\<lambda>downstream_key.
     set_symmetric_key downstream_key_id downstream_key)"

definition rotate_key_set ::
  "crypto_lib \<Rightarrow> ('pub, 'priv) rsa_lib \<Rightarrow> bytes \<Rightarrow> bytes \<Rightarrow> ('priv, 'sig) key_store_context \<Rightarrow> rotateable_key_set
   \<Rightarrow> symmetric_key_slot_id \<Rightarrow> symmetric_key_slot_id \<Rightarrow> (rotateable_key_set, crypto_error) result" where
  "rotate_key_set L R oaep nonce ctx key_set old_downstream_key_id new_downstream_key_id =
     and_then (decrypt_data_with_symmetric_key L ctx old_downstream_key_id (encrypted_encapsulation_key key_set)) (\<lambda>pub_key.
     and_then (public_key_from_der R pub_key) (\<lambda>encapsulation_key.
     and_then (get_symmetric_key ctx new_downstream_key_id) (\<lambda>new_downstream_key.
     and_then (encapsulate_key_unsigned L R oaep new_downstream_key encapsulation_key) (\<lambda>new_encapsulated_key.
     and_then (encrypt_with_key L pub_key new_downstream_key content_format.SPKIPublicKeyDer nonce) (\<lambda>new_encrypted_encapsulation_key.
     Ok \<lparr>encapsulated_downstream_key = new_encapsulated_key,
         encrypted_encapsulation_key = new_encrypted_encapsulation_key,
         encrypted_decapsulation_key = encrypted_decapsulation_key key_set\<rparr>)))))"


section \<open>Specification vocabulary\<close>

text \<open>A key set through which the upstream key reaches a downstream key, and which the holder of that
  downstream key can rotate.\<close>

definition key_set_opens :: "crypto_lib \<Rightarrow> ('pub, 'priv) rsa_lib \<Rightarrow> 'priv \<Rightarrow> symmetric_crypto_key \<Rightarrow> symmetric_crypto_key
   \<Rightarrow> rotateable_key_set \<Rightarrow> bool" where
  "key_set_opens L R priv upstream downstream ks \<longleftrightarrow>
     and_then (decrypt_with_key L (encrypted_decapsulation_key ks) upstream) (private_key_from_der R)
       = Ok (private_key.RsaOaepSha1 priv)
     \<and> decapsulate_key_unsigned L R (encapsulated_downstream_key ks) (private_key.RsaOaepSha1 priv) = Ok (normalize_ops downstream)
     \<and> (case rsa_to_public_key_der R (rsa_to_public_key R priv) of
          None \<Rightarrow> False | Some der \<Rightarrow> decrypt_with_key L (encrypted_encapsulation_key ks) downstream = Ok der)"

text \<open>What a downstream key must satisfy: it may encrypt, and the RSA key is large enough for it.\<close>

definition downstream_ok :: "crypto_lib \<Rightarrow> ('pub, 'priv) rsa_lib \<Rightarrow> 'priv \<Rightarrow> symmetric_crypto_key \<Rightarrow> bytes \<Rightarrow> bool" where
  "downstream_ok L R priv key nonce \<longleftrightarrow>
     symmetric_key_wf key \<and> can_encrypt key \<and> length nonce = enc_string_nonce_size key
     \<and> length (to_encoded L key) + 42 \<le> rsa_modulus_len R (rsa_to_public_key R priv)"

text \<open>A key set that was made for the key in one slot, and then rotated to keys of other slots.\<close>

inductive rotated :: "crypto_lib \<Rightarrow> ('pub, 'priv) rsa_lib \<Rightarrow> 'priv key_set_rng \<Rightarrow> ('priv, 'sig) key_store_context
   \<Rightarrow> symmetric_crypto_key \<Rightarrow> symmetric_key_slot_id \<Rightarrow> rotateable_key_set \<Rightarrow> bool"
  for L R rng c upstream where
  made: "rotated L R rng c upstream k ks"
    if "get_symmetric_key c k = Ok key" "downstream_ok L R (rng_set_private_key rng) key (rng_set_downstream_nonce rng)"
      "key_set_new L R rng c upstream k = Ok ks"
| turned: "rotated L R rng c upstream k' ks'"
    if "rotated L R rng c upstream k ks" "get_symmetric_key c k' = Ok key" "downstream_ok L R (rng_set_private_key rng) key nonce"
      "rotate_key_set L R oaep nonce c ks k k' = Ok ks'"

text \<open>Random choices for an example.\<close>

definition example_set_rng :: "u8 key_set_rng" where
  "example_set_rng = \<lparr>rng_set_private_key = 7, rng_set_oaep = [], rng_set_upstream_nonce = replicate 16 5, rng_set_downstream_nonce = replicate 16 6\<rparr>"


section \<open>Opening and rotating\<close>

lemma decrypt_data_Ok:
  "get_symmetric_key c k = Ok key \<Longrightarrow> can_encrypt key \<Longrightarrow> decrypt_with_key L e key = Ok x \<Longrightarrow>
   decrypt_data_with_symmetric_key L c k e = Ok x"
  by (cases key; cases e) (simp_all add: decrypt_data_with_symmetric_key_def decrypt_with_key_def)

lemma downstream_protected:
  assumes "crypto_lib_ok L" "rsa_lib_ok R" "downstream_ok L R priv key nonce"
    and "rsa_to_public_key_der R (rsa_to_public_key R priv) = Some public_der"
  obtains u e where "encapsulate_key_unsigned L R oaep key (public_key.RsaOaepSha1 (rsa_to_public_key R priv)) = Ok u"
    "decapsulate_key_unsigned L R u (private_key.RsaOaepSha1 priv) = Ok (normalize_ops key)"
    "encrypt_with_key L public_der key content_format.SPKIPublicKeyDer nonce = Ok e"
    "decrypt_with_key L e key = Ok public_der"
    "public_key_from_der R public_der = Ok (public_key.RsaOaepSha1 (rsa_to_public_key R priv))"
proof -
  have ok: "symmetric_key_wf key" "can_encrypt key" "length nonce = enc_string_nonce_size key"
    "length (to_encoded L key) + 42 \<le> rsa_modulus_len R (rsa_to_public_key R priv)"
    using assms(3) by (simp_all add: downstream_ok_def)
  obtain u where u: "encapsulate_key_unsigned L R oaep key (to_public_key R (private_key.RsaOaepSha1 priv)) = Ok u"
    "decapsulate_key_unsigned L R u (private_key.RsaOaepSha1 priv) = Ok (normalize_ops key)"
    using encapsulate_Ok [OF assms(2) ok(4), of oaep] decapsulate_encapsulated [OF assms(1,2) ok(1)] by blast
  obtain e where "encrypt_with_key L public_der key content_format.SPKIPublicKeyDer nonce = Ok e"
    "decrypt_with_key L e key = Ok public_der"
    using encrypt_with_key_Ok [OF assms(1) ok(1-3), of public_der content_format.SPKIPublicKeyDer]
    by (auto simp: unreadable_format_def)
  moreover have "public_key_from_der R public_der = Ok (public_key.RsaOaepSha1 (rsa_to_public_key R priv))"
    by (rule der_roundtrips(1) [OF assms(2)]) (simp add: assms(4))
  ultimately show thesis using that u by simp
qed

lemma key_set_new_opens:
  assumes "crypto_lib_ok L" "rsa_lib_ok R" "get_symmetric_key c k = Ok downstream"
    and "symmetric_key_wf upstream" "can_encrypt upstream" "length (rng_set_upstream_nonce rng) = enc_string_nonce_size upstream"
    and "downstream_ok L R (rng_set_private_key rng) downstream (rng_set_downstream_nonce rng)"
    and "rsa_to_public_key_der R (rsa_to_public_key R (rng_set_private_key rng)) = Some public_der"
    and "rsa_to_pkcs8_der R (rng_set_private_key rng) = Some private_der"
  shows "\<exists>ks. key_set_new L R rng c upstream k = Ok ks \<and> key_set_opens L R (rng_set_private_key rng) upstream downstream ks"
proof -
  let ?priv = "rng_set_private_key rng"
  from downstream_protected [OF assms(1,2,7,8), of "rng_set_oaep rng"] obtain u e where
    u: "encapsulate_key_unsigned L R (rng_set_oaep rng) downstream (public_key.RsaOaepSha1 (rsa_to_public_key R ?priv)) = Ok u"
    "decapsulate_key_unsigned L R u (private_key.RsaOaepSha1 ?priv) = Ok (normalize_ops downstream)"
    and e: "encrypt_with_key L public_der downstream content_format.SPKIPublicKeyDer (rng_set_downstream_nonce rng) = Ok e"
    "decrypt_with_key L e downstream = Ok public_der"
    "public_key_from_der R public_der = Ok (public_key.RsaOaepSha1 (rsa_to_public_key R ?priv))" .
  obtain e' where e': "encrypt_with_key L private_der upstream content_format.Pkcs8PrivateKey (rng_set_upstream_nonce rng) = Ok e'"
    "decrypt_with_key L e' upstream = Ok private_der"
    using encrypt_with_key_Ok [OF assms(1,4,5,6), of private_der content_format.Pkcs8PrivateKey]
    by (auto simp: unreadable_format_def)
  have "private_key_from_der R private_der = Ok (private_key.RsaOaepSha1 ?priv)"
    by (rule der_roundtrips(2) [OF assms(2)]) (simp add: assms(9))
  then show ?thesis using u e e' assms(3,8,9)
    by (simp add: key_set_new_def key_set_opens_def Let_def)
qed

lemma rotate_key_set_opens:
  assumes "crypto_lib_ok L" "rsa_lib_ok R" "key_set_opens L R priv upstream old ks"
    and "get_symmetric_key c k = Ok old" "can_encrypt old" "get_symmetric_key c k' = Ok new"
    and "downstream_ok L R priv new nonce"
  shows "\<exists>ks'. rotate_key_set L R oaep nonce c ks k k' = Ok ks' \<and> key_set_opens L R priv upstream new ks'"
proof -
  obtain der where der: "rsa_to_public_key_der R (rsa_to_public_key R priv) = Some der"
    "decrypt_with_key L (encrypted_encapsulation_key ks) old = Ok der"
    using assms(3) by (auto simp: key_set_opens_def split: option.splits)
  from downstream_protected [OF assms(1,2,7) der(1), of oaep] obtain u e where
    "encapsulate_key_unsigned L R oaep new (public_key.RsaOaepSha1 (rsa_to_public_key R priv)) = Ok u"
    "decapsulate_key_unsigned L R u (private_key.RsaOaepSha1 priv) = Ok (normalize_ops new)"
    "encrypt_with_key L der new content_format.SPKIPublicKeyDer nonce = Ok e"
    "decrypt_with_key L e new = Ok der"
    "public_key_from_der R der = Ok (public_key.RsaOaepSha1 (rsa_to_public_key R priv))" .
  then show ?thesis using assms(3,6) der decrypt_data_Ok [OF assms(4,5) der(2)]
    by (simp add: rotate_key_set_def key_set_opens_def)
qed

lemma key_set_unlocks:
  assumes "key_set_opens L R priv upstream downstream ks" "symmetric_is_local k \<or> writable c"
  shows "fst (key_set_unlock L R ks upstream k c) = Ok ()"
    and "get_symmetric_key (snd (key_set_unlock L R ks upstream k c)) j =
      (if j = k then Ok (normalize_ops downstream) else get_symmetric_key c j)"
proof -
  have eq: "key_set_unlock L R ks upstream k c = set_symmetric_key k (normalize_ops downstream) c"
    using assms(1) by (auto simp: key_set_unlock_def key_set_opens_def act_then_def act_read_def result_simps split: result.splits)
  then show ok: "fst (key_set_unlock L R ks upstream k c) = Ok ()" using assms(2) by (simp add: symm.set_key_result)
  then show "get_symmetric_key (snd (key_set_unlock L R ks upstream k c)) j =
      (if j = k then Ok (normalize_ops downstream) else get_symmetric_key c j)"
    using symm.get_after_set [of k "normalize_ops downstream" c j] eq by simp
qed

lemma rotated_opens:
  assumes "rotated L R rng c upstream k ks" "crypto_lib_ok L" "rsa_lib_ok R"
    and "symmetric_key_wf upstream" "can_encrypt upstream" "length (rng_set_upstream_nonce rng) = enc_string_nonce_size upstream"
    and "rsa_to_public_key_der R (rsa_to_public_key R (rng_set_private_key rng)) \<noteq> None" "rsa_to_pkcs8_der R (rng_set_private_key rng) \<noteq> None"
  shows "\<exists>key. get_symmetric_key c k = Ok key \<and> can_encrypt key \<and> key_set_opens L R (rng_set_private_key rng) upstream key ks"
  using assms(1)
proof (induction rule: rotated.induct)
  case (made k key ks)
  then show ?case using key_set_new_opens [OF assms(2,3) made(1) assms(4-6) made(2)] assms(7,8)
    by (auto simp: downstream_ok_def)
next
  case (turned k ks k' key nonce oaep ks')
  then obtain old where "get_symmetric_key c k = Ok old" "can_encrypt old" "key_set_opens L R (rng_set_private_key rng) upstream old ks"
    by blast
  then show ?case using rotate_key_set_opens [OF assms(2,3), of _ upstream old ks c k k' key nonce oaep] turned
    by (auto simp: downstream_ok_def)
qed


section \<open>Properties\<close>

text \<open>C18: A key set can be made for every downstream key that may encrypt, and whoever has the upstream
  key unlocks the downstream key with it into a slot of a context, after any number of rotations.
  A rotation to any further key that may encrypt succeeds without the upstream key, and the upstream
  key then unlocks the new key.\<close>

theorem key_set_survives_rotation:
  assumes "crypto_lib_ok L" "rsa_lib_ok R" "symmetric_key_wf upstream" "can_encrypt upstream"
    and "length (rng_set_upstream_nonce rng) = enc_string_nonce_size upstream"
    and "rsa_to_public_key_der R (rsa_to_public_key R (rng_set_private_key rng)) \<noteq> None" "rsa_to_pkcs8_der R (rng_set_private_key rng) \<noteq> None"
    and "get_symmetric_key c k = Ok key" "symmetric_is_local slot \<or> writable d"
  shows "(downstream_ok L R (rng_set_private_key rng) key (rng_set_downstream_nonce rng)
        \<longrightarrow> (\<exists>ks. key_set_new L R rng c upstream k = Ok ks \<and> rotated L R rng c upstream k ks))
    \<and> (rotated L R rng c upstream old ks \<and> downstream_ok L R (rng_set_private_key rng) key nonce
        \<longrightarrow> (\<exists>ks'. rotate_key_set L R oaep nonce c ks old k = Ok ks' \<and> rotated L R rng c upstream k ks'))
    \<and> (rotated L R rng c upstream k ks
        \<longrightarrow> fst (key_set_unlock L R ks upstream slot d) = Ok ()
          \<and> get_symmetric_key (snd (key_set_unlock L R ks upstream slot d)) slot = Ok (normalize_ops key))"
proof (intro conjI impI)
  assume ok: "downstream_ok L R (rng_set_private_key rng) key (rng_set_downstream_nonce rng)"
  then obtain ks where "key_set_new L R rng c upstream k = Ok ks"
    using key_set_new_opens [OF assms(1,2,8,3-5)] assms(6,7) by blast
  then show "\<exists>ks. key_set_new L R rng c upstream k = Ok ks \<and> rotated L R rng c upstream k ks"
    using rotated.made [OF assms(8) ok] by blast
next
  assume rot: "rotated L R rng c upstream old ks \<and> downstream_ok L R (rng_set_private_key rng) key nonce"
  then obtain ks' where "rotate_key_set L R oaep nonce c ks old k = Ok ks'"
    using rotated_opens [OF _ assms(1-7)] rotate_key_set_opens [OF assms(1,2) _ _ _ assms(8)] by metis
  then show "\<exists>ks'. rotate_key_set L R oaep nonce c ks old k = Ok ks' \<and> rotated L R rng c upstream k ks'"
    using rotated.turned [OF _ assms(8)] rot by blast
next
  assume "rotated L R rng c upstream k ks"
  then have "key_set_opens L R (rng_set_private_key rng) upstream key ks"
    using rotated_opens [OF _ assms(1-7)] assms(8) by fastforce
  from key_set_unlocks [OF this assms(9)]
  show "fst (key_set_unlock L R ks upstream slot d) = Ok ()"
    "get_symmetric_key (snd (key_set_unlock L R ks upstream slot d)) slot = Ok (normalize_ops key)" by simp_all
qed

theorem key_set_survives_rotation_witness:
  "\<exists>c :: (u8, unit) key_store_context. \<exists>ks ks'.
     key_set_new crypto_ref rsa_ref example_set_rng c (Aes256CbcHmacKey (replicate 64 1)) User = Ok ks
     \<and> rotate_key_set crypto_ref rsa_ref [] (replicate 16 4) c ks User Master = Ok ks'
     \<and> get_symmetric_key (snd (key_set_unlock crypto_ref rsa_ref ks' (Aes256CbcHmacKey (replicate 64 1))
           (symmetric_key_slot_id.Local (LocalId 1)) c)) (symmetric_key_slot_id.Local (LocalId 1))
         = Ok (Aes256CbcHmacKey (replicate 64 3))"
proof -
  let ?up = "Aes256CbcHmacKey (replicate 64 1)"
  define c :: "(u8, unit) key_store_context" where "c = snd (set_symmetric_key User (Aes256CbcHmacKey (replicate 64 2))
    (snd (set_symmetric_key Master (Aes256CbcHmacKey (replicate 64 3)) (context_mut key_store_default))))"
  have c: "get_symmetric_key c User = Ok (Aes256CbcHmacKey (replicate 64 2))"
    "get_symmetric_key c Master = Ok (Aes256CbcHmacKey (replicate 64 3))"
    by (simp_all add: c_def set_symmetric_key_def get_symmetric_key_def update_global_eq context_mut_def basic.get_upsert)
  have rsa: "rsa_modulus_len rsa_ref k = 256" "rsa_to_public_key rsa_ref k = k"
    "rsa_to_public_key_der rsa_ref k = Some [k]" "rsa_to_pkcs8_der rsa_ref k = Some [0, k]" for k
    by (simp_all add: rsa_ref_def)
  have ok: "downstream_ok crypto_ref rsa_ref 7 (Aes256CbcHmacKey (replicate 64 b)) (replicate 16 n)" for b n
    by (simp add: downstream_ok_def rsa key_sizes to_encoded_def)
  have up: "symmetric_key_wf ?up" "can_encrypt ?up" "length (rng_set_upstream_nonce example_set_rng) = enc_string_nonce_size ?up"
    "rsa_to_public_key_der rsa_ref (rsa_to_public_key rsa_ref (rng_set_private_key example_set_rng)) \<noteq> None"
    "rsa_to_pkcs8_der rsa_ref (rng_set_private_key example_set_rng) \<noteq> None"
    by (simp_all add: key_sizes example_set_rng_def rsa)
  have slot: "symmetric_is_local (symmetric_key_slot_id.Local (LocalId 1)) \<or> writable c" by simp
  have rng: "rng_set_private_key example_set_rng = 7" "rng_set_downstream_nonce example_set_rng = replicate 16 6"
    by (simp_all add: example_set_rng_def)
  note law = key_set_survives_rotation [OF crypto_ref_ok rsa_ref_ok up _ slot]
  obtain ks where ks: "key_set_new crypto_ref rsa_ref example_set_rng c ?up User = Ok ks"
    "rotated crypto_ref rsa_ref example_set_rng c ?up User ks"
    using law [OF c(1), of undefined undefined "[]" "[]"] ok [of 2 6] rng by (elim conjE) auto
  obtain ks' where ks': "rotate_key_set crypto_ref rsa_ref [] (replicate 16 4) c ks User Master = Ok ks'"
    "rotated crypto_ref rsa_ref example_set_rng c ?up Master ks'"
    using law [OF c(2), of User ks "replicate 16 4" "[]"] ok [of 3 4] ks(2) rng by (elim conjE) auto
  have "get_symmetric_key (snd (key_set_unlock crypto_ref rsa_ref ks' ?up
      (symmetric_key_slot_id.Local (LocalId 1)) c)) (symmetric_key_slot_id.Local (LocalId 1))
      = Ok (Aes256CbcHmacKey (replicate 64 3))"
    using law [OF c(2), of User ks' "[]" "[]"] ks'(2) by simp
  then show ?thesis using ks(1) ks'(1) by blast
qed

end
