(* ===== verification/Collection_Tree.thy ===== *)
theory Collection_Tree
  imports Crypto_Types "HOL-Library.Char_ord" "HOL-Library.List_Lexorder" "HOL-Library.AList" "HOL-Library.Multiset"
begin

text \<open>
  The tree of collections (\<open>crates/bitwarden-collections/src/tree.rs\<close>) and the collection as an item of
  it (\<open>collection.rs\<close>).  The methods of the trait \<open>TreeItem\<close> are a record of functions.  The hash map
  of the items is an association list: its iteration order, which is not specified, is the order of
  the list.  A slice out of range panics and a walk along parents may go on forever; both are \<open>None\<close>.
\<close>

section \<open>Model\<close>

record 't tree_item =
  item_uuid :: "'t \<Rightarrow> uuid"
  short_name :: "'t \<Rightarrow> string"
  item_path :: "'t \<Rightarrow> string list"

record 't tree_index =
  index_id :: nat
  index_data :: 't
  index_path :: "string list"

definition tree_index_new :: "'t tree_item \<Rightarrow> nat \<Rightarrow> 't \<Rightarrow> 't tree_index" where
  "tree_index_new T i data = \<lparr>index_id = i, index_data = data, index_path = item_path T data\<rparr>"

record 't node_item =
  node_data :: 't
  node_parent :: "'t option"
  node_children :: "'t list"
  node_ancestors :: "uuid \<Rightarrow> string option"

record tree_node =
  node_id :: nat
  node_item_id :: uuid
  parent_idx :: "nat option"
  children_idx :: "nat list"
  node_path :: "string list"

definition tree_node_new :: "'t tree_item \<Rightarrow> nat \<Rightarrow> nat option \<Rightarrow> nat list \<Rightarrow> 't tree_index \<Rightarrow> tree_node" where
  "tree_node_new T i parent children index =
     \<lparr>node_id = i, node_item_id = item_uuid T (index_data index), parent_idx = parent, children_idx = children,
      node_path = index_path index\<rparr>"

record 't tree =
  tree_nodes :: "tree_node list"
  tree_items :: "(uuid \<times> 't tree_index) list"
  path_to_node :: "string list \<Rightarrow> nat option"

definition add_item :: "'t tree_item \<Rightarrow> 't tree_index \<Rightarrow> 't tree \<Rightarrow> 't tree option" where
  "add_item T index self =
     (if index_path index = [] then None
      else
      let parent_path = take (length (index_path index) - 1) (index_path index)
      in Option.bind
           (case path_to_node self parent_path of
              None \<Rightarrow> Some (self, None)
            | Some i \<Rightarrow>
                if i < length (tree_nodes self)
                then let parent = tree_nodes self ! i;
                         parent = parent\<lparr>children_idx := children_idx parent @ [index_id index]\<rparr>
                     in Some (self\<lparr>tree_nodes := (tree_nodes self)[i := parent]\<rparr>, Some (node_id parent))
                else None) (\<lambda>(self, parent_id).
         let node = tree_node_new T (index_id index) parent_id [] index;
             self = self\<lparr>path_to_node := (path_to_node self)(node_path node \<mapsto> node_id node)\<rparr>
         in Some (self\<lparr>tree_nodes := tree_nodes self @ [node]\<rparr>)))"

fun add_items :: "'t tree_item \<Rightarrow> (nat \<times> 't) list \<Rightarrow> 't tree \<Rightarrow> 't tree option" where
  "add_items T [] tree = Some tree"
| "add_items T ((index, item) # rest) tree =
     (let tree_index = tree_index_new T index item;
          tree = tree\<lparr>tree_items := AList.update (item_uuid T item) tree_index (tree_items tree)\<rparr>
      in Option.bind (add_item T tree_index tree) (add_items T rest))"

definition from_items :: "'t tree_item \<Rightarrow> 't list \<Rightarrow> 't tree option" where
  "from_items T items =
     (let sorted_items = sort_key (item_path T) items
      in add_items T (enumerate 0 sorted_items) \<lparr>tree_nodes = [], tree_items = [], path_to_node = Map.empty\<rparr>)"

definition nodes_get :: "'t tree \<Rightarrow> nat \<Rightarrow> tree_node option" where
  "nodes_get self i = (if i < length (tree_nodes self) then Some (tree_nodes self ! i) else None)"

text \<open>The indices that \<open>std::iter::successors\<close> yields from a parent on.\<close>

partial_function (option) ancestor_idx :: "'t tree \<Rightarrow> nat option \<Rightarrow> nat list option" where
  "ancestor_idx self first =
     (case first of
        None \<Rightarrow> Some []
      | Some parent_id \<Rightarrow>
          Option.bind (ancestor_idx self (Option.bind (nodes_get self parent_id) parent_idx)) (\<lambda>is. Some (parent_id # is)))"

definition get_relatives :: "'t tree_item \<Rightarrow> 't tree \<Rightarrow> 't tree_index \<Rightarrow> 't node_item option option" where
  "get_relatives T self item =
     (case nodes_get self (index_id item) of
        None \<Rightarrow> Some None
      | Some node \<Rightarrow>
          (let item_of = (\<lambda>i. Option.bind (nodes_get self i) (\<lambda>n. map_of (tree_items self) (node_item_id n)));
               parent = map_option index_data (Option.bind (parent_idx node) item_of);
               children = map index_data (List.map_filter item_of (children_idx node))
           in map_option (\<lambda>is. Some
                \<lparr>node_data = index_data item, node_parent = parent, node_children = children,
                 node_ancestors = map_of (rev (map (\<lambda>a. (item_uuid T (index_data a), short_name T (index_data a)))
                                               (List.map_filter item_of is)))\<rparr>)
              (ancestor_idx self (parent_idx node))))"

definition get_item_by_id :: "'t tree_item \<Rightarrow> 't tree \<Rightarrow> uuid \<Rightarrow> 't node_item option option" where
  "get_item_by_id T self tree_item_id =
     (case map_of (tree_items self) tree_item_id of None \<Rightarrow> Some None | Some item \<Rightarrow> get_relatives T self item)"

text \<open>\<open>filter_map\<close> with a function that may not return\<close>

fun filter_map_all :: "('a \<Rightarrow> 'b option option) \<Rightarrow> 'a list \<Rightarrow> 'b list option" where
  "filter_map_all f [] = Some []"
| "filter_map_all f (x # xs) =
     Option.bind (f x) (\<lambda>y. map_option (\<lambda>ys. case y of None \<Rightarrow> ys | Some y \<Rightarrow> y # ys) (filter_map_all f xs))"

definition get_root_items :: "'t tree_item \<Rightarrow> 't tree \<Rightarrow> 't node_item list option" where
  "get_root_items T self =
     filter_map_all (\<lambda>n. get_item_by_id T self (node_item_id n)) (filter (\<lambda>n. parent_idx n = None) (tree_nodes self))"

definition get_flat_items :: "'t tree_item \<Rightarrow> 't tree \<Rightarrow> 't node_item list option" where
  "get_flat_items T self = filter_map_all (get_relatives T self) (map snd (tree_items self))"


section \<open>Collections as items\<close>

datatype collection_type = SharedCollection | DefaultUserCollection

record collection_view =
  view_id :: "uuid option"
  view_organization_id :: organization_id
  view_name :: string
  view_external_id :: "string option"
  view_hide_passwords :: bool
  view_read_only :: bool
  view_manage :: bool
  view_type :: collection_type
  view_has_enabled_access_rule :: "bool option"

definition collection_path :: "collection_view \<Rightarrow> string list" where
  "collection_path self = filter (\<lambda>s. s \<noteq> []) (split_on CHR ''/'' (view_name self))"

definition collection_tree_item :: "collection_view tree_item" where
  "collection_tree_item =
     \<lparr>item_uuid = (\<lambda>self. case view_id self of Some i \<Rightarrow> i | None \<Rightarrow> 0),
      short_name = (\<lambda>self. if collection_path self = [] then [] else List.last (collection_path self)),
      item_path = collection_path\<rparr>"


section \<open>Specification vocabulary\<close>

text \<open>A collection with a given id and name.\<close>

definition example_view :: "uuid \<Rightarrow> string \<Rightarrow> collection_view" where
  "example_view i name =
     \<lparr>view_id = Some i, view_organization_id = OrganizationId 7, view_name = name, view_external_id = None,
      view_hide_passwords = False, view_read_only = False, view_manage = True, view_type = SharedCollection,
      view_has_enabled_access_rule = None\<rparr>"

text \<open>The greatest number below a bound with a property.\<close>

primrec last_index :: "(nat \<Rightarrow> bool) \<Rightarrow> nat \<Rightarrow> nat option" where
  "last_index P 0 = None"
| "last_index P (Suc k) = (if P k then Some k else last_index P k)"

text \<open>The parent of the item at \<open>i\<close> of a sorted list, and the chain of its ancestors.\<close>

definition parent_at :: "'t tree_item \<Rightarrow> 't list \<Rightarrow> nat \<Rightarrow> nat option" where
  "parent_at T xs i = last_index (\<lambda>j. item_path T (xs ! j) = butlast (item_path T (xs ! i))) i"

lemma last_index_less: "last_index P k = Some i \<Longrightarrow> i < k"
  by (induction k) (auto split: if_splits)

function ancestors_at :: "'t tree_item \<Rightarrow> 't list \<Rightarrow> nat \<Rightarrow> nat list" where
  "ancestors_at T xs i = (case parent_at T xs i of None \<Rightarrow> [] | Some p \<Rightarrow> p # ancestors_at T xs p)"
  by pat_completeness auto
termination
  by (relation "measure (\<lambda>(T, xs, i). i)") (auto simp: parent_at_def last_index_less)

declare ancestors_at.simps [simp del]

text \<open>The node at \<open>i\<close> after the first \<open>k\<close> items, and the tree after them.\<close>

definition node_at :: "'t tree_item \<Rightarrow> 't list \<Rightarrow> nat \<Rightarrow> nat \<Rightarrow> tree_node" where
  "node_at T xs k i =
     \<lparr>node_id = i, node_item_id = item_uuid T (xs ! i), parent_idx = parent_at T xs i,
      children_idx = filter (\<lambda>j. parent_at T xs j = Some i) [0..<k], node_path = item_path T (xs ! i)\<rparr>"

definition built :: "'t tree_item \<Rightarrow> 't list \<Rightarrow> nat \<Rightarrow> 't tree \<Rightarrow> bool" where
  "built T xs k t \<longleftrightarrow> tree_nodes t = map (node_at T xs k) [0..<k]
     \<and> path_to_node t = (\<lambda>p. last_index (\<lambda>j. item_path T (xs ! j) = p) k)
     \<and> (\<forall>u. map_of (tree_items t) u
           = map_option (\<lambda>j. tree_index_new T j (xs ! j)) (last_index (\<lambda>j. item_uuid T (xs ! j) = u) k))
     \<and> (distinct (map (item_uuid T) xs)
           \<longrightarrow> tree_items t = map (\<lambda>j. (item_uuid T (xs ! j), tree_index_new T j (xs ! j))) [0..<k])"

text \<open>What the tree reports about the item at \<open>i\<close>.\<close>

definition relatives_at :: "'t tree_item \<Rightarrow> 't list \<Rightarrow> nat \<Rightarrow> 't node_item" where
  "relatives_at T xs i =
     \<lparr>node_data = xs ! i, node_parent = map_option (nth xs) (parent_at T xs i),
      node_children = map (nth xs) (filter (\<lambda>j. parent_at T xs j = Some i) [0..<length xs]),
      node_ancestors = map_of (rev (map (\<lambda>a. (item_uuid T (xs ! a), short_name T (xs ! a))) (ancestors_at T xs i)))\<rparr>"

text \<open>
  A well-formed tree of a list of items: a node for each item, sorted by path; the parent of a node is
  an earlier node one level up, and missing only if there is none; the children of a node are those
  whose parent it is, each once.
\<close>

definition node_wf :: "tree_node list \<Rightarrow> nat \<Rightarrow> bool" where
  "node_wf ns i \<longleftrightarrow>
     node_id (ns ! i) = i
     \<and> (case parent_idx (ns ! i) of
          None \<Rightarrow> butlast (node_path (ns ! i)) \<notin> node_path ` set ns
        | Some p \<Rightarrow> p < i \<and> node_path (ns ! p) = butlast (node_path (ns ! i)))
     \<and> distinct (children_idx (ns ! i))
     \<and> set (children_idx (ns ! i)) = {j. j < length ns \<and> parent_idx (ns ! j) = Some i}"

definition tree_wf :: "'t tree_item \<Rightarrow> 't list \<Rightarrow> 't tree \<Rightarrow> bool" where
  "tree_wf T items t \<longleftrightarrow>
     mset (map (\<lambda>n. (node_item_id n, node_path n)) (tree_nodes t)) = mset (map (\<lambda>x. (item_uuid T x, item_path T x)) items)
     \<and> sorted (map node_path (tree_nodes t))
     \<and> (\<forall>i < length (tree_nodes t). node_wf (tree_nodes t) i)"


section \<open>Building a tree\<close>

lemma last_index_SomeD: "last_index P k = Some i \<Longrightarrow> P i \<and> i < k \<and> (\<forall>j. i < j \<and> j < k \<longrightarrow> \<not> P j)"
  by (induction k) (auto split: if_splits simp: less_Suc_eq)

lemma last_index_None: "last_index P k = None \<longleftrightarrow> (\<forall>j < k. \<not> P j)"
  by (induction k) (auto simp: less_Suc_eq)

lemma last_index_unique: "P i \<Longrightarrow> i < k \<Longrightarrow> (\<And>j. j < k \<Longrightarrow> P j \<Longrightarrow> j = i) \<Longrightarrow> last_index P k = Some i"
  by (metis last_index_None last_index_SomeD not_None_eq)

lemma node_at_Suc:
  "node_at T xs (Suc k) i =
     (if parent_at T xs k = Some i
      then (node_at T xs k i)\<lparr>children_idx := children_idx (node_at T xs k i) @ [k]\<rparr> else node_at T xs k i)"
  by (simp add: node_at_def)

lemma no_children_yet: "filter (\<lambda>j. parent_at T xs j = Some k) [0..<Suc k] = []"
  by (auto simp: parent_at_def filter_empty_conv dest: last_index_less)

lemma tree_index_new_simps [simp]:
  "index_id (tree_index_new T k x) = k" "index_data (tree_index_new T k x) = x"
  "index_path (tree_index_new T k x) = item_path T x"
  by (simp_all add: tree_index_new_def)

lemma add_item_built:
  assumes "tree_nodes t = map (node_at T xs k) [0..<k]"
    and "path_to_node t = (\<lambda>p. last_index (\<lambda>j. item_path T (xs ! j) = p) k)"
    and "item_path T (xs ! k) \<noteq> []"
  shows "add_item T (tree_index_new T k (xs ! k)) t =
    Some (t\<lparr>tree_nodes := map (node_at T xs (Suc k)) [0..<Suc k],
            path_to_node := (\<lambda>p. last_index (\<lambda>j. item_path T (xs ! j) = p) (Suc k))\<rparr>)"
proof -
  have upd: "(path_to_node t)(node_path (node_at T xs (Suc k) k) \<mapsto> node_id (node_at T xs (Suc k) k))
      = (\<lambda>p. last_index (\<lambda>j. item_path T (xs ! j) = p) (Suc k))" by (auto simp: assms(2) node_at_def)
  have new: "tree_node_new T k q [] (tree_index_new T k (xs ! k)) = node_at T xs (Suc k) k" if "parent_at T xs k = q" for q
    using no_children_yet [of T xs k] that by (simp add: tree_node_new_def node_at_def)
  have path: "path_to_node t (take (length (item_path T (xs ! k)) - 1) (item_path T (xs ! k))) = parent_at T xs k"
    by (simp add: assms(2) parent_at_def butlast_conv_take)
  show ?thesis
  proof (cases "parent_at T xs k")
    case None
    then have "tree_nodes t @ [node_at T xs (Suc k) k] = map (node_at T xs (Suc k)) [0..<Suc k]"
      by (simp add: assms(1) node_at_Suc [of T xs k])
    then show ?thesis using assms(3) new [OF None] upd
      unfolding add_item_def Let_def tree_index_new_simps path None by simp
  next
    case (Some p)
    then have p: "p < k" by (auto simp: parent_at_def dest: last_index_less)
    have nodes: "(tree_nodes t)[p := (tree_nodes t ! p)\<lparr>children_idx := children_idx (tree_nodes t ! p) @ [k]\<rparr>]
        @ [node_at T xs (Suc k) k] = map (node_at T xs (Suc k)) [0..<Suc k]"
      using p Some by (auto intro!: nth_equalityI simp: assms(1) nth_list_update node_at_Suc [of T xs k])
    have "node_id (tree_nodes t ! p) = p" "p < length (tree_nodes t)" using p by (simp_all add: node_at_def assms(1))
    then show ?thesis using assms(3) nodes new [OF Some] upd
      unfolding add_item_def Let_def tree_index_new_simps path Some by simp
  qed
qed

lemma update_new: "k \<notin> fst ` set al \<Longrightarrow> AList.update k v al = al @ [(k, v)]"
  by (induction al) auto

lemma add_items_built:
  assumes "built T xs k t" "k \<le> length xs"
  shows "if [] \<in> item_path T ` set (drop k xs) then add_items T (enumerate k (drop k xs)) t = None
    else \<exists>t'. add_items T (enumerate k (drop k xs)) t = Some t' \<and> built T xs (length xs) t'"
  using assms
proof (induction "length xs - k" arbitrary: k t)
  case 0
  then show ?case by simp
next
  case (Suc n)
  then have k: "k < length xs" by simp
  then have drop: "drop k xs = xs ! k # drop (Suc k) xs" by (simp add: Cons_nth_drop_Suc)
  let ?index = "tree_index_new T k (xs ! k)"
  let ?t = "t\<lparr>tree_items := AList.update (item_uuid T (xs ! k)) ?index (tree_items t)\<rparr>"
  let ?t' = "?t\<lparr>tree_nodes := map (node_at T xs (Suc k)) [0..<Suc k],
      path_to_node := (\<lambda>p. last_index (\<lambda>j. item_path T (xs ! j) = p) (Suc k))\<rparr>"
  show ?case
  proof (cases "item_path T (xs ! k) = []")
    case True
    then show ?thesis by (auto simp: drop add_item_def tree_index_new_def)
  next
    case False
    then have "add_items T (enumerate k (drop k xs)) t = add_items T (enumerate (Suc k) (drop (Suc k) xs)) ?t'"
      using add_item_built [of ?t T xs k] Suc.prems(1) by (simp add: drop built_def)
    moreover have "built T xs (Suc k) ?t'"
    proof -
      have "item_uuid T (xs ! k) \<notin> fst ` set (tree_items t)" if "distinct (map (item_uuid T) xs)"
        using Suc.prems(1) that k by (auto simp: built_def distinct_conv_nth)
      then show ?thesis using Suc.prems(1) by (auto simp: built_def update_conv update_new)
    qed
    ultimately show ?thesis using Suc.hyps(1) [of "Suc k" ?t'] Suc.hyps(2) k False by (auto simp: drop)
  qed
qed

lemma built_empty: "built T xs 0 \<lparr>tree_nodes = [], tree_items = [], path_to_node = Map.empty\<rparr>"
  by (simp add: built_def)

lemma from_items_built:
  "if [] \<in> item_path T ` set items then from_items T items = None
   else \<exists>t. from_items T items = Some t \<and> built T (sort_key (item_path T) items) (length items) t"
  using add_items_built [OF built_empty, of "sort_key (item_path T) items" T]
  by (cases "[] \<in> item_path T ` set items") (simp_all add: from_items_def)

lemma butlast_less: "(p :: string list) \<noteq> [] \<Longrightarrow> butlast p < p"
  unfolding list_less_def by (metis append_butlast_last_id lexord_append_rightI not_Cons_self2 self_append_conv)

lemma sorted_before:
  "sorted (map f xs) \<Longrightarrow> i < length xs \<Longrightarrow> j < length xs \<Longrightarrow> f (xs ! j) < (f (xs ! i) :: 'a :: linorder) \<Longrightarrow> j < i"
  by (metis leD leI length_map nth_map sorted_nth_mono)

lemma parent_at_None:
  assumes "sorted (map (item_path T) xs)" "i < length xs" "item_path T (xs ! i) \<noteq> []"
  shows "parent_at T xs i = None \<longleftrightarrow> butlast (item_path T (xs ! i)) \<notin> item_path T ` set xs"
proof -
  define above where "above j \<longleftrightarrow> item_path T (xs ! j) = butlast (item_path T (xs ! i))" for j
  have before: "j < i" if "j < length xs" "above j" for j
    using sorted_before [OF assms(1,2) that(1)] butlast_less [OF assms(3)] that(2) by (simp add: above_def)
  have "butlast (item_path T (xs ! i)) \<in> item_path T ` set xs \<longleftrightarrow> (\<exists>j < length xs. above j)"
    unfolding above_def image_iff by (auto simp: in_set_conv_nth) (metis nth_mem)
  moreover have "(\<exists>j < length xs. above j) \<longleftrightarrow> (\<exists>j < i. above j)"
    using before order_less_trans [OF _ assms(2)] by blast
  ultimately show ?thesis unfolding parent_at_def last_index_None above_def by blast
qed

lemma parent_at_Some: "parent_at T xs i = Some p \<Longrightarrow> p < i \<and> item_path T (xs ! p) = butlast (item_path T (xs ! i))"
  by (auto simp: parent_at_def dest: last_index_SomeD)

lemma node_at_wf:
  assumes "sorted (map (item_path T) xs)" "i < length xs" "item_path T (xs ! i) \<noteq> []"
    and ns: "ns = map (node_at T xs (length xs)) [0..<length xs]"
  shows "node_wf ns i"
proof -
  have "map node_path ns = map (item_path T) xs"
    by (rule nth_equalityI) (simp_all add: node_at_def ns)
  then have paths: "node_path ` set ns = item_path T ` set xs" by (metis list.set_map)
  have len: "length ns = length xs" by (simp add: ns)
  have fields: "node_id (ns ! j) = j" "parent_idx (ns ! j) = parent_at T xs j" "node_path (ns ! j) = item_path T (xs ! j)"
    "children_idx (ns ! j) = filter (\<lambda>k. parent_at T xs k = Some j) [0..<length xs]" if "j < length xs" for j
    using that by (simp_all add: ns node_at_def)
  have "set (children_idx (ns ! i)) = {j. j < length ns \<and> parent_idx (ns ! j) = Some i}"
    using fields(2) by (auto simp: fields(4) [OF assms(2)] len)
  then show ?thesis
    using parent_at_None [OF assms(1-3)] parent_at_Some [of T xs i] assms(2)
    unfolding node_wf_def paths fields(1,2,3) [OF assms(2)]
    by (cases "parent_at T xs i") (simp_all add: fields(3,4))
qed

lemma built_nodes: "built T xs (length xs) t \<Longrightarrow> tree_nodes t = map (node_at T xs (length xs)) [0..<length xs]"
  unfolding built_def by blast

lemma built_wf:
  assumes "built T xs (length xs) t" "xs = sort_key (item_path T) items" "[] \<notin> item_path T ` set items"
  shows "tree_wf T items t"
proof -
  note nodes = built_nodes [OF assms(1)]
  have sorted: "sorted (map (item_path T) xs)" by (simp add: assms(2))
  have paths: "map node_path (tree_nodes t) = map (item_path T) xs"
    by (rule nth_equalityI) (simp_all add: nodes node_at_def)
  have items: "mset (map (\<lambda>x. (item_uuid T x, item_path T x)) xs) = mset (map (\<lambda>x. (item_uuid T x, item_path T x)) items)"
    by (simp add: assms(2))
  have "map (\<lambda>n. (node_item_id n, node_path n)) (tree_nodes t) = map (\<lambda>x. (item_uuid T x, item_path T x)) xs"
    by (rule nth_equalityI) (simp_all add: nodes node_at_def)
  then have ms: "mset (map (\<lambda>n. (node_item_id n, node_path n)) (tree_nodes t)) = mset (map (\<lambda>x. (item_uuid T x, item_path T x)) items)"
    by (simp only: items)
  have wf: "node_wf (tree_nodes t) i" if "i < length xs" for i
  proof -
    have "set xs = set items" by (simp add: assms(2))
    then have "item_path T (xs ! i) \<noteq> []" using assms(3) nth_mem [OF that] by (metis imageI)
    then show ?thesis by (rule node_at_wf [OF sorted that _ nodes])
  qed
  have len: "length (tree_nodes t) = length xs" by (simp add: nodes)
  show ?thesis unfolding tree_wf_def paths len by (intro conjI allI impI ms sorted wf)
qed


section \<open>Reading a tree\<close>

lemma built_item:
  assumes "built T xs (length xs) t" "distinct (map (item_uuid T) xs)" "i < length xs"
  shows "map_of (tree_items t) (item_uuid T (xs ! i)) = Some (tree_index_new T i (xs ! i))"
proof -
  have "last_index (\<lambda>j. item_uuid T (xs ! j) = item_uuid T (xs ! i)) (length xs) = Some i"
    using assms(2,3) by (intro last_index_unique) (auto simp: distinct_conv_nth)
  then show ?thesis using assms(1) unfolding built_def by simp
qed

lemma ancestor_idx_built:
  assumes "built T xs (length xs) t" "i < length xs"
  shows "ancestor_idx t (parent_at T xs i) = Some (ancestors_at T xs i)"
  using assms(2)
proof (induction i rule: less_induct)
  case (less i)
  show ?case
  proof (cases "parent_at T xs i")
    case None
    then show ?thesis by (simp add: ancestor_idx.simps ancestors_at.simps [of T xs i])
  next
    case (Some p)
    then have p: "p < i" using parent_at_Some by blast
    have "nodes_get t p = Some (node_at T xs (length xs) p)"
      using p less.prems built_nodes [OF assms(1)] by (simp add: nodes_get_def)
    then show ?thesis using less.IH [OF p] p less.prems
      by (simp add: Some ancestor_idx.simps [of t "Some p"] ancestors_at.simps [of T xs i] node_at_def)
  qed
qed

lemma ancestors_at_less: "a \<in> set (ancestors_at T xs i) \<Longrightarrow> a < i"
proof (induction i rule: less_induct)
  case (less i)
  then show ?case
    by (cases "parent_at T xs i") (auto simp: ancestors_at.simps [of T xs i] dest!: parent_at_Some, use less_trans in blast)
qed

lemma map_filter_Some: "(\<And>x. x \<in> set xs \<Longrightarrow> f x = Some (g x)) \<Longrightarrow> List.map_filter f xs = map g xs"
  by (induction xs) (simp_all add: map_filter_simps)

lemma get_relatives_built:
  assumes "built T xs (length xs) t" "distinct (map (item_uuid T) xs)" "i < length xs"
  shows "get_relatives T t (tree_index_new T i (xs ! i)) = Some (Some (relatives_at T xs i))"
proof -
  have node: "nodes_get t j = Some (node_at T xs (length xs) j)" if "j < length xs" for j
    using that built_nodes [OF assms(1)] by (simp add: nodes_get_def)
  define item_of where "item_of = (\<lambda>i. Option.bind (nodes_get t i) (\<lambda>n. map_of (tree_items t) (node_item_id n)))"
  have item: "item_of j = Some (tree_index_new T j (xs ! j))" if "j < length xs" for j
    using that node [OF that] built_item [OF assms(1,2) that] by (simp add: item_of_def node_at_def)
  have parent: "map_option index_data (Option.bind (parent_at T xs i) item_of) = map_option (nth xs) (parent_at T xs i)"
    using parent_at_Some [of T xs i] assms(3) item by (cases "parent_at T xs i") auto
  have children: "List.map_filter item_of (filter (\<lambda>j. parent_at T xs j = Some i) [0..<length xs])
      = map (\<lambda>j. tree_index_new T j (xs ! j)) (filter (\<lambda>j. parent_at T xs j = Some i) [0..<length xs])"
    by (rule map_filter_Some) (simp add: item)
  have "List.map_filter item_of (ancestors_at T xs i) = map (\<lambda>j. tree_index_new T j (xs ! j)) (ancestors_at T xs i)"
    by (rule map_filter_Some) (use ancestors_at_less assms(3) item less_trans in blast)
  then show ?thesis
    using node [OF assms(3)] ancestor_idx_built [OF assms(1,3)] parent children
    unfolding get_relatives_def Let_def item_of_def [symmetric]
    by (simp add: node_at_def relatives_at_def o_def)
qed

lemma get_item_by_id_built:
  assumes "built T xs (length xs) t" "distinct (map (item_uuid T) xs)" "i < length xs"
  shows "get_item_by_id T t (item_uuid T (xs ! i)) = Some (Some (relatives_at T xs i))"
  using get_relatives_built [OF assms] built_item [OF assms] by (simp add: get_item_by_id_def)

lemma filter_map_all_Some:
  "(\<And>x. x \<in> set xs \<Longrightarrow> f x = Some (Some (g x))) \<Longrightarrow> filter_map_all f xs = Some (map g xs)"
  by (induction xs) simp_all

lemma get_flat_items_built:
  assumes "built T xs (length xs) t" "distinct (map (item_uuid T) xs)"
  shows "get_flat_items T t = Some (map (relatives_at T xs) [0..<length xs])"
proof -
  have "map snd (tree_items t) = map (\<lambda>j. tree_index_new T j (xs ! j)) [0..<length xs]"
    using assms unfolding built_def by simp
  moreover have "filter_map_all (get_relatives T t) (map (\<lambda>j. tree_index_new T j (xs ! j)) is)
      = Some (map (relatives_at T xs) is)" if "set is \<subseteq> {..<length xs}" for "is"
    using that by (induction "is") (simp_all add: get_relatives_built [OF assms])
  ultimately show ?thesis unfolding get_flat_items_def by (metis atLeast_upt subset_refl)
qed

lemma get_root_items_built:
  assumes "built T xs (length xs) t" "distinct (map (item_uuid T) xs)"
  shows "get_root_items T t = Some (map (relatives_at T xs) (filter (\<lambda>i. parent_at T xs i = None) [0..<length xs]))"
proof -
  have "filter_map_all (\<lambda>n. get_item_by_id T t (node_item_id n))
        (filter (\<lambda>n. parent_idx n = None) (map (node_at T xs (length xs)) is))
      = Some (map (relatives_at T xs) (filter (\<lambda>i. parent_at T xs i = None) is))" if "set is \<subseteq> {..<length xs}" for "is"
    using that by (induction "is") (simp_all add: node_at_def get_item_by_id_built [OF assms])
  then show ?thesis unfolding get_root_items_def built_nodes [OF assms(1)] by (metis atLeast_upt subset_refl)
qed

lemma relatives_at_ancestors:
  assumes "distinct (map (item_uuid T) xs)" "i < length xs"
  shows "node_ancestors (relatives_at T xs i) =
    (case parent_at T xs i of None \<Rightarrow> Map.empty
     | Some p \<Rightarrow> (node_ancestors (relatives_at T xs p))(item_uuid T (xs ! p) \<mapsto> short_name T (xs ! p)))"
proof (cases "parent_at T xs i")
  case None
  then show ?thesis by (simp add: relatives_at_def ancestors_at.simps [of T xs i])
next
  case (Some p)
  let ?A = "map (\<lambda>a. (item_uuid T (xs ! a), short_name T (xs ! a))) (ancestors_at T xs p)"
  have p: "p < length xs" using parent_at_Some [OF Some] assms(2) by simp
  have "item_uuid T (xs ! a) \<noteq> item_uuid T (xs ! p)" if "a \<in> set (ancestors_at T xs p)" for a
  proof -
    have "a < p" using ancestors_at_less [OF that] .
    then show ?thesis using assms(1) p by (simp add: distinct_conv_nth)
  qed
  then have "item_uuid T (xs ! p) \<notin> fst ` set (rev ?A)" by (auto simp: image_iff) metis
  then show ?thesis using Some
    by (simp add: relatives_at_def ancestors_at.simps [of T xs i] map_add_upd_left dom_map_of_conv_image_fst)
qed

lemma relatives_at_parent:
  assumes "sorted (map (item_path T) xs)" "distinct (map (item_uuid T) xs)" "i < length xs" "item_path T (xs ! i) \<noteq> []"
  shows "case node_parent (relatives_at T xs i) of
      None \<Rightarrow> butlast (item_path T (xs ! i)) \<notin> item_path T ` set xs \<and> node_ancestors (relatives_at T xs i) = Map.empty
    | Some p \<Rightarrow> p \<in> set xs \<and> item_path T p = butlast (item_path T (xs ! i))
        \<and> (\<exists>j < length xs. p = xs ! j
             \<and> node_ancestors (relatives_at T xs i) = (node_ancestors (relatives_at T xs j))(item_uuid T p \<mapsto> short_name T p))"
proof (cases "parent_at T xs i")
  case None
  then have "node_parent (relatives_at T xs i) = None" by (simp add: relatives_at_def)
  then show ?thesis using None relatives_at_ancestors [OF assms(2,3)] parent_at_None [OF assms(1,3,4)] by simp
next
  case (Some p)
  have p: "p < length xs" "item_path T (xs ! p) = butlast (item_path T (xs ! i))" using parent_at_Some [OF Some] assms(3) by auto
  have "node_parent (relatives_at T xs i) = Some (xs ! p)" by (simp add: relatives_at_def Some)
  then show ?thesis using Some relatives_at_ancestors [OF assms(2,3)] p nth_mem [OF p(1)] by auto
qed

lemma relatives_at_children:
  assumes "distinct (map (item_uuid T) xs)" "i < length xs"
  shows "set (node_children (relatives_at T xs i))
    = {xs ! j | j. j < length xs \<and> node_parent (relatives_at T xs j) = Some (xs ! i)}"
proof -
  have "distinct xs" using assms(1) by (simp add: distinct_map)
  then have "node_parent (relatives_at T xs j) = Some (xs ! i) \<longleftrightarrow> parent_at T xs j = Some i" if "j < length xs" for j
    using that assms(2) parent_at_Some [of T xs j] by (auto simp: relatives_at_def nth_eq_iff_index_eq)
  then show ?thesis by (auto simp: relatives_at_def)
qed


lemma roots_of_sorted:
  assumes "sorted (map (item_path T) xs)" "set xs = set items" "\<And>y. y \<in> set items \<Longrightarrow> item_path T y \<noteq> []"
  shows "map (nth xs) (filter (\<lambda>j. parent_at T xs j = None) [0..<length xs])
    = filter (\<lambda>y. butlast (item_path T y) \<notin> item_path T ` set items) xs"
proof -
  have none: "parent_at T xs j = None \<longleftrightarrow> butlast (item_path T (xs ! j)) \<notin> item_path T ` set items" if "j < length xs" for j
    using parent_at_None [OF assms(1) that] assms(3) [of "xs ! j"] nth_mem [OF that] by (simp add: assms(2))
  have "filter (\<lambda>j. parent_at T xs j = None) [0..<length xs]
      = filter (\<lambda>j. butlast (item_path T (xs ! j)) \<notin> item_path T ` set items) [0..<length xs]"
    using none by (intro filter_cong) simp_all
  moreover have "map (nth xs) (filter (\<lambda>j. P (xs ! j)) [0..<length xs]) = filter P xs" for P
    by (metis (no_types, lifting) filter_cong filter_map map_nth o_apply)
  ultimately show ?thesis by simp
qed


section \<open>Well-formed trees\<close>

text \<open>C19: Building a tree of collections panics exactly if an item has an empty path, as a collection
  whose name is empty or consists of delimiters has. Otherwise the tree is well formed: it has a
  node for each item, sorted by path and numbered by its position. The parent of a node is an
  earlier node whose path is one level up, and is missing only if no item has that path. The
  children of a node are the nodes whose parent it is, each once.\<close>

theorem tree_is_well_formed:
  "case from_items T items of
     None \<Rightarrow> [] \<in> item_path T ` set items
   | Some t \<Rightarrow> [] \<notin> item_path T ` set items \<and> tree_wf T items t"
proof (cases "[] \<in> item_path T ` set items")
  case True
  then show ?thesis using from_items_built [of T items] by simp
next
  case False
  then obtain t where "from_items T items = Some t" "built T (sort_key (item_path T) items) (length (sort_key (item_path T) items)) t"
    using from_items_built [of T items] by auto
  then show ?thesis using False built_wf [OF _ refl] by simp
qed

text \<open>C17: If the ids are distinct, a tree reports about every item what the paths of the items say: the
  item itself, an item one level up as its parent unless there is none, as its children exactly the
  items that report it as their parent, and as its ancestors those of its parent with the id and the
  short name of the parent added. Reading never goes on forever. The flat list has every item once,
  and the roots are the items with nothing one level up, in the order of their paths.\<close>

theorem tree_relations:
  assumes "distinct (map (item_uuid T) items)" "from_items T items = Some t" "x \<in> set items"
  shows "\<exists>n flat roots. get_item_by_id T t (item_uuid T x) = Some (Some n) \<and> node_data n = x
    \<and> (case node_parent n of
         None \<Rightarrow> butlast (item_path T x) \<notin> item_path T ` set items \<and> node_ancestors n = Map.empty
       | Some p \<Rightarrow> p \<in> set items \<and> item_path T p = butlast (item_path T x)
           \<and> (\<exists>m. get_item_by_id T t (item_uuid T p) = Some (Some m)
                \<and> node_ancestors n = (node_ancestors m)(item_uuid T p \<mapsto> short_name T p)))
    \<and> set (node_children n) = {y \<in> set items. \<exists>m. get_item_by_id T t (item_uuid T y) = Some (Some m) \<and> node_parent m = Some x}
    \<and> get_flat_items T t = Some flat \<and> n \<in> set flat \<and> mset (map node_data flat) = mset items
    \<and> get_root_items T t = Some roots
    \<and> map node_data roots = filter (\<lambda>y. butlast (item_path T y) \<notin> item_path T ` set items) (sort_key (item_path T) items)"
proof -
  define xs where "xs = sort_key (item_path T) items"
  have xs: "set xs = set items" "mset xs = mset items" "sorted (map (item_path T) xs)" by (simp_all add: xs_def)
  then have ids: "distinct (map (item_uuid T) xs)"
    using assms(1) by (metis distinct_map mset_eq_imp_distinct_iff)
  have built: "built T xs (length xs) t" and nonempty: "[] \<notin> item_path T ` set items"
    using from_items_built [of T items] assms(2) by (auto simp: xs_def split: if_splits)
  obtain i where i: "i < length xs" "x = xs ! i" using assms(3) xs(1) by (metis in_set_conv_nth)
  have path: "item_path T y \<noteq> []" if "y \<in> set items" for y using nonempty that by (metis imageI)
  have get: "get_item_by_id T t (item_uuid T (xs ! j)) = Some (Some (relatives_at T xs j))" if "j < length xs" for j
    by (rule get_item_by_id_built [OF built ids that])
  let ?n = "relatives_at T xs i"
  have parent: "case node_parent ?n of
      None \<Rightarrow> butlast (item_path T x) \<notin> item_path T ` set items \<and> node_ancestors ?n = Map.empty
    | Some p \<Rightarrow> p \<in> set items \<and> item_path T p = butlast (item_path T x)
        \<and> (\<exists>m. get_item_by_id T t (item_uuid T p) = Some (Some m)
             \<and> node_ancestors ?n = (node_ancestors m)(item_uuid T p \<mapsto> short_name T p))"
    using relatives_at_parent [OF xs(3) ids i(1)] path [OF assms(3)] get
    by (auto simp: i(2) xs(1) split: option.split)
  have children: "set (node_children ?n)
      = {y \<in> set items. \<exists>m. get_item_by_id T t (item_uuid T y) = Some (Some m) \<and> node_parent m = Some x}"
    unfolding relatives_at_children [OF ids i(1)] i(2) xs(1) [symmetric]
    by (auto simp: get in_set_conv_nth)
  have flat: "map node_data (map (relatives_at T xs) is) = map (nth xs) is" for "is"
    by (simp add: relatives_at_def)
  have "map (nth xs) (filter (\<lambda>j. parent_at T xs j = None) [0..<length xs])
      = filter (\<lambda>y. butlast (item_path T y) \<notin> item_path T ` set items) xs"
    by (rule roots_of_sorted) (use xs path in auto)
  then show ?thesis
    using get [OF i(1)] parent children get_flat_items_built [OF built ids] get_root_items_built [OF built ids] i xs(2)
    by (intro exI [of _ ?n] exI [of _ "map (relatives_at T xs) [0..<length xs]"]
        exI [of _ "map (relatives_at T xs) (filter (\<lambda>j. parent_at T xs j = None) [0..<length xs])"] conjI)
      (simp_all only: flat map_nth xs_def [symmetric] i(2), auto simp: relatives_at_def)
qed

theorem tree_relations_witness:
  "\<exists>t n. distinct (map (item_uuid collection_tree_item) [example_view 1 ''A/B'', example_view 2 ''A''])
     \<and> from_items collection_tree_item [example_view 1 ''A/B'', example_view 2 ''A''] = Some t
     \<and> get_item_by_id collection_tree_item t 1 = Some (Some n)
     \<and> node_data n = example_view 1 ''A/B'' \<and> node_parent n = Some (example_view 2 ''A'')"
proof -
  let ?items = "[example_view 1 ''A/B'', example_view 2 ''A'']"
  have ids: "distinct (map (item_uuid collection_tree_item) ?items)" and uuid: "item_uuid collection_tree_item (example_view 1 ''A/B'') = 1"
    and path: "item_path collection_tree_item (example_view 1 ''A/B'') = [''A'', ''B'']"
      "item_path collection_tree_item (example_view 2 ''A'') = [''A'']"
    by (simp_all add: collection_tree_item_def collection_path_def example_view_def)
  obtain t where t: "from_items collection_tree_item ?items = Some t"
    using from_items_built [of collection_tree_item ?items] path by auto
  obtain n where n: "get_item_by_id collection_tree_item t 1 = Some (Some n)" "node_data n = example_view 1 ''A/B''"
    "case node_parent n of
       None \<Rightarrow> butlast [''A'', ''B''] \<notin> item_path collection_tree_item ` set ?items
     | Some p \<Rightarrow> p \<in> set ?items \<and> item_path collection_tree_item p = butlast [''A'', ''B'']"
    using tree_relations [OF ids t, of "example_view 1 ''A/B''"] uuid path by (auto split: option.splits)
  have "node_parent n = Some (example_view 2 ''A'')"
    using n(3) path by (auto split: option.splits)
  then show ?thesis using ids t n by blast
qed

end
