(* ===== verification/Vault_Items.thy ===== *)
theory Vault_Items
  imports Key_Rotation Collection_Tree
begin

text \<open>
  Items made of encrypted strings: folders (\<open>crates/bitwarden-vault/src/folder/folder_models.rs\<close>),
  password history (\<open>password_history.rs\<close>) and collections (\<open>crates/bitwarden-collections/src/collection.rs\<close>),
  with the encryption of strings (\<open>crates/bitwarden-crypto/src/traits/encryptable.rs\<close>).  Dates are numbers.
  A value to encrypt comes with its nonce.
\<close>

section \<open>Model\<close>

definition encrypt_string ::
  "crypto_lib \<Rightarrow> string \<Rightarrow> bytes \<Rightarrow> symmetric_key_slot_id \<Rightarrow> (('priv, 'sig) key_store_context, enc_string) action" where
  "encrypt_string L self nonce key =
     act_read (\<lambda>ctx. encrypt_data_with_symmetric_key L ctx key (string_bytes self) content_format.Utf8 nonce)"

text \<open>\<open>result.ok().unwrap_or_default()\<close> for a string\<close>

definition act_or_default :: "('c, string) action \<Rightarrow> ('c, string) action" where
  "act_or_default f = (\<lambda>c. let (r, c) = f c in (Ok (case r of Ok s \<Rightarrow> s | Err _ \<Rightarrow> []), c))"

subsection \<open>Folders\<close>

record folder =
  folder_id :: "uuid option"
  folder_name :: enc_string
  folder_revision_date :: int

record folder_view =
  folder_view_id :: "uuid option"
  folder_view_name :: string
  folder_view_revision_date :: int

definition folder_key_identifier :: "folder \<Rightarrow> symmetric_key_slot_id" where
  "folder_key_identifier self = User"

definition folder_view_key_identifier :: "folder_view \<Rightarrow> symmetric_key_slot_id" where
  "folder_view_key_identifier self = User"

definition folder_encrypt_composite ::
  "crypto_lib \<Rightarrow> folder_view \<times> bytes \<Rightarrow> symmetric_key_slot_id \<Rightarrow> (('priv, 'sig) key_store_context, folder) action" where
  "folder_encrypt_composite L = (\<lambda>(self, nonce) key.
     act_then (encrypt_string L (folder_view_name self) nonce key) (\<lambda>name.
       act_read (\<lambda>_. Ok \<lparr>folder_id = folder_view_id self, folder_name = name,
                        folder_revision_date = folder_view_revision_date self\<rparr>)))"

definition folder_decrypt ::
  "crypto_lib \<Rightarrow> folder \<Rightarrow> symmetric_key_slot_id \<Rightarrow> (('priv, 'sig) key_store_context, folder_view) action" where
  "folder_decrypt L self key =
     act_then (act_or_default (decrypt_string L (folder_name self) key)) (\<lambda>name.
       act_read (\<lambda>_. Ok \<lparr>folder_view_id = folder_id self, folder_view_name = name,
                        folder_view_revision_date = folder_revision_date self\<rparr>))"

subsection \<open>Password history\<close>

record password_history =
  history_password :: enc_string
  history_last_used_date :: int

record password_history_view =
  history_view_password :: string
  history_view_last_used_date :: int

definition password_history_key_identifier :: "password_history \<Rightarrow> symmetric_key_slot_id" where
  "password_history_key_identifier self = LocalUserData"

definition password_history_view_key_identifier :: "password_history_view \<Rightarrow> symmetric_key_slot_id" where
  "password_history_view_key_identifier self = LocalUserData"

definition password_history_encrypt_composite ::
  "crypto_lib \<Rightarrow> password_history_view \<times> bytes \<Rightarrow> symmetric_key_slot_id
   \<Rightarrow> (('priv, 'sig) key_store_context, password_history) action" where
  "password_history_encrypt_composite L = (\<lambda>(self, nonce) key.
     act_then (encrypt_string L (history_view_password self) nonce key) (\<lambda>password.
       act_read (\<lambda>_. Ok \<lparr>history_password = password, history_last_used_date = history_view_last_used_date self\<rparr>)))"

definition password_history_decrypt ::
  "crypto_lib \<Rightarrow> password_history \<Rightarrow> symmetric_key_slot_id
   \<Rightarrow> (('priv, 'sig) key_store_context, password_history_view) action" where
  "password_history_decrypt L self key =
     act_then (act_or_default (decrypt_string L (history_password self) key)) (\<lambda>password.
       act_read (\<lambda>_. Ok \<lparr>history_view_password = password, history_view_last_used_date = history_last_used_date self\<rparr>))"

subsection \<open>Collections\<close>

record collection =
  collection_id :: "uuid option"
  collection_organization_id :: organization_id
  collection_name :: enc_string
  collection_external_id :: "string option"
  collection_hide_passwords :: bool
  collection_read_only :: bool
  collection_manage :: bool
  default_user_collection_email :: "string option"
  collection_kind :: collection_type
  collection_has_enabled_access_rule :: "bool option"

definition collection_key_identifier :: "collection \<Rightarrow> symmetric_key_slot_id" where
  "collection_key_identifier self = Organization (collection_organization_id self)"

definition collection_view_key_identifier :: "collection_view \<Rightarrow> symmetric_key_slot_id" where
  "collection_view_key_identifier self = Organization (view_organization_id self)"

definition collection_encrypt_composite ::
  "crypto_lib \<Rightarrow> collection_view \<times> bytes \<Rightarrow> symmetric_key_slot_id \<Rightarrow> (('priv, 'sig) key_store_context, collection) action" where
  "collection_encrypt_composite L = (\<lambda>(self, nonce) key.
     act_then (encrypt_string L (view_name self) nonce key) (\<lambda>name.
       act_read (\<lambda>_. Ok
         \<lparr>collection_id = view_id self, collection_organization_id = view_organization_id self, collection_name = name,
          collection_external_id = view_external_id self, collection_hide_passwords = view_hide_passwords self,
          collection_read_only = view_read_only self, collection_manage = view_manage self,
          default_user_collection_email = None, collection_kind = view_type self,
          collection_has_enabled_access_rule = view_has_enabled_access_rule self\<rparr>)))"

text \<open>The name is decrypted also if the email replaces it.\<close>

definition collection_decrypt ::
  "crypto_lib \<Rightarrow> collection \<Rightarrow> symmetric_key_slot_id \<Rightarrow> (('priv, 'sig) key_store_context, collection_view) action" where
  "collection_decrypt L self key =
     act_then (decrypt_string L (collection_name self) key) (\<lambda>decrypted.
       act_read (\<lambda>_.
         let name = (case default_user_collection_email self of Some email \<Rightarrow> email | None \<Rightarrow> decrypted)
         in Ok \<lparr>view_id = collection_id self, view_organization_id = collection_organization_id self, view_name = name,
                view_external_id = collection_external_id self, view_hide_passwords = collection_hide_passwords self,
                view_read_only = collection_read_only self, view_manage = collection_manage self,
                view_type = collection_kind self,
                view_has_enabled_access_rule = collection_has_enabled_access_rule self\<rparr>))"


section \<open>Specification vocabulary\<close>

text \<open>A key that a value with a given nonce can be encrypted with.\<close>

definition usable :: "('priv, 'sig) key_store_context \<Rightarrow> symmetric_key_slot_id \<Rightarrow> bytes \<Rightarrow> bool" where
  "usable c k nonce \<longleftrightarrow>
     (case get_symmetric_key c k of
        Err _ \<Rightarrow> False
      | Ok key \<Rightarrow> symmetric_key_wf key \<and> can_encrypt key \<and> length nonce = enc_string_nonce_size key)"


section \<open>Strings\<close>

lemma encrypt_string_frame [simp]: "snd (encrypt_string L s nonce k c) = c"
  by (simp add: encrypt_string_def act_read_def)

lemma decrypt_string_frame [simp]: "snd (decrypt_string L e k c) = c"
  by (simp add: decrypt_string_def decrypt_bytes_def act_then_def act_read_def split: result.split prod.split)

lemma act_or_default_frame [simp]: "snd (act_or_default f c) = snd (f c)"
  by (simp add: act_or_default_def split: prod.split)

lemma fst_act_or_default [simp]: "fst (act_or_default f c) = Ok (case fst (f c) of Ok s \<Rightarrow> s | Err _ \<Rightarrow> [])"
  by (simp add: act_or_default_def split: prod.split)

lemma act_then_read:
  "snd (f c) = c \<Longrightarrow> act_then f (\<lambda>x. act_read (\<lambda>_. Ok (g x))) c = (map_ok g (fst (f c)), c)"
  by (cases "f c"; cases "fst (f c)") (auto simp: act_then_def act_read_def)

lemma string_roundtrip:
  assumes "crypto_lib_ok L" "usable c k nonce" "valid_utf8 (string_bytes s)"
  shows "\<exists>e. fst (encrypt_string L s nonce k c) = Ok e \<and> fst (decrypt_string L e k c) = Ok s"
proof -
  obtain key where key: "get_symmetric_key c k = Ok key" "symmetric_key_wf key" "can_encrypt key" "length nonce = enc_string_nonce_size key"
    using assms(2) by (auto simp: usable_def split: result.splits)
  obtain e where e: "encrypt_with_key L (string_bytes s) key content_format.Utf8 nonce = Ok e"
    "decrypt_with_key L e key = Ok (string_bytes s)"
    using encrypt_with_key_Ok [OF assms(1) key(2-4), of "string_bytes s" content_format.Utf8]
    by (auto simp: unreadable_format_def)
  then show ?thesis using encrypt_data_eq [OF key(1)] decrypt_data_Ok [OF key(1,3) e(2)] assms(3)
    by (simp add: encrypt_string_def decrypt_string_def decrypt_bytes_def act_then_def act_read_def
        string_from_utf8_def string_bytes_inverse)
qed


section \<open>Encryptable items\<close>

text \<open>
  The contract between \<open>CompositeEncryptable\<close>, \<open>Decryptable\<close> and \<open>IdentifyKey\<close> of a pair of types: both
  operations leave the context alone, a view and the item made of it name the same key, and under that
  key the item decrypts to the view.
\<close>

locale encryptable_item =
  fixes encrypt :: "crypto_lib \<Rightarrow> 'view \<times> bytes \<Rightarrow> symmetric_key_slot_id \<Rightarrow> (('priv, 'sig) key_store_context, 'item) action"
    and decrypt :: "crypto_lib \<Rightarrow> 'item \<Rightarrow> symmetric_key_slot_id \<Rightarrow> (('priv, 'sig) key_store_context, 'view) action"
    and view_key :: "'view \<Rightarrow> symmetric_key_slot_id"
    and item_key :: "'item \<Rightarrow> symmetric_key_slot_id"
    and content :: "'view \<Rightarrow> string"
  assumes encrypt_frame: "snd (encrypt L x k c) = c"
    and decrypt_frame: "snd (decrypt L i k c) = c"
    and roundtrip: "crypto_lib_ok L \<Longrightarrow> usable c k nonce \<Longrightarrow> valid_utf8 (string_bytes (content v)) \<Longrightarrow>
      \<exists>i. fst (encrypt L (v, nonce) k c) = Ok i \<and> item_key i = view_key v \<and> fst (decrypt L i k c) = Ok v"
begin

lemma frames: "ctx_frame c (snd (encrypt L x k c))" "ctx_frame c (snd (decrypt L i k c))"
  using ctx_steps_keep [of c c] by (simp_all add: encrypt_frame decrypt_frame)

lemma list_roundtrip:
  assumes "crypto_lib_ok L"
    and "\<forall>(v, nonce) \<in> set items. usable (context_ro s) (view_key v) nonce \<and> valid_utf8 (string_bytes (content v))"
  shows "\<exists>outs. encrypt_list n sched (\<lambda>x. view_key (fst x)) (encrypt L) s items = Ok outs
    \<and> decrypt_list n' sched' item_key (decrypt L) s outs = Ok (map fst items)"
proof -
  have "\<exists>outs. map (\<lambda>x. fst (encrypt L x (view_key (fst x)) (context_ro s))) items = map Ok outs
      \<and> map (\<lambda>i. fst (decrypt L i (item_key i) (context_ro s))) outs = map Ok (map fst items)"
    using assms(2)
  proof (induction items)
    case (Cons x items)
    then obtain outs where outs: "map (\<lambda>x. fst (encrypt L x (view_key (fst x)) (context_ro s))) items = map Ok outs"
      "map (\<lambda>i. fst (decrypt L i (item_key i) (context_ro s))) outs = map Ok (map fst items)" by auto
    obtain i where "fst (encrypt L x (view_key (fst x)) (context_ro s)) = Ok i" "item_key i = view_key (fst x)"
      "fst (decrypt L i (view_key (fst x)) (context_ro s)) = Ok (fst x)"
      using roundtrip [OF assms(1), of "context_ro s" "view_key (fst x)" "snd x" "fst x"] Cons.prems by auto
    then show ?case using outs by (intro exI [of _ "i # outs"]) simp
  qed simp
  then show ?thesis
    by (simp add: encrypt_list_def decrypt_list_def run_chunks_sequential frames par_collect_Ok)
qed

end

lemmas item_defs = folder_encrypt_composite_def folder_decrypt_def folder_key_identifier_def folder_view_key_identifier_def
  password_history_encrypt_composite_def password_history_decrypt_def password_history_key_identifier_def
  password_history_view_key_identifier_def collection_encrypt_composite_def collection_decrypt_def
  collection_key_identifier_def collection_view_key_identifier_def

interpretation folder_item: encryptable_item folder_encrypt_composite folder_decrypt folder_view_key_identifier
  folder_key_identifier folder_view_name
proof unfold_locales
  show "\<exists>i. fst (folder_encrypt_composite L (v, nonce) k c) = Ok i \<and> folder_key_identifier i = folder_view_key_identifier v
      \<and> fst (folder_decrypt L i k c) = Ok v"
    if "crypto_lib_ok L" "usable c k nonce" "valid_utf8 (string_bytes (folder_view_name v))"
    for L and c :: "('priv, 'sig) key_store_context" and k nonce v
    using string_roundtrip [OF that] by (auto simp: item_defs act_then_read)
qed (auto simp: item_defs act_then_read split: prod.splits)

interpretation password_history_item: encryptable_item password_history_encrypt_composite password_history_decrypt
  password_history_view_key_identifier password_history_key_identifier history_view_password
proof unfold_locales
  show "\<exists>i. fst (password_history_encrypt_composite L (v, nonce) k c) = Ok i
      \<and> password_history_key_identifier i = password_history_view_key_identifier v \<and> fst (password_history_decrypt L i k c) = Ok v"
    if "crypto_lib_ok L" "usable c k nonce" "valid_utf8 (string_bytes (history_view_password v))"
    for L and c :: "('priv, 'sig) key_store_context" and k nonce v
    using string_roundtrip [OF that] by (auto simp: item_defs act_then_read)
qed (auto simp: item_defs act_then_read split: prod.splits)

interpretation collection_item: encryptable_item collection_encrypt_composite collection_decrypt
  collection_view_key_identifier collection_key_identifier view_name
proof unfold_locales
  show "\<exists>i. fst (collection_encrypt_composite L (v, nonce) k c) = Ok i
      \<and> collection_key_identifier i = collection_view_key_identifier v \<and> fst (collection_decrypt L i k c) = Ok v"
    if "crypto_lib_ok L" "usable c k nonce" "valid_utf8 (string_bytes (view_name v))"
    for L and c :: "('priv, 'sig) key_store_context" and k nonce v
    using string_roundtrip [OF that] by (auto simp: item_defs act_then_read Let_def)
qed (auto simp: item_defs act_then_read Let_def split: prod.splits)


section \<open>Properties\<close>

text \<open>C26: Encrypting a list of folders, of password history entries or of collections with the keys of a
  store, in parallel chunks, and decrypting the result gives the views back in order, whatever the
  numbers of threads; if each view names a key of the store that may encrypt: the user key, the
  local user data key, or the key of the organization.\<close>

theorem vault_items_roundtrip:
  fixes s :: "('priv, 'sig) key_store_inner"
  assumes "crypto_lib_ok L"
    and "\<forall>(v, nonce) \<in> set folders. usable (context_ro s) User nonce \<and> valid_utf8 (string_bytes (folder_view_name v))"
    and "\<forall>(v, nonce) \<in> set history. usable (context_ro s) LocalUserData nonce \<and> valid_utf8 (string_bytes (history_view_password v))"
    and "\<forall>(v, nonce) \<in> set collections. usable (context_ro s) (Organization (view_organization_id v)) nonce
           \<and> valid_utf8 (string_bytes (view_name v))"
  shows "(\<exists>outs. encrypt_list n sched (\<lambda>x. folder_view_key_identifier (fst x)) (folder_encrypt_composite L) s folders = Ok outs
      \<and> decrypt_list n' sched' folder_key_identifier (folder_decrypt L) s outs = Ok (map fst folders))
    \<and> (\<exists>outs. encrypt_list n sched (\<lambda>x. password_history_view_key_identifier (fst x)) (password_history_encrypt_composite L) s history = Ok outs
      \<and> decrypt_list n' sched' password_history_key_identifier (password_history_decrypt L) s outs = Ok (map fst history))
    \<and> (\<exists>outs. encrypt_list n sched (\<lambda>x. collection_view_key_identifier (fst x)) (collection_encrypt_composite L) s collections = Ok outs
      \<and> decrypt_list n' sched' collection_key_identifier (collection_decrypt L) s outs = Ok (map fst collections))"
  using assms(2-4)
  by (intro conjI folder_item.list_roundtrip password_history_item.list_roundtrip collection_item.list_roundtrip assms(1))
    (simp_all add: item_defs)

theorem vault_items_roundtrip_witness:
  "\<exists>s :: (u8, unit) key_store_inner. \<exists>outs.
     encrypt_list 4 0 (\<lambda>x. folder_view_key_identifier (fst x)) (folder_encrypt_composite crypto_ref) s
       [(\<lparr>folder_view_id = Some 1, folder_view_name = ''Work'', folder_view_revision_date = 0\<rparr>, replicate 16 9)] = Ok outs
     \<and> decrypt_list 2 0 folder_key_identifier (folder_decrypt crypto_ref) s outs
       = Ok [\<lparr>folder_view_id = Some 1, folder_view_name = ''Work'', folder_view_revision_date = 0\<rparr>]"
proof -
  define s :: "(u8, unit) key_store_inner" where "s = key_store_default
    \<lparr>symmetric_keys := backend_upsert User (Aes256CbcHmacKey (replicate 64 3)) create_store\<rparr>"
  let ?v = "\<lparr>folder_view_id = Some 1, folder_view_name = ''Work'', folder_view_revision_date = 0\<rparr>"
  have "usable (context_ro s) User (replicate 16 9)"
    by (simp add: usable_def get_symmetric_key_def context_ro_def s_def basic.get_upsert key_sizes)
  moreover have "valid_utf8 (string_bytes (folder_view_name ?v))" by (simp add: string_bytes_def)
  ultimately show ?thesis
    using vault_items_roundtrip [OF crypto_ref_ok, of "[(?v, replicate 16 9)]" s "[]" "[]" 4 0 2 0] by auto
qed

text \<open>What happens to texts that do not decrypt: a folder or a password history entry is returned with an
  empty text, whereas a collection is refused, even if it has an email that would replace its name.\<close>

lemma undecryptable_texts:
  "fst (decrypt_string L (folder_name f) k c) = Err e \<Longrightarrow>
     fst (folder_decrypt L f k c) = Ok \<lparr>folder_view_id = folder_id f, folder_view_name = [],
       folder_view_revision_date = folder_revision_date f\<rparr>"
  "fst (decrypt_string L (history_password h) k c) = Err e \<Longrightarrow>
     fst (password_history_decrypt L h k c) = Ok \<lparr>history_view_password = [], history_view_last_used_date = history_last_used_date h\<rparr>"
  "fst (decrypt_string L (collection_name w) k c) = Err e \<Longrightarrow> fst (collection_decrypt L w k c) = Err e"
  by (simp_all add: item_defs act_then_read Let_def)

end
