(* ===== verification/Totp.thy ===== *)
theory Totp
  imports Crypto_Types "HOL-Library.Signed_Division"
begin

text \<open>
  Time-based one-time passwords (\<open>crates/bitwarden-vault/src/totp.rs\<close>).  Keys are ASCII texts.  URLs,
  percent coding, the unpadded Base32 encoder and the HMACs come from other crates and are parameters.
  The power in \<open>derive_otp\<close> panics on overflow in builds with overflow checks and wraps in others: an
  argument says which.  A panic is \<open>None\<close>.
\<close>

unbundle bit_operations_syntax

section \<open>Model\<close>

definition BASE32_CHARS :: string where
  "BASE32_CHARS = ''ABCDEFGHIJKLMNOPQRSTUVWXYZ234567''"

definition STEAM_CHARS :: string where
  "STEAM_CHARS = ''23456789BCDFGHJKMNPQRTVWXY''"

datatype totp_algorithm = Sha1 | Sha256 | Sha512 | Steam

definition DEFAULT_ALGORITHM :: totp_algorithm where
  "DEFAULT_ALGORITHM = Sha1"

definition DEFAULT_DIGITS :: nat where
  "DEFAULT_DIGITS = 6"

definition DEFAULT_PERIOD :: nat where
  "DEFAULT_PERIOD = 30"

datatype totp_error = InvalidOtpauth | MissingSecret | TotpCrypto crypto_error

record totp_response =
  response_code :: string
  response_period :: nat

record totp_mac =
  hmac_sha1 :: "bytes \<Rightarrow> bytes \<Rightarrow> bytes"
  hmac_sha256 :: "bytes \<Rightarrow> bytes \<Rightarrow> bytes"
  hmac_sha512 :: "bytes \<Rightarrow> bytes \<Rightarrow> bytes"

text \<open>The sizes of the digests.\<close>

definition totp_mac_ok :: "totp_mac \<Rightarrow> bool" where
  "totp_mac_ok M \<longleftrightarrow> (\<forall>k t. length (hmac_sha1 M k t) = 20 \<and> length (hmac_sha256 M k t) = 32 \<and> length (hmac_sha512 M k t) = 64)"

primrec derive_hash :: "totp_mac \<Rightarrow> totp_algorithm \<Rightarrow> bytes \<Rightarrow> bytes \<Rightarrow> bytes" where
  "derive_hash M Sha1 key time = hmac_sha1 M key time"
| "derive_hash M Sha256 key time = hmac_sha256 M key time"
| "derive_hash M Sha512 key time = hmac_sha512 M key time"
| "derive_hash M Steam key time = hmac_sha1 M key time"

record totp =
  totp_account :: "string option"
  totp_alg :: totp_algorithm
  totp_digits :: nat
  totp_issuer :: "string option"
  totp_period :: nat
  totp_secret :: bytes

fun steam_loop :: "nat \<Rightarrow> u32 \<Rightarrow> string" where
  "steam_loop 0 full_code = []"
| "steam_loop (Suc n) full_code =
     STEAM_CHARS ! (unat full_code mod length STEAM_CHARS) # steam_loop n (full_code div of_nat (length STEAM_CHARS))"

definition derive_steam_otp :: "u32 \<Rightarrow> nat \<Rightarrow> string" where
  "derive_steam_otp binary digits = steam_loop digits (binary AND 0x7fffffff)"

definition derive_binary :: "bytes \<Rightarrow> u32 option" where
  "derive_binary hash =
     (let offset = unat ((if hash = [] then 0 else List.last hash) AND 15)
      in if offset + 3 < length hash
         then Some (push_bit 24 (ucast (hash ! offset AND 127)) OR push_bit 16 (ucast (hash ! (offset + 1)))
                OR push_bit 8 (ucast (hash ! (offset + 2))) OR ucast (hash ! (offset + 3)))
         else None)"

text \<open>\<open>10_u32.pow(digits)\<close>\<close>

definition pow_u32 :: "bool \<Rightarrow> nat \<Rightarrow> nat option" where
  "pow_u32 overflow_checks digits =
     (if 10 ^ digits < (2 :: nat) ^ 32 then Some (10 ^ digits)
      else if overflow_checks then None else Some (10 ^ digits mod 2 ^ 32))"

text \<open>The format with a minimal width, filled with zeros.\<close>

definition format_width :: "nat \<Rightarrow> nat \<Rightarrow> string" where
  "format_width width n = (let s = string_of_nat n in replicate (width - length s) CHR ''0'' @ s)"

definition derive_otp :: "bool \<Rightarrow> totp_mac \<Rightarrow> totp \<Rightarrow> int \<Rightarrow> string option" where
  "derive_otp overflow_checks M self time =
     (if totp_period self = 0 then None
      else
      let time = time sdiv int (totp_period self);
          hash = derive_hash M (totp_alg self) (totp_secret self) (be_bytes 8 (unat (of_int time :: u64)))
      in Option.bind (derive_binary hash) (\<lambda>binary.
         if totp_alg self = Steam then Some (derive_steam_otp binary (totp_digits self))
         else Option.bind (pow_u32 overflow_checks (totp_digits self)) (\<lambda>modulus.
              if modulus = 0 then None else Some (format_width (totp_digits self) (unat binary mod modulus)))))"

definition to_lowercase :: "string \<Rightarrow> string" where
  "to_lowercase = map (\<lambda>c. let n = of_char c :: nat in if 65 \<le> n \<and> n \<le> 90 then char_of (n + 32) else c)"

definition to_uppercase :: "string \<Rightarrow> string" where
  "to_uppercase = map (\<lambda>c. let n = of_char c :: nat in if 97 \<le> n \<and> n \<le> 122 then char_of (n - 32) else c)"

definition str_find :: "string \<Rightarrow> char \<Rightarrow> nat option" where
  "str_find s c = find (\<lambda>i. s ! i = c) [0..<length s]"

definition decode_b32 :: "string \<Rightarrow> bytes" where
  "decode_b32 s =
     (let bits = concat (map (\<lambda>c. case str_find BASE32_CHARS c of Some i \<Rightarrow> to_bits 5 i | None \<Rightarrow> []) (to_uppercase s))
      in map (\<lambda>chunk. of_nat (of_bits chunk)) (chunks_exact 8 bits))"

text \<open>\<open>str::parse\<close> for an unsigned integer of 32 bits\<close>

definition parse_u32 :: "string \<Rightarrow> nat option" where
  "parse_u32 s =
     (let ds = (case s of c # cs \<Rightarrow> if c = CHR ''+'' then cs else s | [] \<Rightarrow> []);
          n = foldl (\<lambda>v c. 10 * v + (of_char c - 48)) 0 ds
      in if ds \<noteq> [] \<and> (\<forall>c \<in> set ds. 48 \<le> (of_char c :: nat) \<and> (of_char c :: nat) \<le> 57) \<and> n < 2 ^ 32 then Some n else None)"

fun split_once :: "char \<Rightarrow> string \<Rightarrow> (string \<times> string) option" where
  "split_once d [] = None"
| "split_once d (c # cs) = (if c = d then Some ([], cs) else map_option (\<lambda>(a, b). (c # a, b)) (split_once d cs))"

definition trim :: "string \<Rightarrow> string" where
  "trim s = (let space = (\<lambda>c. let n = of_char c :: nat in 9 \<le> n \<and> n \<le> 13 \<or> n = 32)
             in rev (dropWhile space (rev (dropWhile space s))))"

text \<open>A parsed URL, and the functions on URLs and texts of other crates.\<close>

record url =
  url_path :: string
  url_query_pairs :: "(string \<times> string) list"

record url_lib =
  url_parse :: "string \<Rightarrow> url option"
  percent_decode :: "string \<Rightarrow> string"
  percent_encode :: "string \<Rightarrow> string"
  otpauth_url :: "string \<Rightarrow> string \<Rightarrow> string"
  base32_nopad :: "bytes \<Rightarrow> string"

definition query_algorithm :: "string option \<Rightarrow> totp_algorithm" where
  "query_algorithm value =
     (case value of
        Some v \<Rightarrow> if v = ''sha1'' then Sha1 else if v = ''sha256'' then Sha256
                 else if v = ''sha512'' then Sha512 else DEFAULT_ALGORITHM
      | None \<Rightarrow> DEFAULT_ALGORITHM)"

definition query_digits :: "string option \<Rightarrow> nat" where
  "query_digits value = (case Option.bind value parse_u32 of Some v \<Rightarrow> min v 10 | None \<Rightarrow> DEFAULT_DIGITS)"

definition query_period :: "string option \<Rightarrow> nat" where
  "query_period value = (case Option.bind value parse_u32 of Some v \<Rightarrow> max v 1 | None \<Rightarrow> DEFAULT_PERIOD)"

text \<open>The branch for a URL.\<close>

definition totp_of_url :: "url_lib \<Rightarrow> url \<Rightarrow> (totp, totp_error) result" where
  "totp_of_url U url =
     (let decoded_path = percent_decode U (url_path url);
          label = strip_prefix ''/'' decoded_path;
          (issuer, account) =
            (case Option.bind label (split_once CHR '':'') of
               Some (issuer, account) \<Rightarrow> (Some (trim issuer), Some (trim account))
             | None \<Rightarrow> (None, label));
          parts = map_of (rev (url_query_pairs url))
      in and_then (ok_or MissingSecret (parts ''secret'')) (\<lambda>secret.
         Ok \<lparr>totp_account = account, totp_alg = query_algorithm (parts ''algorithm''),
             totp_digits = query_digits (parts ''digits''),
             totp_issuer = (case parts ''issuer'' of Some v \<Rightarrow> Some v | None \<Rightarrow> issuer),
             totp_period = query_period (parts ''period''), totp_secret = decode_b32 secret\<rparr>))"

definition totp_from_str :: "url_lib \<Rightarrow> string \<Rightarrow> (totp, totp_error) result" where
  "totp_from_str U key =
     (let key = to_lowercase key
      in if strip_prefix ''otpauth://'' key \<noteq> None
         then and_then (ok_or InvalidOtpauth (url_parse U key)) (totp_of_url U)
         else
           (case strip_prefix ''steam://'' key of
              Some secret \<Rightarrow>
                Ok \<lparr>totp_account = None, totp_alg = Steam, totp_digits = 5, totp_issuer = None,
                    totp_period = DEFAULT_PERIOD, totp_secret = decode_b32 secret\<rparr>
            | None \<Rightarrow>
                Ok \<lparr>totp_account = None, totp_alg = DEFAULT_ALGORITHM, totp_digits = DEFAULT_DIGITS, totp_issuer = None,
                    totp_period = DEFAULT_PERIOD, totp_secret = decode_b32 key\<rparr>))"

definition algorithm_to_string :: "totp_algorithm \<Rightarrow> string" where
  "algorithm_to_string self = (case self of Sha1 \<Rightarrow> ''SHA1'' | Sha256 \<Rightarrow> ''SHA256'' | Sha512 \<Rightarrow> ''SHA512'' | Steam \<Rightarrow> ''SHA1'')"

definition totp_to_string :: "url_lib \<Rightarrow> totp \<Rightarrow> string" where
  "totp_to_string U self =
     (let secret_b32 = base32_nopad U (totp_secret self)
      in if totp_alg self = Steam then ''steam://'' @ secret_b32
         else
         let encoded_issuer = map_option (\<lambda>i. percent_encode U (filter (\<lambda>c. c \<noteq> CHR '':'') i)) (totp_issuer self);
             encoded_account = map_option (\<lambda>a. percent_encode U (filter (\<lambda>c. c \<noteq> CHR '':'') a)) (totp_account self);
             label = (case (encoded_issuer, encoded_account) of
                        (Some issuer, Some account) \<Rightarrow> issuer @ '':'' @ account
                      | (None, Some account) \<Rightarrow> account
                      | _ \<Rightarrow> []);
             query_params =
               [''secret='' @ secret_b32]
               @ (case encoded_issuer of Some issuer \<Rightarrow> [''issuer='' @ issuer] | None \<Rightarrow> [])
               @ (if totp_period self \<noteq> DEFAULT_PERIOD then [''period='' @ string_of_nat (totp_period self)] else [])
               @ (if totp_alg self \<noteq> DEFAULT_ALGORITHM then [''algorithm='' @ algorithm_to_string (totp_alg self)] else [])
               @ (if totp_digits self \<noteq> DEFAULT_DIGITS then [''digits='' @ string_of_nat (totp_digits self)] else [])
         in otpauth_url U label (join ''&'' query_params))"

text \<open>The time is that of the request or of the clock.\<close>

definition generate_totp :: "bool \<Rightarrow> totp_mac \<Rightarrow> url_lib \<Rightarrow> int \<Rightarrow> string \<Rightarrow> int option \<Rightarrow> (totp_response option, totp_error) result" where
  "generate_totp overflow_checks M U now key time =
     map_ok (\<lambda>params.
       let time = (case time of Some t \<Rightarrow> t | None \<Rightarrow> now)
       in map_option (\<lambda>otp. \<lparr>response_code = otp, response_period = totp_period params\<rparr>)
            (derive_otp overflow_checks M params time))
     (totp_from_str U key)"


section \<open>Specification vocabulary\<close>

text \<open>The Base32 encoding of RFC 4648 without padding.\<close>

definition b32_encode :: "bytes \<Rightarrow> string" where
  "b32_encode bs =
     map (\<lambda>chunk. BASE32_CHARS ! of_bits (chunk @ replicate (5 - length chunk) False))
       (chunks 5 (concat (map (\<lambda>b. to_bits 8 (unat b)) bs)))"

text \<open>The fields that a parsed key has.\<close>

definition totp_limits :: "totp \<Rightarrow> bool" where
  "totp_limits t \<longleftrightarrow> 0 < totp_period t \<and> totp_digits t \<le> 10 \<and> (totp_alg t = Steam \<longrightarrow> totp_digits t = 5)"

definition decimal_value :: "string \<Rightarrow> nat" where
  "decimal_value s = foldl (\<lambda>v c. 10 * v + (of_char c - 48)) 0 s"

definition is_decimal :: "string \<Rightarrow> bool" where
  "is_decimal s \<longleftrightarrow> set s \<subseteq> set ''0123456789''"

text \<open>The characters of a text that count for Base32, ignoring case.\<close>

definition b32_content :: "string \<Rightarrow> string" where
  "b32_content s = filter (\<lambda>c. c \<in> set BASE32_CHARS) (to_uppercase s)"


text \<open>Functions for examples: constant digests, and a parser that finds ten digits and a secret.\<close>

definition example_mac :: totp_mac where
  "example_mac = \<lparr>hmac_sha1 = (\<lambda>_ _. replicate 20 7), hmac_sha256 = (\<lambda>_ _. replicate 32 7), hmac_sha512 = (\<lambda>_ _. replicate 64 7)\<rparr>"

definition example_url_lib :: url_lib where
  "example_url_lib = \<lparr>url_parse = (\<lambda>_. Some \<lparr>url_path = [], url_query_pairs = [(''digits'', ''12''), (''secret'', ''gezdgnbv'')]\<rparr>),
     percent_decode = (\<lambda>s. s), percent_encode = (\<lambda>s. s), otpauth_url = (\<lambda>l q. []), base32_nopad = b32_encode\<rparr>"

definition example_totp :: totp where
  "example_totp = \<lparr>totp_account = None, totp_alg = Sha1, totp_digits = 10, totp_issuer = None, totp_period = 30,
     totp_secret = decode_b32 ''gezdgnbv''\<rparr>"


section \<open>Decimal numbers\<close>

lemma of_digit_char: "d < 10 \<Longrightarrow> of_char (digit_char d) - 48 = d"
  by (simp add: digit_char_def of_char_of)

lemma digit_char_decimal: "d < 10 \<Longrightarrow> digit_char d \<in> set ''0123456789''"
proof -
  have "list_all (\<lambda>d. digit_char d \<in> set ''0123456789'') [0..<10]" by code_simp
  then show "d < 10 \<Longrightarrow> digit_char d \<in> set ''0123456789''" by (simp add: list_all_iff del: list.set)
qed

lemma string_of_nat_decimal: "decimal_value (string_of_nat n) = n \<and> is_decimal (string_of_nat n)"
proof (induction n rule: string_of_nat.induct)
  case (1 n)
  show ?case
  proof (cases "n < 10")
    case True
    then show ?thesis using digit_char_decimal [of n]
      by (simp add: string_of_nat.simps [of n] decimal_value_def is_decimal_def of_digit_char)
  next
    case False
    then show ?thesis using 1 digit_char_decimal [of "n mod 10"]
      by (simp add: string_of_nat.simps [of n] decimal_value_def is_decimal_def of_digit_char)
  qed
qed

lemma string_of_nat_length: "n < 10 ^ d \<Longrightarrow> length (string_of_nat n) \<le> max 1 d"
proof (induction n arbitrary: d rule: string_of_nat.induct)
  case (1 n)
  show ?case
  proof (cases "n < 10")
    case True
    then show ?thesis by (simp add: string_of_nat_small)
  next
    case False
    then obtain e where d: "d = Suc e" "0 < e" using "1.prems" by (cases d; cases "d - 1") auto
    then have "n div 10 < 10 ^ e" using "1.prems" by (simp add: less_mult_imp_div_less mult.commute)
    then have "length (string_of_nat (n div 10)) \<le> max 1 e" using "1.IH" False by blast
    then show ?thesis using False d by (simp add: string_of_nat.simps [of n])
  qed
qed

lemma format_width_digits:
  assumes "n < 10 ^ d"
  shows "is_decimal (format_width d n)" "decimal_value (format_width d n) = n" "length (format_width d n) = max 1 d"
proof -
  have zeros: "decimal_value (replicate k CHR ''0'' @ s) = decimal_value s" for k s
    by (induction k) (simp_all add: decimal_value_def)
  show "is_decimal (format_width d n)" "decimal_value (format_width d n) = n"
    using string_of_nat_decimal [of n] by (auto simp: format_width_def Let_def zeros is_decimal_def)
  have "0 < length (string_of_nat n)" by (simp add: string_of_nat.simps [of n])
  then show "length (format_width d n) = max 1 d"
    using string_of_nat_length [OF assms]
    unfolding format_width_def Let_def length_append length_replicate by linarith
qed


section \<open>Codes\<close>

lemma derive_binary_Some:
  assumes "19 \<le> length hash"
  obtains b where "derive_binary hash = Some b" "unat b < 2 ^ 31"
proof -
  define offset where "offset = unat ((if hash = [] then 0 else List.last hash) AND 15)"
  have "((if hash = [] then 0 else List.last hash) AND 15 :: u8) \<le> 15" by (rule word_and_le1)
  then have "offset \<le> 15" unfolding offset_def by (simp add: word_le_nat_alt)
  moreover define b :: u32 where "b = push_bit 24 (ucast (hash ! offset AND 127)) OR push_bit 16 (ucast (hash ! (offset + 1)))
      OR push_bit 8 (ucast (hash ! (offset + 2))) OR ucast (hash ! (offset + 3))"
  ultimately have "derive_binary hash = Some b"
    using assms by (simp add: derive_binary_def Let_def offset_def [symmetric])
  moreover have "\<not> bit b n" if "31 \<le> n" for n
  proof -
    have seven: "(127 :: u8) = mask 7" by (simp add: mask_eq_exp_minus_1)
    have "\<not> bit (127 :: u8) (n - 24)" unfolding seven using that by (auto simp: bit_mask_iff)
    moreover have "\<not> bit (w :: u8) m" if "8 \<le> m" for w m
      using that bit_imp_le_length [of w m] by auto
    ultimately show ?thesis using that by (auto simp: b_def bit_simps)
  qed
  then have "take_bit 31 b = b" by (intro bit_eqI) (auto simp: bit_take_bit_iff not_le [symmetric])
  then have "unat b = take_bit 31 (unat b)" by (metis unsigned_take_bit_eq)
  then have "unat b < 2 ^ 31" by (metis take_bit_nat_less_exp)
  ultimately show thesis using that by blast
qed

lemma derive_hash_length: "totp_mac_ok M \<Longrightarrow> 19 \<le> length (derive_hash M alg key time)"
  by (cases alg) (simp_all add: totp_mac_ok_def)

lemma steam_loop_chars: "length (steam_loop n c) = n \<and> set (steam_loop n c) \<subseteq> set STEAM_CHARS"
proof (induction n arbitrary: c)
  case (Suc n)
  have "unat c mod length STEAM_CHARS < length STEAM_CHARS" by (simp add: STEAM_CHARS_def)
  then have "STEAM_CHARS ! (unat c mod length STEAM_CHARS) \<in> set STEAM_CHARS" by (rule nth_mem)
  with Suc show ?case by simp
qed simp

lemma query_bounds: "0 < query_period p" "query_digits d \<le> 10" "query_algorithm a \<noteq> Steam"
  by (simp_all add: query_period_def query_digits_def query_algorithm_def DEFAULT_PERIOD_def DEFAULT_DIGITS_def
      DEFAULT_ALGORITHM_def less_max_iff_disj split: option.split)

lemma totp_of_url_limits: "totp_of_url U url = Ok t \<Longrightarrow> totp_limits t"
  unfolding totp_of_url_def Let_def
  by (auto simp: result_simps query_bounds totp_limits_def split: prod.splits)

lemma parsed_totp:
  assumes "totp_from_str U key = Ok t"
  shows "totp_limits t"
proof (cases "strip_prefix ''otpauth://'' (to_lowercase key)")
  case None
  then show ?thesis using assms
    by (cases "strip_prefix ''steam://'' (to_lowercase key)")
      (auto simp only: totp_from_str_def Let_def totp_limits_def DEFAULT_PERIOD_def DEFAULT_DIGITS_def DEFAULT_ALGORITHM_def
        totp.simps result.inject option.simps if_False simp_thms totp_algorithm.simps)
next
  case (Some r)
  then show ?thesis using assms totp_of_url_limits [of U _ t]
    by (cases "url_parse U (to_lowercase key)") (simp_all add: totp_from_str_def Let_def)
qed


section \<open>Base32\<close>

lemma find_index: "i < length s \<Longrightarrow> distinct s \<Longrightarrow> str_find s (s ! i) = Some i"
  by (auto simp: str_find_def find_Some_iff nth_eq_iff_index_eq intro!: exI [of _ i])

lemma find_absent: "c \<notin> set s \<Longrightarrow> str_find s c = None"
  by (auto simp: str_find_def find_None_iff)

lemma base32_alphabet: "distinct BASE32_CHARS" "length BASE32_CHARS = 32"
  by (simp_all add: BASE32_CHARS_def)

lemma decode_b32_content:
  "decode_b32 s = map (\<lambda>chunk. of_nat (of_bits chunk))
     (chunks_exact 8 (concat (map (\<lambda>c. to_bits 5 (the (str_find BASE32_CHARS c))) (b32_content s))))"
proof -
  have "concat (map (\<lambda>c. case str_find BASE32_CHARS c of Some i \<Rightarrow> to_bits 5 i | None \<Rightarrow> []) cs)
      = concat (map (\<lambda>c. to_bits 5 (the (str_find BASE32_CHARS c))) (filter (\<lambda>c. c \<in> set BASE32_CHARS) cs))" for cs
  proof (induction cs)
    case (Cons c cs)
    show ?case
    proof (cases "c \<in> set BASE32_CHARS")
      case True
      then obtain i where "i < length BASE32_CHARS" "c = BASE32_CHARS ! i" by (metis in_set_conv_nth)
      then have "str_find BASE32_CHARS c = Some i" using find_index base32_alphabet(1) by simp
      then show ?thesis using True Cons by simp
    next
      case False
      then show ?thesis using find_absent [OF False] Cons by simp
    qed
  qed simp
  then show ?thesis by (simp add: decode_b32_def b32_content_def Let_def)
qed

lemma chunks_in_range: "chunk \<in> set (chunks 5 bits) \<Longrightarrow> of_bits (chunk @ replicate (5 - length chunk) False) < 32"
  using of_bits_less [of "chunk @ replicate (5 - length chunk) False"] chunks_length [of chunk 5 bits] by simp

lemma encoded_bits:
  "concat (map (\<lambda>c. to_bits 5 (the (str_find BASE32_CHARS c))) (b32_encode bs))
   = concat (map (\<lambda>chunk. chunk @ replicate (5 - length chunk) False) (chunks 5 (concat (map (\<lambda>b. to_bits 8 (unat b)) bs))))"
proof -
  have "to_bits 5 (the (str_find BASE32_CHARS (BASE32_CHARS ! of_bits (chunk @ replicate (5 - length chunk) False))))
      = chunk @ replicate (5 - length chunk) False" if "chunk \<in> set (chunks 5 bits)" for chunk bits
    using chunks_in_range [OF that] chunks_length [OF that] to_bits_of_bits [of "chunk @ replicate (5 - length chunk) False"]
      find_index base32_alphabet by simp
  then show ?thesis unfolding b32_encode_def map_map o_def by (metis (no_types, lifting) map_cong)
qed

lemma padded_chunks:
  "\<exists>k < 5. concat (map (\<lambda>chunk. chunk @ replicate (5 - length chunk) False) (chunks 5 bits)) = bits @ replicate k False"
proof (induction "5 :: nat" bits rule: chunks.induct)
  case (1 bits)
  show ?case
  proof (cases "length bits < 5")
    case True
    then show ?thesis
      by (cases "bits = []") (auto simp: chunks.simps [of 5 bits] chunks.simps [of 5 "[]"] intro: exI [of _ 0] exI [of _ "5 - length bits"])
  next
    case False
    then have "bits \<noteq> []" by auto
    then obtain k where "k < 5" "concat (map (\<lambda>chunk. chunk @ replicate (5 - length chunk) False) (chunks 5 (drop 5 bits)))
        = drop 5 bits @ replicate k False" using "1.hyps" by auto
    then show ?thesis using False \<open>bits \<noteq> []\<close> by (auto simp: chunks.simps [of 5 bits] intro!: exI [of _ k])
  qed
qed

lemma decode_b32_encoded:
  assumes "b32_content s = b32_encode bs"
  shows "decode_b32 s = bs"
proof -
  let ?bits = "map (\<lambda>b. to_bits 8 (unat b)) bs"
  obtain k where k: "k < 5" "concat (map (\<lambda>c. to_bits 5 (the (str_find BASE32_CHARS c))) (b32_content s)) = concat ?bits @ replicate k False"
    using padded_chunks [of "concat ?bits"] encoded_bits [of bs] assms by auto
  have "chunks_exact 8 (concat ?bits @ replicate k False) = ?bits"
    using k(1) by (intro chunks_exact_concat) auto
  then show ?thesis unfolding decode_b32_content k(2)
    by (simp add: o_def of_bits_to_bits unat_u8_less map_idI)
qed


lemma upper_lower: "c \<in> set BASE32_CHARS \<Longrightarrow> to_uppercase (to_lowercase [c]) = [c]"
proof -
  assume "c \<in> set BASE32_CHARS"
  then have "\<not> (97 \<le> (of_char c :: nat) \<and> (of_char c :: nat) \<le> 122)" by (auto simp: BASE32_CHARS_def)
  moreover have "of_char (char_of (of_char c + 32 :: nat)) = (of_char c + 32 :: nat)" if "(of_char c :: nat) \<le> 90"
    using that by (simp add: of_char_of)
  ultimately show ?thesis by (auto simp: to_uppercase_def to_lowercase_def Let_def)
qed

lemma b32_content_lowercase: "b32_content (to_lowercase (b32_encode bs)) = b32_encode bs"
proof -
  have alphabet: "set (b32_encode bs) \<subseteq> set BASE32_CHARS"
    using chunks_in_range base32_alphabet(2) by (auto simp: b32_encode_def)
  have "to_uppercase (to_lowercase cs) = cs" if "set cs \<subseteq> set BASE32_CHARS" for cs
    using that upper_lower by (induction cs) (auto simp: to_uppercase_def to_lowercase_def)
  then show ?thesis using alphabet by (auto simp: b32_content_def filter_id_conv)
qed


section \<open>Properties\<close>

text \<open>C32: The code of a key that parses is well formed. A Steam code has five characters of the Steam
  alphabet. A code with at most nine digits is the value of the truncated hash, which is below
  \<open>2\<^sup>3\<^sup>1\<close>, modulo the power of ten, as that many decimal digits; and at least one digit. With ten
  digits, to which the code limits larger numbers, the power of ten does not fit 32 bits: the
  computation panics in builds with overflow checks, and otherwise reduces the value by 1410065408,
  which is not the value modulo ten to the tenth.\<close>

theorem totp_codes:
  assumes "totp_mac_ok M" "totp_from_str U key = Ok t"
  shows "\<exists>b. unat b < 2 ^ 31
    \<and> derive_binary (derive_hash M (totp_alg t) (totp_secret t)
        (be_bytes 8 (unat (of_int (time sdiv int (totp_period t)) :: u64)))) = Some b
    \<and> (case derive_otp checks M t time of
         None \<Rightarrow> checks \<and> totp_alg t \<noteq> Steam \<and> totp_digits t = 10
       | Some code \<Rightarrow>
           if totp_alg t = Steam then length code = 5 \<and> set code \<subseteq> set STEAM_CHARS
           else is_decimal code \<and> length code = max 1 (totp_digits t)
             \<and> (if totp_digits t = 10 then \<not> checks \<and> decimal_value code = unat b mod 1410065408
                else totp_digits t < 10 \<and> decimal_value code = unat b mod 10 ^ totp_digits t))"
proof -
  let ?hash = "derive_hash M (totp_alg t) (totp_secret t) (be_bytes 8 (unat (of_int (time sdiv int (totp_period t)) :: u64)))"
  obtain b where b: "derive_binary ?hash = Some b" "unat b < 2 ^ 31"
    using derive_binary_Some [OF derive_hash_length [OF assms(1)]] by blast
  have t: "0 < totp_period t" "totp_digits t \<le> 10" "totp_alg t = Steam \<longrightarrow> totp_digits t = 5"
    using parsed_totp [OF assms(2)] by (simp_all add: totp_limits_def)
  have otp: "derive_otp checks M t time =
      (if totp_alg t = Steam then Some (derive_steam_otp b (totp_digits t))
       else Option.bind (pow_u32 checks (totp_digits t)) (\<lambda>modulus.
         if modulus = 0 then None else Some (format_width (totp_digits t) (unat b mod modulus))))"
    using t(1) b(1) by (simp add: derive_otp_def Let_def)
  show ?thesis
  proof (cases "totp_alg t = Steam")
    case True
    then show ?thesis using b t(3) steam_loop_chars [of 5 "b AND 0x7fffffff"]
      by (intro exI [of _ b]) (simp add: otp derive_steam_otp_def)
  next
    case False
    show ?thesis
    proof (cases "totp_digits t = 10")
      case True
      have "unat b mod 1410065408 < 10 ^ 10" by (rule less_trans [of _ 1410065408]) simp_all
      from format_width_digits [OF this] show ?thesis using True False b
        by (intro exI [of _ b]) (simp add: otp pow_u32_def)
    next
      case digits: False
      then have "totp_digits t \<le> 9" using t(2) by simp
      then have "(10 :: nat) ^ totp_digits t \<le> 10 ^ 9" by (intro power_increasing) simp_all
      then have "(10 :: nat) ^ totp_digits t < 2 ^ 32" by simp
      then have "derive_otp checks M t time = Some (format_width (totp_digits t) (unat b mod 10 ^ totp_digits t))"
        using False by (simp add: otp pow_u32_def)
      then show ?thesis using b digits False t(2) format_width_digits [of "unat b mod 10 ^ totp_digits t" "totp_digits t"]
        by (intro exI [of _ b]) simp
    qed
  qed
qed

theorem totp_codes_witness:
  "totp_mac_ok example_mac \<and> totp_from_str example_url_lib ''otpauth://totp'' = Ok example_totp
   \<and> derive_otp True example_mac example_totp 0 = None"
proof -
  have mac: "totp_mac_ok example_mac" by (simp add: totp_mac_ok_def example_mac_def)
  have key: "to_lowercase ''otpauth://totp'' = ''otpauth://totp''" by (simp add: to_lowercase_def Let_def)
  have "query_digits (Some ''12'') = 10" by (simp add: query_digits_def parse_u32_def Let_def)
  then have "totp_of_url example_url_lib \<lparr>url_path = [], url_query_pairs = [(''digits'', ''12''), (''secret'', ''gezdgnbv'')]\<rparr>
      = Ok example_totp"
    by (simp add: totp_of_url_def example_url_lib_def example_totp_def query_algorithm_def query_period_def
        DEFAULT_ALGORITHM_def DEFAULT_PERIOD_def)
  then have parsed: "totp_from_str example_url_lib ''otpauth://totp'' = Ok example_totp"
    using key by (simp add: totp_from_str_def example_url_lib_def)
  have digits: "totp_digits example_totp = 10" "totp_alg example_totp = Sha1" by (simp_all add: example_totp_def)
  show ?thesis
    using totp_codes [OF mac parsed, of 0 True] mac parsed digits by (auto split: option.splits)
qed

text \<open>C33: A Base32 text decodes to the bytes that it encodes, whatever the case of its letters and
  whatever characters outside of the alphabet it has, such as padding and spaces. So a key in the
  text form of a Steam key, in which the secret is encoded by RFC 4648, parses to the same key.\<close>

theorem base32_secret_roundtrip:
  "(b32_content s = b32_encode bs \<longrightarrow> decode_b32 s = bs)
   \<and> (base32_nopad U (totp_secret t) = b32_encode (totp_secret t) \<and> totp_alg t = Steam \<and> totp_digits t = 5
        \<and> totp_period t = 30 \<and> totp_account t = None \<and> totp_issuer t = None
      \<longrightarrow> totp_from_str U (totp_to_string U t) = Ok t)"
proof (intro conjI impI)
  assume "b32_content s = b32_encode bs"
  then show "decode_b32 s = bs" by (rule decode_b32_encoded)
next
  assume t: "base32_nopad U (totp_secret t) = b32_encode (totp_secret t) \<and> totp_alg t = Steam \<and> totp_digits t = 5
      \<and> totp_period t = 30 \<and> totp_account t = None \<and> totp_issuer t = None"
  let ?e = "b32_encode (totp_secret t)"
  have "decode_b32 (to_lowercase ?e) = totp_secret t"
    by (rule decode_b32_encoded) (rule b32_content_lowercase)
  moreover have "to_lowercase (''steam://'' @ ?e) = ''steam://'' @ to_lowercase ?e"
    by (simp add: to_lowercase_def)
  ultimately show "totp_from_str U (totp_to_string U t) = Ok t"
    using t by (simp add: totp_from_str_def totp_to_string_def Let_def DEFAULT_PERIOD_def)
qed

theorem base32_secret_roundtrip_witness:
  "b32_content ''g-e='' = b32_encode [49] \<and> decode_b32 ''g-e='' = [49]"
proof -
  have two: "replicate 2 False = [False, False]" by (simp add: numeral_2_eq_2)
  have bits: "to_bits 8 49 = [False, False, True, True, False, False, False, True]" by code_simp
  have "b32_encode [49] = ''GE''"
    by (simp add: b32_encode_def bits chunks.simps [of 5] of_bits_def BASE32_CHARS_def two)
  moreover have "b32_content ''g-e='' = ''GE''"
    by (simp add: b32_content_def to_uppercase_def BASE32_CHARS_def Let_def char_of_def bit_Suc_0_iff)
  ultimately show ?thesis using base32_secret_roundtrip [of "''g-e=''" "[49]"] by simp
qed

end
