(* ===== verification/Attachment_Stream.thy ===== *)
theory Attachment_Stream
  imports Key_Store
begin

text \<open>
  Streaming encryption of attachments (\<open>crates/bitwarden-crypto/src/stream\<close>): the legacy stream of
  AES-CBC blocks with one HMAC, and the readers and writers around it.  The block cipher in CBC mode and
  the incremental HMAC are crates; they are the functions of \<open>stream_lib\<close> over their own states.  The
  reader or writer underneath is a type parameter of the source and a parameter here: the functions that
  poll it.  The random IV is an argument.  A panic is \<open>None\<close>, and so is a poll that never returns.
\<close>

section \<open>The cipher crates\<close>

record ('e, 'd, 'h) stream_lib =
  cbc_enc_new :: "bytes \<Rightarrow> bytes \<Rightarrow> 'e"
  cbc_enc_block :: "'e \<Rightarrow> bytes \<Rightarrow> bytes \<times> 'e"
  cbc_dec_new :: "bytes \<Rightarrow> bytes \<Rightarrow> 'd"
  cbc_dec_block :: "'d \<Rightarrow> bytes \<Rightarrow> bytes \<times> 'd"
  mac_new :: "bytes \<Rightarrow> 'h"
  mac_update :: "'h \<Rightarrow> bytes \<Rightarrow> 'h"
  mac_finalize :: "'h \<Rightarrow> bytes"


section \<open>Results of a step\<close>

datatype stream_creation_error = StreamWrongKeyType

datatype chunk_encryption_result =
    EncNeedMoreData
  | EncryptedChunk bytes
  | FinalEncryptedChunk bytes
  | StreamEncryptionError

datatype chunk_decryption_result =
    DecNeedMoreData
  | DecryptedChunk bytes
  | FinalDecryptedChunk bytes
  | StreamDecryptionError


section \<open>The legacy stream\<close>

definition AES256_CBC_BLOCK_SIZE :: nat where
  "AES256_CBC_BLOCK_SIZE = 16"

definition AES256_CBC_IV_SIZE :: nat where
  "AES256_CBC_IV_SIZE = 16"

definition HMAC_SIZE :: nat where
  "HMAC_SIZE = 32"

definition HEADER_LENGTH :: nat where
  "HEADER_LENGTH = AES256_CBC_IV_SIZE + HMAC_SIZE"

definition EMISSION_CHUNK_SIZE :: nat where
  "EMISSION_CHUNK_SIZE = 1024 * 1024"

definition validator_new :: "('e, 'd, 'h) stream_lib \<Rightarrow> bytes \<Rightarrow> bytes \<Rightarrow> 'h" where
  "validator_new S mac_key iv = mac_update S (mac_new S mac_key) iv"

definition validator_read_block :: "('e, 'd, 'h) stream_lib \<Rightarrow> 'h \<Rightarrow> bytes \<Rightarrow> 'h" where
  "validator_read_block S self data = mac_update S self data"

definition validator_end_stream :: "('e, 'd, 'h) stream_lib \<Rightarrow> 'h \<Rightarrow> bytes" where
  "validator_end_stream S self = mac_finalize S self"

definition validate_stream_end :: "('e, 'd, 'h) stream_lib \<Rightarrow> 'h \<Rightarrow> bytes \<Rightarrow> bool" where
  "validate_stream_end S self expected_mac \<longleftrightarrow> mac_finalize S self = expected_mac"

record stream_header =
  stream_iv :: bytes
  stream_mac :: bytes

definition header_to_bytes :: "stream_header \<Rightarrow> bytes" where
  "header_to_bytes header = stream_iv header @ stream_mac header"

definition header_from_bytes :: "bytes \<Rightarrow> stream_header" where
  "header_from_bytes bytes = \<lparr>stream_iv = take AES256_CBC_IV_SIZE bytes, stream_mac = drop AES256_CBC_IV_SIZE bytes\<rparr>"

text \<open>The contained plaintext if the padding is valid.\<close>

definition is_valid_pkcs7_padding :: "bytes \<Rightarrow> bytes option" where
  "is_valid_pkcs7_padding data =
     (if data = [] then None
      else
      let padding_len = unat (List.last data)
      in if padding_len = 0 \<or> padding_len > AES256_CBC_BLOCK_SIZE then None
         else if (\<forall>b \<in> set (drop (length data - padding_len) data). unat b = padding_len)
         then Some (take (length data - padding_len) data)
         else None)"

subsection \<open>Decryption\<close>

datatype ('d, 'h) decryptor_state =
    DecUninitialized bytes
  | DecStreaming 'd 'h bytes
  | DecDone
  | DecError

definition initialize :: "('e, 'd, 'h) stream_lib \<Rightarrow> stream_header \<Rightarrow> ('d, 'h) decryptor_state \<Rightarrow> ('d, 'h) decryptor_state option" where
  "initialize S header self =
     (case self of
        DecUninitialized key \<Rightarrow>
          (let (enc_key, mac_key) = split_to_subkeys key
           in Some (DecStreaming (cbc_dec_new S enc_key (stream_iv header))
                      (validator_new S mac_key (stream_iv header)) (stream_mac header)))
      | _ \<Rightarrow> None)"

definition read_block_ciphertext :: "bytes \<Rightarrow> (bytes \<times> bytes) option" where
  "read_block_ciphertext buffer =
     (if length buffer < AES256_CBC_BLOCK_SIZE then None
      else Some (take AES256_CBC_BLOCK_SIZE buffer, drop AES256_CBC_BLOCK_SIZE buffer))"

definition read_header :: "bytes \<Rightarrow> (stream_header \<times> bytes) option" where
  "read_header buffer =
     (if length buffer \<ge> HEADER_LENGTH
      then Some (header_from_bytes (take HEADER_LENGTH buffer), drop HEADER_LENGTH buffer) else None)"

record ('d, 'h) stream_decryptor =
  dec_buffer :: bytes
  decryptor_state :: "('d, 'h) decryptor_state"

definition decryptor_try_new :: "symmetric_crypto_key \<Rightarrow> (('d, 'h) stream_decryptor, stream_creation_error) result" where
  "decryptor_try_new key =
     (case key of
        Aes256CbcHmacKey key \<Rightarrow> Ok \<lparr>dec_buffer = [], decryptor_state = DecUninitialized key\<rparr>
      | _ \<Rightarrow> Err StreamWrongKeyType)"

fun decrypt_blocks :: "('e, 'd, 'h) stream_lib \<Rightarrow> nat \<Rightarrow> bytes \<Rightarrow> 'd \<Rightarrow> 'h \<Rightarrow> (bytes \<times> bytes \<times> 'd \<times> 'h) option" where
  "decrypt_blocks S 0 buffer decryptor integrity_validator = Some ([], buffer, decryptor, integrity_validator)"
| "decrypt_blocks S (Suc n) buffer decryptor integrity_validator =
     (case read_block_ciphertext buffer of
        None \<Rightarrow> None
      | Some (ciphertext_block, buffer) \<Rightarrow>
          (let integrity_validator = validator_read_block S integrity_validator ciphertext_block;
               (plaintext_block, decryptor) = cbc_dec_block S decryptor ciphertext_block
           in map_option (\<lambda>(decrypted, rest). (plaintext_block @ decrypted, rest))
                (decrypt_blocks S n buffer decryptor integrity_validator)))"

text \<open>The part of the update for a decryptor that streams.\<close>

definition update_streaming ::
  "('e, 'd, 'h) stream_lib \<Rightarrow> bool \<Rightarrow> bytes \<Rightarrow> 'd \<Rightarrow> 'h \<Rightarrow> bytes \<Rightarrow> (chunk_decryption_result \<times> ('d, 'h) stream_decryptor) option" where
  "update_streaming S last_block buffer decryptor integrity_validator expected_mac =
     (let blocks_to_process =
            (if last_block then length buffer div AES256_CBC_BLOCK_SIZE
             else (length buffer - 1) div AES256_CBC_BLOCK_SIZE)
      in map_option (\<lambda>(decrypted_data, buffer, decryptor, integrity_validator).
           if \<not> last_block
           then (DecryptedChunk decrypted_data,
                 \<lparr>dec_buffer = buffer, decryptor_state = DecStreaming decryptor integrity_validator expected_mac\<rparr>)
           else if \<not> validate_stream_end S integrity_validator expected_mac
           then (StreamDecryptionError, \<lparr>dec_buffer = buffer, decryptor_state = DecError\<rparr>)
           else if length decrypted_data < AES256_CBC_BLOCK_SIZE
           then (StreamDecryptionError, \<lparr>dec_buffer = buffer, decryptor_state = DecError\<rparr>)
           else
           let tail_start = length decrypted_data - AES256_CBC_BLOCK_SIZE
           in case is_valid_pkcs7_padding (drop tail_start decrypted_data) of
                Some plaintext \<Rightarrow>
                  (FinalDecryptedChunk (take tail_start decrypted_data @ plaintext),
                   \<lparr>dec_buffer = buffer, decryptor_state = DecDone\<rparr>)
              | None \<Rightarrow> (StreamDecryptionError, \<lparr>dec_buffer = buffer, decryptor_state = DecError\<rparr>))
         (decrypt_blocks S blocks_to_process buffer decryptor integrity_validator))"

definition decryptor_update ::
  "('e, 'd, 'h) stream_lib \<Rightarrow> bytes \<Rightarrow> bool \<Rightarrow> ('d, 'h) stream_decryptor
   \<Rightarrow> (chunk_decryption_result \<times> ('d, 'h) stream_decryptor) option" where
  "decryptor_update S ciphertext_chunk last_block self =
     (let self = self\<lparr>dec_buffer := dec_buffer self @ ciphertext_chunk\<rparr>
      in case decryptor_state self of
           DecError \<Rightarrow> Some (StreamDecryptionError, self)
         | DecDone \<Rightarrow> Some (StreamDecryptionError, self)
         | DecStreaming d v m \<Rightarrow> update_streaming S last_block (dec_buffer self) d v m
         | DecUninitialized _ \<Rightarrow>
             (if length (dec_buffer self) < HEADER_LENGTH
              then if last_block then Some (StreamDecryptionError, self\<lparr>decryptor_state := DecError\<rparr>)
                   else Some (DecNeedMoreData, self)
              else
              case read_header (dec_buffer self) of
                None \<Rightarrow> None
              | Some (header, buffer) \<Rightarrow>
                  (case initialize S header (decryptor_state self) of
                     Some (DecStreaming d v m) \<Rightarrow> update_streaming S last_block buffer d v m
                   | _ \<Rightarrow> Some (StreamDecryptionError, \<lparr>dec_buffer = buffer, decryptor_state = DecError\<rparr>))))"

subsection \<open>Encryption\<close>

text \<open>The large buffer, of a fixed capacity.\<close>

record large_buffer =
  large_inner :: bytes
  large_capacity :: nat
  large_position :: nat

definition large_buffer_new :: "nat \<Rightarrow> large_buffer" where
  "large_buffer_new capacity = \<lparr>large_inner = replicate capacity 0, large_capacity = capacity, large_position = 0\<rparr>"

definition large_buffer_index :: "large_buffer \<Rightarrow> nat \<Rightarrow> nat \<Rightarrow> bytes option" where
  "large_buffer_index self start stop =
     (if stop > large_capacity self \<or> start > stop then None else Some (take (stop - start) (drop start (large_inner self))))"

definition large_buffer_append :: "bytes \<Rightarrow> large_buffer \<Rightarrow> large_buffer option" where
  "large_buffer_append data self =
     (if large_position self + length data > large_capacity self then None
      else Some (self\<lparr>large_inner := take (large_position self) (large_inner self) @ data
                        @ drop (large_position self + length data) (large_inner self),
                      large_position := large_position self + length data\<rparr>))"

record ciphertext_buffer =
  cb_inner :: large_buffer
  cb_size :: nat
  cb_emitted_bytes :: nat

definition ciphertext_buffer_new :: "nat \<Rightarrow> ciphertext_buffer" where
  "ciphertext_buffer_new capacity = \<lparr>cb_inner = large_buffer_new capacity, cb_size = 0, cb_emitted_bytes = 0\<rparr>"

definition ciphertext_buffer_append :: "bytes \<Rightarrow> ciphertext_buffer \<Rightarrow> ciphertext_buffer option" where
  "ciphertext_buffer_append data self =
     map_option (\<lambda>inner. self\<lparr>cb_inner := inner, cb_size := cb_size self + length data\<rparr>)
       (large_buffer_append data (cb_inner self))"

definition emit_chunk :: "ciphertext_buffer \<Rightarrow> (bytes option \<times> ciphertext_buffer) option" where
  "emit_chunk self =
     (if cb_size self < cb_emitted_bytes self then None
      else
      let remaining_bytes = cb_size self - cb_emitted_bytes self
      in if remaining_bytes = 0 then Some (None, self)
         else
         let chunk_size = min remaining_bytes EMISSION_CHUNK_SIZE
         in map_option (\<lambda>chunk. (Some chunk, self\<lparr>cb_emitted_bytes := cb_emitted_bytes self + chunk_size\<rparr>))
              (large_buffer_index (cb_inner self) (cb_emitted_bytes self) (cb_emitted_bytes self + chunk_size)))"

definition read_plaintext_block :: "bytes \<Rightarrow> (bytes \<times> bytes) option" where
  "read_plaintext_block buffer =
     (if length buffer < AES256_CBC_BLOCK_SIZE then None
      else Some (take AES256_CBC_BLOCK_SIZE buffer, drop AES256_CBC_BLOCK_SIZE buffer))"

datatype ('e, 'h) encryptor_state =
    EncStreaming 'e 'h bytes
  | EncEmitting
  | EncDone
  | EncError

record ('e, 'h) stream_encryptor =
  enc_ciphertext :: ciphertext_buffer
  enc_plaintext :: bytes
  encryptor_state :: "('e, 'h) encryptor_state"

definition encryptor_try_new ::
  "('e, 'd, 'h) stream_lib \<Rightarrow> bytes \<Rightarrow> symmetric_crypto_key \<Rightarrow> nat \<Rightarrow> (('e, 'h) stream_encryptor, stream_creation_error) result" where
  "encryptor_try_new S iv key plaintext_size =
     (case key of
        Aes256CbcHmacKey key \<Rightarrow>
          (let (enc_key, mac_key) = split_to_subkeys key;
               ciphertext_capacity = (plaintext_size div AES256_CBC_BLOCK_SIZE + 1) * AES256_CBC_BLOCK_SIZE
           in Ok \<lparr>enc_ciphertext = ciphertext_buffer_new ciphertext_capacity, enc_plaintext = [],
                   encryptor_state = EncStreaming (cbc_enc_new S enc_key iv) (validator_new S mac_key iv) iv\<rparr>)
      | _ \<Rightarrow> Err StreamWrongKeyType)"

text \<open>The loop over the full blocks; \<open>Err\<close> with what is left if a block does not fit the buffer.\<close>

function encrypt_full_blocks ::
  "('e, 'd, 'h) stream_lib \<Rightarrow> bytes \<Rightarrow> 'e \<Rightarrow> 'h \<Rightarrow> ciphertext_buffer
   \<Rightarrow> (bytes \<times> 'e \<times> 'h \<times> ciphertext_buffer, bytes \<times> ciphertext_buffer) result" where
  "encrypt_full_blocks S buffer encryptor validator out =
     (case read_plaintext_block buffer of
        None \<Rightarrow> Ok (buffer, encryptor, validator, out)
      | Some (block, buffer) \<Rightarrow>
          (let (cipher_block, encryptor) = cbc_enc_block S encryptor block;
               validator = validator_read_block S validator cipher_block
           in case ciphertext_buffer_append cipher_block out of
                None \<Rightarrow> Err (buffer, out)
              | Some out \<Rightarrow> encrypt_full_blocks S buffer encryptor validator out))"
  by pat_completeness auto
termination
  by (relation "measure (\<lambda>(S, buffer, _). length buffer)")
    (auto simp: read_plaintext_block_def AES256_CBC_BLOCK_SIZE_def split: if_splits)

declare encrypt_full_blocks.simps [simp del]

definition encryptor_update ::
  "('e, 'd, 'h) stream_lib \<Rightarrow> bytes \<Rightarrow> bool \<Rightarrow> ('e, 'h) stream_encryptor
   \<Rightarrow> (chunk_encryption_result \<times> ('e, 'h) stream_encryptor) option" where
  "encryptor_update S plaintext_chunk last_block self =
     (case encryptor_state self of
        EncError \<Rightarrow> Some (StreamEncryptionError, self)
      | EncDone \<Rightarrow> Some (StreamEncryptionError, self)
      | EncEmitting \<Rightarrow>
          map_option (\<lambda>(chunk, out).
            let self = self\<lparr>enc_ciphertext := out\<rparr>
            in case chunk of
                 Some chunk \<Rightarrow> (EncryptedChunk chunk, self)
               | None \<Rightarrow> (FinalEncryptedChunk [], self\<lparr>encryptor_state := EncDone\<rparr>))
          (emit_chunk (enc_ciphertext self))
      | EncStreaming encryptor validator iv \<Rightarrow>
          (case encrypt_full_blocks S (enc_plaintext self @ plaintext_chunk) encryptor validator (enc_ciphertext self) of
             Err (buffer, out) \<Rightarrow>
               Some (StreamEncryptionError, \<lparr>enc_ciphertext = out, enc_plaintext = buffer, encryptor_state = EncError\<rparr>)
           | Ok (buffer, encryptor, validator, out) \<Rightarrow>
               if \<not> last_block
               then Some (EncNeedMoreData,
                      \<lparr>enc_ciphertext = out, enc_plaintext = buffer, encryptor_state = EncStreaming encryptor validator iv\<rparr>)
               else if length buffer > AES256_CBC_BLOCK_SIZE then None
               else
               let padding_len = AES256_CBC_BLOCK_SIZE - length buffer;
                   buffer = buffer @ replicate padding_len (of_nat padding_len)
               in case read_plaintext_block buffer of
                    None \<Rightarrow> Some (StreamEncryptionError, \<lparr>enc_ciphertext = out, enc_plaintext = buffer, encryptor_state = EncError\<rparr>)
                  | Some (block, buffer) \<Rightarrow>
                      (let (cipher_block, encryptor) = cbc_enc_block S encryptor block
                       in case ciphertext_buffer_append cipher_block out of
                            None \<Rightarrow> Some (StreamEncryptionError, \<lparr>enc_ciphertext = out, enc_plaintext = buffer, encryptor_state = EncError\<rparr>)
                          | Some out \<Rightarrow>
                              (let validator = validator_read_block S validator cipher_block;
                                   mac = validator_end_stream S validator
                               in Some (EncryptedChunk (header_to_bytes \<lparr>stream_iv = iv, stream_mac = mac\<rparr>),
                                    \<lparr>enc_ciphertext = out, enc_plaintext = buffer, encryptor_state = EncEmitting\<rparr>)))))"


section \<open>The reader and the writer of an attachment\<close>

datatype 'a poll = Pending | Ready 'a

datatype io_error =
    UnknownHeaderDiscriminator
  | KeyDoesNotMatchDiscriminator
  | TruncatedBeforeDiscriminator
  | StreamDecryptionFailed
  | StreamEncryptionFailed
  | AttachmentDecryptionError
  | WriteAfterShutdown
  | WriteZero
  | InnerError string

datatype header_discriminator = Aes256CbcHmacLegacyStream

definition discriminator_byte :: "header_discriminator \<Rightarrow> 8 word" where
  "discriminator_byte value = (case value of Aes256CbcHmacLegacyStream \<Rightarrow> 2)"

definition discriminator_try_from :: "8 word \<Rightarrow> header_discriminator option" where
  "discriminator_try_from value = (if value = 2 then Some Aes256CbcHmacLegacyStream else None)"

definition READ_SCRATCH_SIZE :: nat where
  "READ_SCRATCH_SIZE = 8 * 1024"

subsection \<open>The reader\<close>

text \<open>
  A poll of the reader underneath, given the room in the buffer: what it puts into the buffer, and the
  reader afterwards.
\<close>

type_synonym 'r async_read = "'r \<Rightarrow> nat \<Rightarrow> (bytes, io_error) result poll \<times> 'r"

datatype ('d, 'h) stream_decryptor_state =
    NeedDiscriminator symmetric_crypto_key
  | LegacyStreamDecryptor "('d, 'h) stream_decryptor"
  | StreamDecryptorDone
  | StreamDecryptorError

record ('r, 'd, 'h) attachment_decryptor =
  ad_inner :: 'r
  ad_state :: "('d, 'h) stream_decryptor_state"
  ad_plaintext_buf :: bytes
  ad_inner_eof :: bool

definition attachment_decryptor_new ::
  "symmetric_key_slot_id \<Rightarrow> ('priv, 'sig) key_store_context \<Rightarrow> 'r
   \<Rightarrow> (('r, 'd, 'h) attachment_decryptor, crypto_error) result" where
  "attachment_decryptor_new key_slot ctx inner =
     and_then (get_symmetric_key ctx key_slot) (\<lambda>key.
       case key of
         Aes256CbcHmacKey _ \<Rightarrow>
           Ok \<lparr>ad_inner = inner, ad_state = NeedDiscriminator key, ad_plaintext_buf = [], ad_inner_eof = False\<rparr>
       | _ \<Rightarrow> Err (OperationNotSupported EncryptionNotImplementedForKey))"

text \<open>The bytes put into the caller's buffer, if any.\<close>

definition drain_plaintext_into ::
  "nat \<Rightarrow> ('r, 'd, 'h) attachment_decryptor \<Rightarrow> bytes option \<times> ('r, 'd, 'h) attachment_decryptor" where
  "drain_plaintext_into remaining self =
     (let bytes_to_copy = min remaining (length (ad_plaintext_buf self))
      in if bytes_to_copy = 0 then (None, self)
         else (Some (take bytes_to_copy (ad_plaintext_buf self)),
               self\<lparr>ad_plaintext_buf := drop bytes_to_copy (ad_plaintext_buf self)\<rparr>))"

text \<open>The part after the discriminator; to be here without one is unreachable in the source.\<close>

definition feed_after_discriminator ::
  "('e, 'd, 'h) stream_lib \<Rightarrow> bytes \<Rightarrow> ('r, 'd, 'h) attachment_decryptor
   \<Rightarrow> ((unit, io_error) result \<times> ('r, 'd, 'h) attachment_decryptor) option" where
  "feed_after_discriminator S data self =
     (if data = [] then Some (Ok (), self)
      else
      case ad_state self of
        LegacyStreamDecryptor dec \<Rightarrow>
          map_option (\<lambda>(result, dec).
            let self = self\<lparr>ad_state := LegacyStreamDecryptor dec\<rparr>
            in case result of
                 DecNeedMoreData \<Rightarrow> (Ok (), self)
               | DecryptedChunk bytes \<Rightarrow> (Ok (), self\<lparr>ad_plaintext_buf := ad_plaintext_buf self @ bytes\<rparr>)
               | FinalDecryptedChunk bytes \<Rightarrow>
                   (Ok (), self\<lparr>ad_plaintext_buf := ad_plaintext_buf self @ bytes, ad_state := StreamDecryptorDone\<rparr>)
               | StreamDecryptionError \<Rightarrow> (Err StreamDecryptionFailed, self\<lparr>ad_state := StreamDecryptorError\<rparr>))
          (decryptor_update S data False dec)
      | StreamDecryptorError \<Rightarrow> Some (Ok (), self)
      | StreamDecryptorDone \<Rightarrow> Some (Ok (), self)
      | NeedDiscriminator _ \<Rightarrow> None)"

definition feed_bytes_to_decryptor ::
  "('e, 'd, 'h) stream_lib \<Rightarrow> bytes \<Rightarrow> ('r, 'd, 'h) attachment_decryptor
   \<Rightarrow> ((unit, io_error) result \<times> ('r, 'd, 'h) attachment_decryptor) option" where
  "feed_bytes_to_decryptor S data self =
     (if data = [] then Some (Ok (), self)
      else
      case ad_state self of
        NeedDiscriminator key \<Rightarrow>
          (case discriminator_try_from (hd data) of
             None \<Rightarrow> Some (Err UnknownHeaderDiscriminator, self)
           | Some Aes256CbcHmacLegacyStream \<Rightarrow>
               (case decryptor_try_new key of
                  Err _ \<Rightarrow> Some (Err KeyDoesNotMatchDiscriminator, self)
                | Ok decryptor \<Rightarrow>
                    feed_after_discriminator S (tl data) (self\<lparr>ad_state := LegacyStreamDecryptor decryptor\<rparr>)))
      | _ \<Rightarrow> feed_after_discriminator S data self)"

definition finalize_underlying ::
  "('e, 'd, 'h) stream_lib \<Rightarrow> ('r, 'd, 'h) attachment_decryptor
   \<Rightarrow> ((unit, io_error) result \<times> ('r, 'd, 'h) attachment_decryptor) option" where
  "finalize_underlying S self =
     (let failed = self\<lparr>ad_state := StreamDecryptorError\<rparr>
      in case ad_state self of
           NeedDiscriminator _ \<Rightarrow> Some (Err TruncatedBeforeDiscriminator, failed)
         | LegacyStreamDecryptor dec \<Rightarrow>
             map_option (\<lambda>(result, _).
               case result of
                 FinalDecryptedChunk bytes \<Rightarrow>
                   (Ok (), self\<lparr>ad_plaintext_buf := ad_plaintext_buf self @ bytes, ad_state := StreamDecryptorDone\<rparr>)
               | _ \<Rightarrow> (Err StreamDecryptionFailed, failed))
             (decryptor_update S [] True dec)
         | StreamDecryptorDone \<Rightarrow> Some (Ok (), self)
         | StreamDecryptorError \<Rightarrow> Some (Err AttachmentDecryptionError, failed))"

partial_function (option) poll_read ::
  "('e, 'd, 'h) stream_lib \<Rightarrow> 'r async_read \<Rightarrow> nat \<Rightarrow> ('r, 'd, 'h) attachment_decryptor
   \<Rightarrow> ((bytes, io_error) result poll \<times> ('r, 'd, 'h) attachment_decryptor) option" where
  "poll_read S inner_read remaining self =
     (case drain_plaintext_into remaining self of
        (Some bytes, self') \<Rightarrow> Some (Ready (Ok bytes), self')
      | (None, _) \<Rightarrow>
          (case ad_state self of
             StreamDecryptorError \<Rightarrow> Some (Ready (Err AttachmentDecryptionError), self)
           | StreamDecryptorDone \<Rightarrow> Some (Ready (Ok []), self)
           | _ \<Rightarrow>
               (if ad_inner_eof self
                then (case finalize_underlying S self of
                        None \<Rightarrow> None
                      | Some (Err e, self') \<Rightarrow> Some (Ready (Err e), self')
                      | Some (Ok _, self') \<Rightarrow> poll_read S inner_read remaining self')
                else (case inner_read (ad_inner self) READ_SCRATCH_SIZE of
                        (Pending, inner) \<Rightarrow> Some (Pending, self\<lparr>ad_inner := inner\<rparr>)
                      | (Ready (Err e), inner) \<Rightarrow>
                          Some (Ready (Err e), self\<lparr>ad_inner := inner, ad_state := StreamDecryptorError\<rparr>)
                      | (Ready (Ok filled), inner) \<Rightarrow>
                          (if filled = [] then poll_read S inner_read remaining (self\<lparr>ad_inner := inner, ad_inner_eof := True\<rparr>)
                           else case feed_bytes_to_decryptor S filled (self\<lparr>ad_inner := inner\<rparr>) of
                                  None \<Rightarrow> None
                                | Some (Err e, self') \<Rightarrow> Some (Ready (Err e), self')
                                | Some (Ok _, self') \<Rightarrow> poll_read S inner_read remaining self')))))"

declare poll_read.simps [code]

subsection \<open>The writer\<close>

record 'w async_write =
  aw_poll_write :: "'w \<Rightarrow> bytes \<Rightarrow> (nat, io_error) result poll \<times> 'w"
  aw_poll_flush :: "'w \<Rightarrow> (unit, io_error) result poll \<times> 'w"
  aw_poll_shutdown :: "'w \<Rightarrow> (unit, io_error) result poll \<times> 'w"

datatype ('e, 'h) stream_encryptor_state =
    LegacyStreamEncryptor "('e, 'h) stream_encryptor"
  | StreamEncryptorFinalized
  | StreamEncryptorDone
  | StreamEncryptorError io_error

record ('w, 'e, 'h) attachment_encryptor =
  ae_inner :: 'w
  ae_state :: "('e, 'h) stream_encryptor_state"
  ae_pending_write :: bytes
  ae_pending_head :: nat

definition attachment_encryptor_new ::
  "('e, 'd, 'h) stream_lib \<Rightarrow> bytes \<Rightarrow> symmetric_key_slot_id \<Rightarrow> ('priv, 'sig) key_store_context \<Rightarrow> 'w \<Rightarrow> nat
   \<Rightarrow> (('w, 'e, 'h) attachment_encryptor, crypto_error) result" where
  "attachment_encryptor_new S iv key_slot ctx inner plaintext_size =
     and_then (get_symmetric_key ctx key_slot) (\<lambda>key.
     and_then (case key of
         Aes256CbcHmacKey _ \<Rightarrow>
           map_ok (\<lambda>encryptor. (LegacyStreamEncryptor encryptor, Aes256CbcHmacLegacyStream))
             (map_err (\<lambda>_. OperationNotSupported EncryptionNotImplementedForKey)
               (encryptor_try_new S iv key plaintext_size))
       | _ \<Rightarrow> Err (OperationNotSupported EncryptionNotImplementedForKey)) (\<lambda>(state, discriminator).
     Ok \<lparr>ae_inner = inner, ae_state = state, ae_pending_write = [discriminator_byte discriminator],
         ae_pending_head = 0\<rparr>))"

function poll_drain_pending ::
  "'w async_write \<Rightarrow> ('w, 'e, 'h) attachment_encryptor \<Rightarrow> (unit, io_error) result poll \<times> ('w, 'e, 'h) attachment_encryptor" where
  "poll_drain_pending W self =
     (if ae_pending_head self < length (ae_pending_write self)
      then case aw_poll_write W (ae_inner self) (drop (ae_pending_head self) (ae_pending_write self)) of
             (Pending, inner) \<Rightarrow> (Pending, self\<lparr>ae_inner := inner\<rparr>)
           | (Ready (Err e), inner) \<Rightarrow>
               (Ready (Err e), self\<lparr>ae_inner := inner, ae_state := StreamEncryptorError e\<rparr>)
           | (Ready (Ok n), inner) \<Rightarrow>
               (if n = 0
                then (Ready (Err WriteZero), self\<lparr>ae_inner := inner, ae_state := StreamEncryptorError WriteZero\<rparr>)
                else poll_drain_pending W (self\<lparr>ae_inner := inner, ae_pending_head := ae_pending_head self + n\<rparr>))
      else (Ready (Ok ()), self\<lparr>ae_pending_write := [], ae_pending_head := 0\<rparr>))"
  by pat_completeness auto
termination
  by (relation "measure (\<lambda>(W, self). length (ae_pending_write self) - ae_pending_head self)") auto

declare poll_drain_pending.simps [simp del]

definition poll_write ::
  "('e, 'd, 'h) stream_lib \<Rightarrow> 'w async_write \<Rightarrow> bytes \<Rightarrow> ('w, 'e, 'h) attachment_encryptor
   \<Rightarrow> ((nat, io_error) result poll \<times> ('w, 'e, 'h) attachment_encryptor) option" where
  "poll_write S W buf self =
     (case ae_state self of
        StreamEncryptorError e \<Rightarrow> Some (Ready (Err e), self)
      | StreamEncryptorFinalized \<Rightarrow> Some (Ready (Err WriteAfterShutdown), self)
      | StreamEncryptorDone \<Rightarrow> Some (Ready (Err WriteAfterShutdown), self)
      | LegacyStreamEncryptor _ \<Rightarrow>
          (case poll_drain_pending W self of
             (Pending, self) \<Rightarrow> Some (Pending, self)
           | (Ready _, self) \<Rightarrow>
               (case ae_state self of
                  StreamEncryptorError e \<Rightarrow> Some (Ready (Err e), self)
                | LegacyStreamEncryptor enc \<Rightarrow>
                    (if buf = [] then Some (Ready (Ok 0), self)
                     else
                     map_option (\<lambda>(result, enc).
                       let self = self\<lparr>ae_state := LegacyStreamEncryptor enc\<rparr>
                       in case result of
                            EncNeedMoreData \<Rightarrow> (Ready (Ok (length buf)), self)
                          | EncryptedChunk bytes \<Rightarrow>
                              (Ready (Ok (length buf)), self\<lparr>ae_pending_write := bytes, ae_pending_head := 0\<rparr>)
                          | FinalEncryptedChunk bytes \<Rightarrow>
                              (Ready (Ok (length buf)),
                               self\<lparr>ae_pending_write := bytes, ae_pending_head := 0, ae_state := StreamEncryptorFinalized\<rparr>)
                          | StreamEncryptionError \<Rightarrow>
                              (Ready (Err StreamEncryptionFailed), self\<lparr>ae_state := StreamEncryptorError StreamEncryptionFailed\<rparr>))
                     (encryptor_update S buf False enc))
                | _ \<Rightarrow> if buf = [] then Some (Ready (Ok 0), self) else None)))"

definition poll_flush ::
  "'w async_write \<Rightarrow> ('w, 'e, 'h) attachment_encryptor \<Rightarrow> (unit, io_error) result poll \<times> ('w, 'e, 'h) attachment_encryptor" where
  "poll_flush W self =
     (case poll_drain_pending W self of
        (Pending, self) \<Rightarrow> (Pending, self)
      | (Ready _, self) \<Rightarrow>
          (case ae_state self of
             StreamEncryptorError e \<Rightarrow> (Ready (Err e), self)
           | _ \<Rightarrow> (case aw_poll_flush W (ae_inner self) of (result, inner) \<Rightarrow> (result, self\<lparr>ae_inner := inner\<rparr>))))"

text \<open>The loop that takes the whole wire payload out of the encryptor; \<open>Err\<close> if it fails.\<close>

partial_function (option) finalize_encryptor ::
  "('e, 'd, 'h) stream_lib \<Rightarrow> bytes \<Rightarrow> ('e, 'h) stream_encryptor \<Rightarrow> (bytes, io_error) result option" where
  "finalize_encryptor S wire enc =
     (case encryptor_update S [] True enc of
        None \<Rightarrow> None
      | Some (EncryptedChunk bytes, enc) \<Rightarrow> finalize_encryptor S (wire @ bytes) enc
      | Some (FinalEncryptedChunk bytes, _) \<Rightarrow> Some (Ok (wire @ bytes))
      | Some (StreamEncryptionError, _) \<Rightarrow> Some (Err StreamEncryptionFailed)
      | Some (EncNeedMoreData, _) \<Rightarrow> Some (Err StreamEncryptionFailed))"

declare finalize_encryptor.simps [code]

text \<open>The end of the shutdown: the queued payload is written, then the writer underneath is shut down.\<close>

definition shutdown_inner ::
  "'w async_write \<Rightarrow> ('w, 'e, 'h) attachment_encryptor \<Rightarrow> (unit, io_error) result poll \<times> ('w, 'e, 'h) attachment_encryptor" where
  "shutdown_inner W self =
     (case poll_drain_pending W self of
        (Pending, self) \<Rightarrow> (Pending, self)
      | (Ready _, self) \<Rightarrow>
          (case ae_state self of
             StreamEncryptorError e \<Rightarrow> (Ready (Err e), self)
           | _ \<Rightarrow>
               (case aw_poll_shutdown W (ae_inner self) of
                  (Pending, inner) \<Rightarrow> (Pending, self\<lparr>ae_inner := inner\<rparr>)
                | (Ready (Ok _), inner) \<Rightarrow> (Ready (Ok ()), self\<lparr>ae_inner := inner, ae_state := StreamEncryptorDone\<rparr>)
                | (Ready (Err e), inner) \<Rightarrow> (Ready (Err e), self\<lparr>ae_inner := inner, ae_state := StreamEncryptorError e\<rparr>))))"

definition poll_shutdown ::
  "('e, 'd, 'h) stream_lib \<Rightarrow> 'w async_write \<Rightarrow> ('w, 'e, 'h) attachment_encryptor
   \<Rightarrow> ((unit, io_error) result poll \<times> ('w, 'e, 'h) attachment_encryptor) option" where
  "poll_shutdown S W self =
     (case poll_drain_pending W self of
        (Pending, self) \<Rightarrow> Some (Pending, self)
      | (Ready _, self) \<Rightarrow>
          (case ae_state self of
             StreamEncryptorError e \<Rightarrow> Some (Ready (Err e), self)
           | LegacyStreamEncryptor enc \<Rightarrow>
               map_option (\<lambda>result. case result of
                   Err e \<Rightarrow> (Ready (Err e), self\<lparr>ae_state := StreamEncryptorError e\<rparr>)
                 | Ok wire \<Rightarrow>
                     shutdown_inner W (self\<lparr>ae_pending_write := wire, ae_pending_head := 0, ae_state := StreamEncryptorFinalized\<rparr>))
               (finalize_encryptor S [] enc)
           | _ \<Rightarrow> Some (shutdown_inner W self)))"

end
