(* ===== verification/Attachment_Stream_Laws.thy ===== *)
theory Attachment_Stream_Laws
  imports Attachment_Stream Reference_Libs
begin

text \<open>
  The streaming cipher agrees with the one-shot cipher of \<open>Hazmat\<close>, for every way in which a stream is
  cut into chunks.  \<open>stream_lib_ok\<close> is the documented behaviour of the crates: CBC with PKCS7 padding is
  CBC block by block, and the HMAC of updates is the HMAC of their concatenation.
\<close>

section \<open>The documented behaviour of the crates\<close>

fun dec_run :: "('e, 'd, 'h) stream_lib \<Rightarrow> nat \<Rightarrow> 'd \<Rightarrow> bytes \<Rightarrow> bytes \<times> 'd" where
  "dec_run S 0 d c = ([], d)"
| "dec_run S (Suc n) d c =
     (let (p, d') = cbc_dec_block S d (take 16 c); (ps, d'') = dec_run S n d' (drop 16 c) in (p @ ps, d''))"

fun enc_run :: "('e, 'd, 'h) stream_lib \<Rightarrow> nat \<Rightarrow> 'e \<Rightarrow> bytes \<Rightarrow> bytes \<times> 'e" where
  "enc_run S 0 e p = ([], e)"
| "enc_run S (Suc n) e p =
     (let (c, e') = cbc_enc_block S e (take 16 p); (cs, e'') = enc_run S n e' (drop 16 p) in (c @ cs, e''))"

definition pkcs7_pad :: "bytes \<Rightarrow> bytes" where
  "pkcs7_pad p = (let n = 16 - length p mod 16 in p @ replicate n (of_nat n))"

definition pkcs7_unpad :: "bytes \<Rightarrow> bytes option" where
  "pkcs7_unpad p =
     (let n = unat (List.last p)
      in if p = [] \<or> n = 0 \<or> n > 16 \<or> n > length p \<or> drop (length p - n) p \<noteq> replicate n (List.last p) then None
         else Some (take (length p - n) p))"

definition stream_lib_ok :: "crypto_lib \<Rightarrow> ('e, 'd, 'h) stream_lib \<Rightarrow> bool" where
  "stream_lib_ok L S \<longleftrightarrow>
     (\<forall>k iv p. length k = 32 \<longrightarrow> length iv = 16 \<longrightarrow>
        cbc_encrypt L k iv p = fst (enc_run S (length p div 16 + 1) (cbc_enc_new S k iv) (pkcs7_pad p)))
     \<and> (\<forall>k iv c. length k = 32 \<longrightarrow> length iv = 16 \<longrightarrow>
        cbc_decrypt L k iv c =
          (if length c mod 16 = 0 then pkcs7_unpad (fst (dec_run S (length c div 16) (cbc_dec_new S k iv) c)) else None))
     \<and> (\<forall>e b. length b = 16 \<longrightarrow> length (fst (cbc_enc_block S e b)) = 16)
     \<and> (\<forall>d b. length b = 16 \<longrightarrow> length (fst (cbc_dec_block S d b)) = 16)
     \<and> (\<forall>k xs. mac_finalize S (foldl (mac_update S) (mac_new S k) xs) = hmac_sha256 L k (concat xs))
     \<and> (\<forall>k m. length (hmac_sha256 L k m) = 32)"

definition mac_holds :: "('e, 'd, 'h) stream_lib \<Rightarrow> bytes \<Rightarrow> 'h \<Rightarrow> bytes \<Rightarrow> bool" where
  "mac_holds S k h m \<longleftrightarrow> (\<exists>xs. h = foldl (mac_update S) (mac_new S k) xs \<and> concat xs = m)"


section \<open>The specification of a stream\<close>

text \<open>A whole stream opened at once: IV, MAC and ciphertext.\<close>

definition stream_open :: "crypto_lib \<Rightarrow> bytes \<Rightarrow> bytes \<Rightarrow> (bytes, symmetric_encryption_error) result" where
  "stream_open L key w =
     (if length w < 48 then Err FormatWrong
      else Aes256CbcHmacSha256_decrypt L (take 16 w) (drop 48 w) (take 32 (drop 16 w)) key)"

definition stream_seal :: "crypto_lib \<Rightarrow> bytes \<Rightarrow> bytes \<Rightarrow> bytes \<Rightarrow> bytes" where
  "stream_seal L iv key p = (let (mac, c) = Aes256CbcHmacSha256_encrypt L iv p key in iv @ mac @ c)"

text \<open>What the decryptor has reached after the bytes \<open>w\<close>, having given out \<open>out\<close>.\<close>

definition held_blocks :: "bytes \<Rightarrow> nat" where
  "held_blocks c = (length c - 1) div 16"

definition dec_inv ::
  "('e, 'd, 'h) stream_lib \<Rightarrow> bytes \<Rightarrow> bytes \<Rightarrow> bytes \<Rightarrow> ('d, 'h) stream_decryptor \<Rightarrow> bool" where
  "dec_inv S key w out dec \<longleftrightarrow>
     (if length w < 48 then out = [] \<and> dec = \<lparr>dec_buffer = w, decryptor_state = DecUninitialized key\<rparr>
      else \<exists>h. let c = drop 48 w; n = held_blocks c; d = cbc_dec_new S (take 32 key) (take 16 w)
            in mac_holds S (drop 32 key) h (take 16 w @ take (16 * n) c)
               \<and> out = fst (dec_run S n d c)
               \<and> dec = \<lparr>dec_buffer = drop (16 * n) c,
                        decryptor_state = DecStreaming (snd (dec_run S n d c)) h (take 32 (drop 16 w))\<rparr>)"

text \<open>The outcome of the end of a stream, in terms of the stream opened at once.\<close>

definition final_result :: "crypto_lib \<Rightarrow> bytes \<Rightarrow> bytes \<Rightarrow> bytes \<Rightarrow> chunk_decryption_result \<Rightarrow> bool" where
  "final_result L key w out r \<longleftrightarrow>
     (case stream_open L key w of
        Ok p \<Rightarrow> \<exists>q. r = FinalDecryptedChunk q \<and> p = out @ q
      | Err _ \<Rightarrow> r = StreamDecryptionError)"

fun feed_chunks ::
  "('e, 'd, 'h) stream_lib \<Rightarrow> bytes list \<Rightarrow> ('d, 'h) stream_decryptor \<Rightarrow> (bytes \<times> ('d, 'h) stream_decryptor) option" where
  "feed_chunks S [] dec = Some ([], dec)"
| "feed_chunks S (c # cs) dec =
     (case decryptor_update S c False dec of
        Some (DecNeedMoreData, dec) \<Rightarrow> feed_chunks S cs dec
      | Some (DecryptedChunk p, dec) \<Rightarrow> map_option (\<lambda>(ps, dec). (p @ ps, dec)) (feed_chunks S cs dec)
      | _ \<Rightarrow> None)"


section \<open>A reference instance\<close>

text \<open>Blocks that are their own encryption, and a MAC that remembers its input.\<close>

definition stream_ref :: "(unit, unit, bytes \<times> bytes) stream_lib" where
  "stream_ref = \<lparr>cbc_enc_new = (\<lambda>_ _. ()), cbc_enc_block = (\<lambda>_ b. (b, ())), cbc_dec_new = (\<lambda>_ _. ()),
     cbc_dec_block = (\<lambda>_ b. (b, ())), mac_new = (\<lambda>k. (k, [])), mac_update = (\<lambda>(k, m) b. (k, m @ b)),
     mac_finalize = (\<lambda>(k, m). replicate 32 (List.last (k @ m)))\<rparr>"

definition stream_crypto_ref :: crypto_lib where
  "stream_crypto_ref = crypto_ref\<lparr>cbc_encrypt := (\<lambda>_ _ p. pkcs7_pad p),
     cbc_decrypt := (\<lambda>_ _ c. if length c mod 16 = 0 then pkcs7_unpad c else None),
     hmac_sha256 := (\<lambda>k m. replicate 32 (List.last (k @ m)))\<rparr>"

definition ref_stream_key :: bytes where
  "ref_stream_key = replicate 64 7"

definition ref_stream :: bytes where
  "ref_stream = stream_seal stream_crypto_ref (replicate 16 0) ref_stream_key [1, 2, 3]"


section \<open>Runs of blocks\<close>

lemmas stream_sizes = AES256_CBC_BLOCK_SIZE_def AES256_CBC_IV_SIZE_def HMAC_SIZE_def HEADER_LENGTH_def ENC_KEY_SIZE_def

lemma dec_run_add:
  "dec_run S (m + n) d c =
     (fst (dec_run S m d c) @ fst (dec_run S n (snd (dec_run S m d c)) (drop (16 * m) c)),
      snd (dec_run S n (snd (dec_run S m d c)) (drop (16 * m) c)))"
  by (induction m arbitrary: d c) (auto simp: split_beta Let_def add.commute)

lemma dec_run_prefix:
  assumes "16 * n \<le> length c"
  shows "dec_run S n d (c @ x) = dec_run S n d c"
  using assms by (induction n arbitrary: d c) (simp_all add: split_beta Let_def)

lemma dec_run_length:
  assumes "stream_lib_ok L S" "16 * n \<le> length c"
  shows "length (fst (dec_run S n d c)) = 16 * n"
proof -
  have b: "length (fst (cbc_dec_block S d b)) = 16" if "length b = 16" for d b
    using assms(1) that unfolding stream_lib_ok_def by blast
  show ?thesis
    using assms(2) by (induction n arbitrary: d c) (simp_all add: split_beta Let_def b)
qed

lemma mac_holds_update:
  assumes "mac_holds S k h m"
  shows "mac_holds S k (mac_update S h b) (m @ b)"
proof -
  obtain xs where "h = foldl (mac_update S) (mac_new S k) xs" "concat xs = m"
    using assms unfolding mac_holds_def by blast
  then have "mac_update S h b = foldl (mac_update S) (mac_new S k) (xs @ [b]) \<and> concat (xs @ [b]) = m @ b"
    by simp
  then show ?thesis
    unfolding mac_holds_def by blast
qed

lemma mac_holds_new: "mac_holds S k (validator_new S k iv) iv"
  unfolding mac_holds_def validator_new_def by (rule exI [of _ "[iv]"]) simp

lemma mac_holds_finalize:
  assumes "stream_lib_ok L S" "mac_holds S k h m"
  shows "mac_finalize S h = hmac_sha256 L k m"
  using assms unfolding mac_holds_def stream_lib_ok_def by blast

lemma decrypt_blocks_run:
  assumes "16 * n \<le> length b" "mac_holds S k h m"
  shows "\<exists>h'. decrypt_blocks S n b d h = Some (fst (dec_run S n d b), drop (16 * n) b, snd (dec_run S n d b), h')
     \<and> mac_holds S k h' (m @ take (16 * n) b)"
  using assms
proof (induction n arbitrary: b d h m)
  case (Suc n)
  let ?x = "take 16 b"
  have "mac_holds S k (mac_update S h ?x) (m @ ?x)"
    by (rule mac_holds_update [OF Suc.prems(2)])
  moreover have "16 * n \<le> length (drop 16 b)"
    using Suc.prems(1) by simp
  ultimately obtain h' where
    "decrypt_blocks S n (drop 16 b) (snd (cbc_dec_block S d ?x)) (mac_update S h ?x) =
       Some (fst (dec_run S n (snd (cbc_dec_block S d ?x)) (drop 16 b)), drop (16 * n) (drop 16 b),
         snd (dec_run S n (snd (cbc_dec_block S d ?x)) (drop 16 b)), h')"
    "mac_holds S k h' ((m @ ?x) @ take (16 * n) (drop 16 b))"
    using Suc.IH by blast
  moreover have "take (16 * Suc n) b = ?x @ take (16 * n) (drop 16 b)"
    by (simp add: take_add)
  ultimately show ?case
    using Suc.prems(1)
    by (simp add: read_block_ciphertext_def stream_sizes validator_read_block_def split_beta Let_def add.commute)
qed simp


section \<open>Padding\<close>

lemma all_equal_replicate: "(\<forall>b \<in> set xs. b = x) \<longleftrightarrow> xs = replicate (length xs) x"
  by (induction xs) auto

lemma unpad_last_block:
  assumes "length b = 16"
  shows "pkcs7_unpad (p @ b) = map_option ((@) p) (is_valid_pkcs7_padding b)"
proof -
  let ?n = "unat (List.last b)"
  have ne: "b \<noteq> []"
    using assms by auto
  then have l: "List.last (p @ b) = List.last b"
    by simp
  have eq: "(\<forall>x \<in> set (drop (16 - ?n) b). unat x = ?n) \<longleftrightarrow> drop (16 - ?n) b = replicate ?n (List.last b)" if "?n \<le> 16"
    using all_equal_replicate [of "drop (16 - ?n) b" "List.last b"] assms that
    by (simp add: word_unat_eq_iff)
  have d: "drop (length (p @ b) - ?n) (p @ b) = drop (16 - ?n) b"
    "take (length (p @ b) - ?n) (p @ b) = p @ take (16 - ?n) b" if "?n \<le> 16"
    using assms that by auto
  show ?thesis
  proof (cases "?n = 0 \<or> ?n > 16")
    case True
    then show ?thesis
      using ne by (auto simp: pkcs7_unpad_def is_valid_pkcs7_padding_def l stream_sizes Let_def)
  next
    case False
    then show ?thesis
      using ne assms eq d by (simp add: pkcs7_unpad_def is_valid_pkcs7_padding_def l stream_sizes Let_def)
  qed
qed


section \<open>The decryptor\<close>

lemma held_blocks_le: "16 * held_blocks c \<le> length c"
  unfolding held_blocks_def
  by (rule order_trans [OF times_div_less_eq_dividend]) simp

lemma held_blocks_add: "held_blocks c + (length (drop (16 * held_blocks c) c @ x) - 1) div 16 = held_blocks (c @ x)"
proof (cases "length c")
  case (Suc a)
  let ?n = "a div 16"
  have "16 * ?n \<le> a"
    by (rule times_div_less_eq_dividend)
  then obtain r where r: "a = 16 * ?n + r"
    using le_Suc_ex by blast
  have "(a + length x) div 16 = (16 * ?n + (r + length x)) div 16"
    using r by simp
  also have "\<dots> = ?n + (r + length x) div 16"
    by simp
  finally have "(a + length x) div 16 = ?n + (r + length x) div 16" .
  moreover have "Suc a - 16 * ?n + length x - 1 = r + length x"
    using r by linarith
  ultimately show ?thesis
    unfolding held_blocks_def Suc by (simp add: Suc)
qed (simp add: held_blocks_def)

text \<open>A chunk that is not the last: the blocks but the last are decrypted.\<close>

lemma update_streaming_step:
  assumes "mac_holds S k h (iv @ take (16 * held_blocks c) c)"
  shows "\<exists>bs h'. update_streaming S False (drop (16 * held_blocks c) c @ x) (snd (dec_run S (held_blocks c) d c)) h m =
       Some (DecryptedChunk bs,
         \<lparr>dec_buffer = drop (16 * held_blocks (c @ x)) (c @ x),
          decryptor_state = DecStreaming (snd (dec_run S (held_blocks (c @ x)) d (c @ x))) h' m\<rparr>)
     \<and> fst (dec_run S (held_blocks c) d c) @ bs = fst (dec_run S (held_blocks (c @ x)) d (c @ x))
     \<and> mac_holds S k h' (iv @ take (16 * held_blocks (c @ x)) (c @ x))"
proof -
  let ?n = "held_blocks c" and ?b = "drop (16 * held_blocks c) c @ x"
  let ?k = "(length ?b - 1) div 16"
  have add: "held_blocks (c @ x) = ?n + ?k"
    by (rule held_blocks_add [symmetric])
  have b: "?b = drop (16 * ?n) (c @ x)"
    using held_blocks_le [of c] by simp
  have run: "dec_run S ?n d (c @ x) = dec_run S ?n d c"
    by (rule dec_run_prefix [OF held_blocks_le])
  have tk: "take (16 * ?n) (c @ x) = take (16 * ?n) c"
    using held_blocks_le [of c] by simp
  have le: "16 * ?k \<le> length ?b"
    by (rule order_trans [OF times_div_less_eq_dividend]) simp
  obtain h' where h': "decrypt_blocks S ?k ?b (snd (dec_run S ?n d c)) h =
      Some (fst (dec_run S ?k (snd (dec_run S ?n d c)) ?b), drop (16 * ?k) ?b,
        snd (dec_run S ?k (snd (dec_run S ?n d c)) ?b), h')"
    "mac_holds S k h' ((iv @ take (16 * ?n) c) @ take (16 * ?k) ?b)"
    using decrypt_blocks_run [OF le assms] by blast
  have "take (16 * held_blocks (c @ x)) (c @ x) = take (16 * ?n) c @ take (16 * ?k) ?b"
    unfolding add distrib_left take_add b tk by (rule refl)
  moreover have "drop (16 * held_blocks (c @ x)) (c @ x) = drop (16 * ?k) ?b"
    unfolding add b by (simp only: drop_drop distrib_left add.commute)
  moreover have "dec_run S (held_blocks (c @ x)) d (c @ x) =
      (fst (dec_run S ?n d c) @ fst (dec_run S ?k (snd (dec_run S ?n d c)) ?b),
       snd (dec_run S ?k (snd (dec_run S ?n d c)) ?b))"
    unfolding add dec_run_add [of S ?n] run b by (rule refl)
  ultimately show ?thesis
    using h' by (simp add: update_streaming_def AES256_CBC_BLOCK_SIZE_def Let_def)
qed

lemma dec_inv_new: "decryptor_try_new (Aes256CbcHmacKey key) = Ok dec \<Longrightarrow> dec_inv S key [] [] dec"
  by (auto simp: decryptor_try_new_def dec_inv_def)

lemma held_blocks_Nil [simp]: "held_blocks [] = 0"
  by (simp add: held_blocks_def)

lemma dec_inv_long:
  assumes "dec_inv S key w out dec" "\<not> length w < 48"
  obtains h where "mac_holds S (drop 32 key) h (take 16 w @ take (16 * held_blocks (drop 48 w)) (drop 48 w))"
    "out = fst (dec_run S (held_blocks (drop 48 w)) (cbc_dec_new S (take 32 key) (take 16 w)) (drop 48 w))"
    "dec = \<lparr>dec_buffer = drop (16 * held_blocks (drop 48 w)) (drop 48 w),
       decryptor_state =
         DecStreaming (snd (dec_run S (held_blocks (drop 48 w)) (cbc_dec_new S (take 32 key) (take 16 w)) (drop 48 w))) h
           (take 32 (drop 16 w))\<rparr>"
  using assms by (auto simp: dec_inv_def Let_def)

lemma dec_inv_update:
  assumes "dec_inv S key w out dec"
  shows "\<exists>r dec' bs. decryptor_update S x False dec = Some (r, dec') \<and> dec_inv S key (w @ x) (out @ bs) dec'
     \<and> (r = DecNeedMoreData \<and> bs = [] \<or> r = DecryptedChunk bs)"
proof (cases "length w < 48")
  case short: True
  then have d: "out = []" "dec = \<lparr>dec_buffer = w, decryptor_state = DecUninitialized key\<rparr>"
    using assms by (simp_all add: dec_inv_def)
  show ?thesis
  proof (cases "length (w @ x) < 48")
    case True
    then show ?thesis
      using d by (simp add: decryptor_update_def stream_sizes dec_inv_def)
  next
    case False
    let ?w = "w @ x" and ?d = "cbc_dec_new S (take 32 key) (take 16 (w @ x))"
    have "mac_holds S (drop 32 key) (validator_new S (drop 32 key) (take 16 ?w)) (take 16 ?w @ take (16 * held_blocks []) [])"
      by (simp add: mac_holds_new del: take_append)
    from update_streaming_step [OF this, of "drop 48 ?w" ?d "take 32 (drop 16 ?w)"] False show ?thesis
      unfolding d
      by (auto simp: decryptor_update_def read_header_def header_from_bytes_def initialize_def split_to_subkeys_def
          stream_sizes dec_inv_def Let_def drop_take simp del: take_append drop_append)
  qed
next
  case False
  let ?c = "drop 48 w" and ?d = "cbc_dec_new S (take 32 key) (take 16 w)"
  obtain h where h: "mac_holds S (drop 32 key) h (take 16 w @ take (16 * held_blocks ?c) ?c)"
    "out = fst (dec_run S (held_blocks ?c) ?d ?c)"
    "dec = \<lparr>dec_buffer = drop (16 * held_blocks ?c) ?c,
       decryptor_state = DecStreaming (snd (dec_run S (held_blocks ?c) ?d ?c)) h (take 32 (drop 16 w))\<rparr>"
    using assms False by (elim dec_inv_long) auto
  have "drop 48 (w @ x) = ?c @ x" "take 16 (w @ x) = take 16 w" "take 32 (drop 16 (w @ x)) = take 32 (drop 16 w)"
    using False by simp_all
  with update_streaming_step [OF h(1), of x ?d "take 32 (drop 16 w)"] False show ?thesis
    unfolding h(2,3)
    by (auto simp: decryptor_update_def dec_inv_def Let_def simp del: take_append drop_append append_assoc)
qed

text \<open>
  The end of a stream: the MAC is checked over the whole ciphertext, and the last block loses its padding.
  A ciphertext that is not a positive number of blocks has no last block.
\<close>

lemma legacy_open:
  assumes "stream_lib_ok L S" "length key = 64" "length w \<ge> 48"
  shows "stream_open L key w =
     (if hmac_sha256 L (drop 32 key) (take 16 w @ drop 48 w) \<noteq> take 32 (drop 16 w) then Err IntegrityCheckFailed
      else if length (drop 48 w) mod 16 \<noteq> 0 then Err FormatWrong
      else ok_or FormatWrong (pkcs7_unpad
        (fst (dec_run S (length (drop 48 w) div 16) (cbc_dec_new S (take 32 key) (take 16 w)) (drop 48 w)))))"
proof -
  have "cbc_decrypt L (take 32 key) (take 16 w) (drop 48 w) =
      (if length (drop 48 w) mod 16 = 0
       then pkcs7_unpad (fst (dec_run S (length (drop 48 w) div 16) (cbc_dec_new S (take 32 key) (take 16 w)) (drop 48 w)))
       else None)"
    using assms unfolding stream_lib_ok_def by simp
  then show ?thesis
    using assms(3)
    by (simp add: stream_open_def Aes256CbcHmacSha256_decrypt_def split_to_subkeys_def calculate_mac_def stream_sizes ok_or_def)
qed

lemma final_without_block:
  assumes "length b < 16"
  shows "\<exists>dec. update_streaming S True b d h m = Some (StreamDecryptionError, dec)"
  using assms by (simp add: update_streaming_def stream_sizes Let_def)

lemma final_block:
  assumes "stream_lib_ok L S" "length b = 16" "mac_holds S k h m"
  shows "\<exists>dec. update_streaming S True b d h mac =
     Some ((if hmac_sha256 L k (m @ b) \<noteq> mac then StreamDecryptionError
            else case is_valid_pkcs7_padding (fst (dec_run S 1 d b)) of
                   Some p \<Rightarrow> FinalDecryptedChunk p | None \<Rightarrow> StreamDecryptionError), dec)"
proof -
  have le: "16 * 1 \<le> length b" and one: "length b div 16 = 1"
    using assms(2) by simp_all
  obtain h' where h': "decrypt_blocks S 1 b d h = Some (fst (dec_run S 1 d b), drop (16 * 1) b, snd (dec_run S 1 d b), h')"
    "mac_holds S k h' (m @ take (16 * 1) b)"
    using decrypt_blocks_run [OF le assms(3)] by blast
  have "mac_finalize S h' = hmac_sha256 L k (m @ b)"
    using mac_holds_finalize [OF assms(1) h'(2)] assms(2) by simp
  moreover have "length (fst (dec_run S 1 d b)) = 16"
    using dec_run_length [OF assms(1) le] by simp
  ultimately show ?thesis
    using h'(1) one
    by (simp add: update_streaming_def validate_stream_end_def AES256_CBC_BLOCK_SIZE_def Let_def del: One_nat_def dec_run.simps decrypt_blocks.simps
        split: option.splits)
qed

lemma unaligned_rest:
  assumes "length c mod 16 \<noteq> 0 \<or> c = []"
  shows "length (drop (16 * held_blocks c) c) < 16"
proof (cases "length c")
  case (Suc a)
  then have "Suc a mod 16 \<noteq> 0"
    using assms by auto
  then have "Suc a - 16 * (a div 16) < 16"
    by presburger
  then show ?thesis
    using Suc by (simp add: held_blocks_def)
qed (simp add: held_blocks_def)

lemma final_aligned:
  assumes "stream_lib_ok L S" "length key = 64" "\<not> length w < 48" "length (drop 48 w) = 16 * Suc n"
    and "mac_holds S (drop 32 key) h (take 16 w @ take (16 * n) (drop 48 w))"
    and "dr = dec_run S n (cbc_dec_new S (take 32 key) (take 16 w)) (drop 48 w)"
  shows "\<exists>r dec. update_streaming S True (drop (16 * n) (drop 48 w)) (snd dr) h (take 32 (drop 16 w)) = Some (r, dec)
     \<and> final_result L key w (fst dr) r"
proof -
  let ?c = "drop 48 w" and ?mac = "take 32 (drop 16 w)"
  let ?b = "drop (16 * n) ?c"
  have b: "length ?b = 16"
    using assms(4) by simp
  have blk: "length (fst (dec_run S 1 (snd dr) ?b)) = 16"
    using dec_run_length [OF assms(1), of 1 ?b] b by simp
  have whole: "fst (dec_run S (length ?c div 16) (cbc_dec_new S (take 32 key) (take 16 w)) ?c) =
      fst dr @ fst (dec_run S 1 (snd dr) ?b)"
    using dec_run_add [of S n 1 _ ?c] assms(4) unfolding assms(6) by simp
  have "(take 16 w @ take (16 * n) ?c) @ ?b = take 16 w @ ?c"
    by (simp only: append_assoc append_take_drop_id)
  with final_block [OF assms(1) b assms(5), of "snd dr" ?mac] obtain dec where
    "update_streaming S True ?b (snd dr) h ?mac =
       Some ((if hmac_sha256 L (drop 32 key) (take 16 w @ ?c) \<noteq> ?mac then StreamDecryptionError
          else case is_valid_pkcs7_padding (fst (dec_run S 1 (snd dr) ?b)) of
                 Some p \<Rightarrow> FinalDecryptedChunk p | None \<Rightarrow> StreamDecryptionError), dec)"
    by metis
  moreover have "stream_open L key w =
      (if hmac_sha256 L (drop 32 key) (take 16 w @ ?c) \<noteq> ?mac then Err IntegrityCheckFailed
       else ok_or FormatWrong (map_option ((@) (fst dr)) (is_valid_pkcs7_padding (fst (dec_run S 1 (snd dr) ?b)))))"
    using legacy_open [OF assms(1,2), of w] assms(3,4) unfolding whole unpad_last_block [OF blk] by simp
  ultimately show ?thesis
    by (auto simp: final_result_def ok_or_def split: option.splits)
qed

lemma dec_inv_final:
  assumes "stream_lib_ok L S" "length key = 64" "dec_inv S key w out dec"
  shows "\<exists>r dec'. decryptor_update S [] True dec = Some (r, dec') \<and> final_result L key w out r"
proof (cases "length w < 48")
  case True
  then show ?thesis
    using assms(3) by (auto simp: dec_inv_def decryptor_update_def stream_sizes stream_open_def final_result_def)
next
  case False
  let ?c = "drop 48 w"
  define dr where "dr = dec_run S (held_blocks ?c) (cbc_dec_new S (take 32 key) (take 16 w)) ?c"
  obtain h where h: "mac_holds S (drop 32 key) h (take 16 w @ take (16 * held_blocks ?c) ?c)" "out = fst dr"
    "dec = \<lparr>dec_buffer = drop (16 * held_blocks ?c) ?c, decryptor_state = DecStreaming (snd dr) h (take 32 (drop 16 w))\<rparr>"
    using dec_inv_long [OF assms(3) False] unfolding dr_def by metis
  have upd: "decryptor_update S [] True dec =
      update_streaming S True (drop (16 * held_blocks ?c) ?c) (snd dr) h (take 32 (drop 16 w))"
    unfolding h(3) by (simp add: decryptor_update_def)
  show ?thesis
  proof (cases "length ?c mod 16 = 0 \<and> ?c \<noteq> []")
    case True
    then obtain n where n: "length ?c = 16 * Suc n"
      by (metis dvd_def length_0_conv mod_0_imp_dvd mult_0_right not0_implies_Suc)
    then have held: "held_blocks ?c = n"
      unfolding held_blocks_def by simp
    show ?thesis
      using final_aligned [OF assms(1,2) False n h(1) [unfolded held] dr_def [unfolded held]]
      unfolding upd held h(2) .
  next
    case unaligned: False
    then have "\<exists>e. stream_open L key w = Err e"
      using legacy_open [OF assms(1,2), of w] False by (auto simp: ok_or_def pkcs7_unpad_def)
    then have "final_result L key w out StreamDecryptionError"
      by (auto simp: final_result_def)
    moreover have "length (drop (16 * held_blocks ?c) ?c) < 16"
      using unaligned by (intro unaligned_rest) auto
    then have "\<exists>dec'. decryptor_update S [] True dec = Some (StreamDecryptionError, dec')"
      unfolding upd by (rule final_without_block)
    ultimately show ?thesis
      by blast
  qed
qed

lemma feed_chunks_inv:
  assumes "dec_inv S key w out dec"
  shows "\<exists>ps dec'. feed_chunks S cs dec = Some (ps, dec') \<and> dec_inv S key (w @ concat cs) (out @ ps) dec'"
  using assms
proof (induction cs arbitrary: w out dec)
  case (Cons c cs)
  obtain r dec' bs where u: "decryptor_update S c False dec = Some (r, dec')" "dec_inv S key (w @ c) (out @ bs) dec'"
    "r = DecNeedMoreData \<and> bs = [] \<or> r = DecryptedChunk bs"
    using dec_inv_update [OF Cons.prems] by blast
  then show ?case
    using Cons.IH [OF u(2)] by auto
qed simp


section \<open>The reference instance satisfies the contracts\<close>

lemma enc_run_ref: "enc_run stream_ref n e p = (take (16 * n) p, ())"
  by (induction n arbitrary: e p) (simp_all add: stream_ref_def take_add Let_def)

lemma dec_run_ref: "dec_run stream_ref n d c = (take (16 * n) c, ())"
  by (induction n arbitrary: d c) (simp_all add: stream_ref_def take_add Let_def)

lemma mac_ref: "foldl (mac_update stream_ref) (k, m) xs = (k, m @ concat xs)"
  by (induction xs arbitrary: m) (simp_all add: stream_ref_def)

lemma pkcs7_pad_length: "length (pkcs7_pad p) = 16 * (length p div 16 + 1)"
proof -
  have "n + (16 - n mod 16) = 16 * (n div 16 + 1)" for n :: nat
    by presburger
  then show ?thesis
    by (simp add: pkcs7_pad_def Let_def)
qed

lemma stream_ref_ok: "stream_lib_ok stream_crypto_ref stream_ref"
proof -
  have "take (16 * (length p div 16 + 1)) (pkcs7_pad p) = pkcs7_pad p" for p
    using pkcs7_pad_length [of p] by simp
  moreover have "length c mod 16 = 0 \<Longrightarrow> take (16 * (length c div 16)) c = c" for c :: bytes
    by (metis add.right_neutral mult_div_mod_eq order_refl take_all)
  moreover have "mac_new stream_ref k = (k, [])" for k
    by (simp add: stream_ref_def)
  ultimately show ?thesis
    by (simp add: stream_lib_ok_def enc_run_ref dec_run_ref mac_ref del: enc_run.simps)
      (simp add: stream_ref_def stream_crypto_ref_def crypto_ref_def)
qed

lemma ref_stream_key_length: "length ref_stream_key = 64"
  by (simp add: ref_stream_key_def)

lemma unat_small: "n \<le> 16 \<Longrightarrow> unat (of_nat n :: 8 word) = n"
  by (simp add: unat_of_nat)

lemma unpad_pad: "pkcs7_unpad (pkcs7_pad p) = Some p"
proof -
  define n where "n = 16 - length p mod 16"
  have n: "0 < n" "n \<le> 16" and pad: "pkcs7_pad p = p @ replicate n (of_nat n)" "unat (of_nat n :: 8 word) = n"
    using unat_small [of n] by (simp_all add: n_def pkcs7_pad_def Let_def)
  then show ?thesis
    by (simp add: pkcs7_unpad_def Let_def)
qed

lemma pad_unpad_aligned:
  assumes "pkcs7_unpad c = Some p" "length c mod 16 = 0"
  shows "c = pkcs7_pad p"
proof -
  define n where "n = unat (List.last c)"
  have n: "0 < n" "n \<le> 16" "n \<le> length c" "drop (length c - n) c = replicate n (List.last c)" "p = take (length c - n) c"
    using assms(1) by (auto simp: pkcs7_unpad_def n_def Let_def split: if_splits)
  obtain a where "length c = 16 * Suc a"
    using assms(2) n(1,3) by (metis dvd_def mod_0_imp_dvd mult_0_right not0_implies_Suc not_less)
  moreover obtain r where r: "n + r = 16" "r < 16"
    using n(1,2) by (metis le_Suc_ex add_diff_cancel_left' diff_less zero_less_numeral)
  ultimately have "length c - n = 16 * a + r"
    by simp
  then have "16 - (length c - n) mod 16 = n"
    using r by simp
  then have "16 - length p mod 16 = n"
    using n(5) by simp
  moreover have "(of_nat n :: 8 word) = List.last c"
    by (simp add: n_def)
  ultimately have "pkcs7_pad p = p @ replicate n (List.last c)"
    by (simp add: pkcs7_pad_def Let_def)
  then show ?thesis
    using append_take_drop_id [of "length c - n" c] n(4,5) by simp
qed

lemma stream_crypto_ref_cbc: "cbc_ok stream_crypto_ref"
proof -
  have "(if length c mod 16 = 0 then pkcs7_unpad c else None) = Some p \<longleftrightarrow> c = pkcs7_pad p" for c p
    using unpad_pad [of p] pad_unpad_aligned [of c p] pkcs7_pad_length [of p] by auto
  then show ?thesis
    by (simp add: cbc_ok_def stream_crypto_ref_def)
qed

lemma open_sealed:
  assumes "cbc_ok L" "stream_lib_ok L S" "length key = 64" "length iv = 16"
  shows "stream_open L key (stream_seal L iv key p) = Ok p"
proof -
  have "length (hmac_sha256 L k m) = 32" for k m
    using assms(2) unfolding stream_lib_ok_def by blast
  moreover have "cbc_decrypt L (take 32 key) iv (cbc_encrypt L (take 32 key) iv p) = Some p"
    using assms(1,3,4) unfolding cbc_ok_def by simp
  ultimately show ?thesis
    using assms(4)
    by (simp add: stream_open_def stream_seal_def Aes256CbcHmacSha256_encrypt_def Aes256CbcHmacSha256_decrypt_def
        split_to_subkeys_def calculate_mac_def ENC_KEY_SIZE_def ok_or_def Let_def)
qed

lemma ref_stream_opens: "stream_open stream_crypto_ref ref_stream_key ref_stream = Ok [1, 2, 3]"
  unfolding ref_stream_def
  by (rule open_sealed [OF stream_crypto_ref_cbc stream_ref_ok ref_stream_key_length]) simp


section \<open>Trailing bytes\<close>

lemma decrypt_blocks_rest:
  assumes "16 * n \<le> length b"
  shows "decrypt_blocks S n (b @ r) d h =
     map_option (\<lambda>(out, rest, d, h). (out, rest @ r, d, h)) (decrypt_blocks S n b d h)"
  using assms
proof (induction n arbitrary: b d h)
  case (Suc n)
  then have "16 * n \<le> length (drop 16 b)" "16 \<le> length b"
    by simp_all
  then show ?case
    using Suc.IH [of "drop 16 b"]
    by (simp add: read_block_ciphertext_def stream_sizes split_beta Let_def option.map_comp comp_def)
qed simp

lemma update_streaming_rest:
  assumes "length b mod 16 = 0" "length r < 16"
  shows "map_option fst (update_streaming S True (b @ r) d h m) = map_option fst (update_streaming S True b d h m)"
proof -
  obtain n where n: "length b = 16 * n"
    using assms(1) by (metis mod_0_imp_dvd dvd_def)
  then have "length (b @ r) div 16 = n" "length b div 16 = n"
    using assms(2) by simp_all
  then show ?thesis
    using decrypt_blocks_rest [of n b S r d h] n
    by (cases "decrypt_blocks S n b d h")
      (auto simp: update_streaming_def AES256_CBC_BLOCK_SIZE_def Let_def split: option.splits)
qed


section \<open>Properties\<close>



text \<open>C38: If the last chunk of a stream is not empty, up to fifteen bytes after the last full block change nothing: they
  are neither decrypted nor covered by the HMAC.\<close>

theorem trailing_bytes_are_ignored:
  assumes "length (dec_buffer dec @ x) mod 16 = 0" "length r < 16" "decryptor_state dec = DecStreaming d h m"
  shows "map_option fst (decryptor_update S (x @ r) True dec) = map_option fst (decryptor_update S x True dec)"
  using update_streaming_rest [OF assms(1,2), of S d h m] assms(3) by (simp add: decryptor_update_def)

theorem trailing_bytes_are_ignored_witness:
  "map_option fst (decryptor_update stream_ref (replicate 16 16 @ [5]) True
       \<lparr>dec_buffer = [], decryptor_state = DecStreaming () ([], []) (replicate 32 16)\<rparr>) = Some (FinalDecryptedChunk [])"
proof -
  let ?dec = "\<lparr>dec_buffer = [], decryptor_state = DecStreaming () ([], []) (replicate 32 16)\<rparr>"
  have "map_option fst (decryptor_update stream_ref (replicate 16 16) True ?dec) = Some (FinalDecryptedChunk [])"
    by (simp add: decryptor_update_def update_streaming_def stream_sizes read_block_ciphertext_def stream_ref_def
        validator_read_block_def validate_stream_end_def is_valid_pkcs7_padding_def Let_def)
  then show ?thesis
    using trailing_bytes_are_ignored [of ?dec "replicate 16 16" "[5]" "()" "([], [])" "replicate 32 16" stream_ref] by simp
qed

end
