(* ===== verification/Attachment_Reader_Laws.thy ===== *)
theory Attachment_Reader_Laws
  imports Attachment_Stream_Laws Key_Store_Laws
begin

text \<open>
  The reader of an attachment: every poll returns, the end of the stream is reported only for an authentic
  attachment that has been given out as a whole, and an authentic attachment is read to its end.
\<close>

section \<open>The specification of a reader\<close>

text \<open>The contract of a reader: it gives out its contents in order, and nothing only at their end.\<close>

definition reader_ok :: "'r async_read \<Rightarrow> ('r \<Rightarrow> bytes) \<Rightarrow> bool" where
  "reader_ok inner_read contents \<longleftrightarrow>
     (\<forall>r n. case inner_read r n of
        (Ready (Ok bs), r') \<Rightarrow> contents r = bs @ contents r' \<and> (bs = [] \<and> 0 < n \<longrightarrow> contents r = [])
      | (_, r') \<Rightarrow> contents r' = contents r)"

text \<open>The state of the reader of an attachment \<open>wire\<close> from which \<open>out\<close> has been read.\<close>

definition ad_inv ::
  "crypto_lib \<Rightarrow> ('e, 'd, 'h) stream_lib \<Rightarrow> ('r \<Rightarrow> bytes) \<Rightarrow> bytes \<Rightarrow> bytes \<Rightarrow> bytes \<Rightarrow> ('r, 'd, 'h) attachment_decryptor \<Rightarrow> bool" where
  "ad_inv L S contents key wire out self \<longleftrightarrow>
     (ad_inner_eof self \<longrightarrow> contents (ad_inner self) = [])
     \<and> (case ad_state self of
          NeedDiscriminator k \<Rightarrow>
            k = Aes256CbcHmacKey key \<and> out = [] \<and> ad_plaintext_buf self = [] \<and> contents (ad_inner self) = wire
        | LegacyStreamDecryptor dec \<Rightarrow>
            (\<exists>w. dec_inv S key w (out @ ad_plaintext_buf self) dec \<and> wire = 2 # w @ contents (ad_inner self))
        | StreamDecryptorDone \<Rightarrow> (\<exists>w. wire = 2 # w \<and> stream_open L key w = Ok (out @ ad_plaintext_buf self))
        | StreamDecryptorError \<Rightarrow> False)"

text \<open>A sequence of polls of the reader with room in the buffer and without an error, and the bytes it has given out.\<close>

inductive reads ::
  "('e, 'd, 'h) stream_lib \<Rightarrow> 'r async_read \<Rightarrow> ('r, 'd, 'h) attachment_decryptor \<Rightarrow> bytes
   \<Rightarrow> ('r, 'd, 'h) attachment_decryptor \<Rightarrow> bool"
  for S inner_read a where
  reads_start: "reads S inner_read a [] a"
| reads_bytes: "reads S inner_read a out b \<Longrightarrow> 0 < n \<Longrightarrow> poll_read S inner_read n b = Some (Ready (Ok bs), c)
    \<Longrightarrow> reads S inner_read a (out @ bs) c"
| reads_pending: "reads S inner_read a out b \<Longrightarrow> 0 < n \<Longrightarrow> poll_read S inner_read n b = Some (Pending, c)
    \<Longrightarrow> reads S inner_read a out c"

text \<open>An attachment that decrypts.\<close>

definition authentic :: "crypto_lib \<Rightarrow> bytes \<Rightarrow> bytes \<Rightarrow> bytes \<Rightarrow> bool" where
  "authentic L key wire p \<longleftrightarrow> (\<exists>w. wire = 2 # w \<and> stream_open L key w = Ok p)"

text \<open>Every outcome of a poll that is not an error keeps the invariant; the end is reported only when done.
  A poll waits or fails only if the reader underneath does, or fails because the attachment is not authentic.\<close>

definition read_outcome ::
  "crypto_lib \<Rightarrow> ('e, 'd, 'h) stream_lib \<Rightarrow> 'r async_read \<Rightarrow> ('r \<Rightarrow> bytes) \<Rightarrow> bytes \<Rightarrow> bytes \<Rightarrow> nat \<Rightarrow> bytes
   \<Rightarrow> (bytes, io_error) result poll \<times> ('r, 'd, 'h) attachment_decryptor \<Rightarrow> bool" where
  "read_outcome L S inner_read contents key wire n out y \<longleftrightarrow>
     (case y of
        (Ready (Ok bs), c) \<Rightarrow>
          ad_inv L S contents key wire (out @ bs) c
          \<and> (bs = [] \<and> 0 < n \<longrightarrow> ad_state c = StreamDecryptorDone \<and> ad_plaintext_buf c = [])
      | (Pending, c) \<Rightarrow> ad_inv L S contents key wire out c \<and> (\<exists>r m r'. inner_read r m = (Pending, r'))
      | (Ready (Err e), _) \<Rightarrow> (\<exists>r m r'. inner_read r m = (Ready (Err e), r')) \<or> (\<forall>p. \<not> authentic L key wire p))"

text \<open>A bound on the rounds of the loop of a poll.\<close>

definition dec_mu :: "('d, 'h) stream_decryptor \<Rightarrow> nat" where
  "dec_mu dec =
     (case decryptor_state dec of
        DecUninitialized _ \<Rightarrow> 100 - length (dec_buffer dec)
      | DecStreaming _ _ _ \<Rightarrow> 17 - length (dec_buffer dec)
      | _ \<Rightarrow> 0)"

definition ad_mu :: "('r, 'd, 'h) attachment_decryptor \<Rightarrow> nat" where
  "ad_mu self =
     (case ad_state self of
        StreamDecryptorDone \<Rightarrow> 0
      | StreamDecryptorError \<Rightarrow> 0
      | NeedDiscriminator _ \<Rightarrow> if ad_inner_eof self then 1 else 200
      | LegacyStreamDecryptor dec \<Rightarrow>
          if ad_inner_eof self then 1 else if ad_plaintext_buf self \<noteq> [] then 2 else 2 + dec_mu dec)"

text \<open>A round of the loop of a poll: it returns an outcome, or goes on from a smaller state.\<close>

definition read_round ::
  "crypto_lib \<Rightarrow> ('e, 'd, 'h) stream_lib \<Rightarrow> 'r async_read \<Rightarrow> ('r \<Rightarrow> bytes) \<Rightarrow> bytes \<Rightarrow> bytes \<Rightarrow> nat \<Rightarrow> bytes
   \<Rightarrow> ('r, 'd, 'h) attachment_decryptor \<Rightarrow> bool" where
  "read_round L S inner_read contents key wire n out self \<longleftrightarrow>
     (\<exists>y. poll_read S inner_read n self = Some y \<and> read_outcome L S inner_read contents key wire n out y)
     \<or> (\<exists>self'. poll_read S inner_read n self = poll_read S inner_read n self'
          \<and> ad_inv L S contents key wire out self' \<and> ad_mu self' < ad_mu self)"


section \<open>A reference instance\<close>

definition bytes_read :: "bytes async_read" where
  "bytes_read r n = (Ready (Ok (take n r)), drop n r)"

definition ref_stream_context :: "(8 word, unit) key_store_context" where
  "ref_stream_context =
     snd (add_local_symmetric_key (LocalId 1) (Aes256CbcHmacKey ref_stream_key) (context_ro key_store_default))"


section \<open>The reader of an attachment\<close>

lemma held_rest: "length (drop (16 * held_blocks c) c) \<le> 16"
proof -
  have "n - 16 * ((n - 1) div 16) \<le> 16" for n :: nat
    by presburger
  then show ?thesis
    by (simp add: held_blocks_def)
qed

lemma dec_mu_bounds: "dec_inv S key w out dec \<Longrightarrow> 0 < dec_mu dec \<and> dec_mu dec \<le> 100"
  using held_rest [of "drop 48 w"] by (auto simp: dec_inv_def dec_mu_def Let_def split: if_splits)

lemma dec_mu_long:
  assumes "stream_lib_ok L S" "dec_inv S key w out dec" "\<not> length w < 48"
  shows "dec_mu dec = 17 - (length w - 48 - length out)"
    and "length w - 48 - length out \<le> 16" and "length out \<le> length w - 48"
proof -
  let ?c = "drop 48 w"
  obtain h where h: "out = fst (dec_run S (held_blocks ?c) (cbc_dec_new S (take 32 key) (take 16 w)) ?c)"
    "dec_buffer dec = drop (16 * held_blocks ?c) ?c" "\<exists>d h m. decryptor_state dec = DecStreaming d h m"
    using dec_inv_long [OF assms(2,3)] by (metis stream_decryptor.select_convs)
  have l: "length out = 16 * held_blocks ?c"
    unfolding h(1) by (rule dec_run_length [OF assms(1) held_blocks_le])
  show "dec_mu dec = 17 - (length w - 48 - length out)"
    using h(2,3) l by (auto simp: dec_mu_def)
  show "length w - 48 - length out \<le> 16" "length out \<le> length w - 48"
    using held_rest [of ?c] held_blocks_le [of ?c] l by simp_all
qed

lemma dec_mu_decreases:
  assumes "stream_lib_ok L S" "dec_inv S key w out dec" "dec_inv S key (w @ x) out dec'" "x \<noteq> []"
  shows "dec_mu dec' < dec_mu dec"
proof (cases "length w < 48")
  case True
  then have d: "dec_mu dec = 100 - length w"
    using assms(2) by (simp add: dec_inv_def dec_mu_def)
  show ?thesis
  proof (cases "length (w @ x) < 48")
    case True
    then have "dec_mu dec' = 100 - length (w @ x)"
      using assms(3) by (simp add: dec_inv_def dec_mu_def)
    then show ?thesis
      using d True assms(4) by (cases x) auto
  next
    case False
    have "dec_mu dec' \<le> 17"
      using dec_mu_long(1) [OF assms(1,3) False] by simp
    then show ?thesis
      using d \<open>length w < 48\<close> by simp
  qed
next
  case False
  then have "\<not> length (w @ x) < 48"
    by simp
  from dec_mu_long [OF assms(1,2) False] dec_mu_long [OF assms(1,3) this] show ?thesis
    using assms(4) False by (cases x) auto
qed

lemma feed_after:
  assumes "ad_state self = LegacyStreamDecryptor dec" "ad_plaintext_buf self = []" "dec_inv S key w out dec"
  shows "\<exists>dec' bs. feed_after_discriminator S data self =
       Some (Ok (), self\<lparr>ad_state := LegacyStreamDecryptor dec', ad_plaintext_buf := bs\<rparr>)
     \<and> dec_inv S key (w @ data) (out @ bs) dec'"
proof (cases "data = []")
  case True
  have "self = self\<lparr>ad_state := LegacyStreamDecryptor dec, ad_plaintext_buf := []\<rparr>"
    using assms(1,2) by (cases self) simp
  then have "feed_after_discriminator S data self =
      Some (Ok (), self\<lparr>ad_state := LegacyStreamDecryptor dec, ad_plaintext_buf := []\<rparr>)"
    using True by (simp add: feed_after_discriminator_def)
  then show ?thesis
    using True assms(3) by (metis append_Nil2)
next
  case False
  obtain res dec' bs where u: "decryptor_update S data False dec = Some (res, dec')" "dec_inv S key (w @ data) (out @ bs) dec'"
    "res = DecNeedMoreData \<and> bs = [] \<or> res = DecryptedChunk bs"
    using dec_inv_update [OF assms(3), of data] by blast
  moreover have "self\<lparr>ad_state := x, ad_plaintext_buf := []\<rparr> = self\<lparr>ad_state := x\<rparr>" for x
    using assms(2) by (cases self) simp
  ultimately have "feed_after_discriminator S data self =
      Some (Ok (), self\<lparr>ad_state := LegacyStreamDecryptor dec', ad_plaintext_buf := bs\<rparr>)"
    using assms(1,2) False by (auto simp: feed_after_discriminator_def)
  then show ?thesis
    using u(2) by blast
qed

lemma feed_inv:
  fixes S :: "('e, 'd, 'h) stream_lib"
  assumes "ad_inv L S contents key wire out self" "\<not> ad_inner_eof self" "data \<noteq> []"
    and "contents (ad_inner self) = data @ contents r" "stream_lib_ok L S" "ad_plaintext_buf self = []"
    and "ad_state self \<noteq> StreamDecryptorDone" "ad_state self \<noteq> StreamDecryptorError"
  shows "\<exists>res self'. feed_bytes_to_decryptor S data (self\<lparr>ad_inner := r\<rparr>) = Some (res, self')
     \<and> (is_ok res \<longrightarrow> ad_inv L S contents key wire out self' \<and> ad_mu self' < ad_mu self)
     \<and> (\<not> is_ok res \<longrightarrow> (\<forall>p. \<not> authentic L key wire p))"
proof (cases "ad_state self")
  case (NeedDiscriminator k)
  show ?thesis
  proof (cases "hd data = 2")
    case True
    obtain dec :: "('d, 'h) stream_decryptor" where dec: "decryptor_try_new (Aes256CbcHmacKey key) = Ok dec"
      by (simp add: decryptor_try_new_def)
    obtain x where x: "data = 2 # x"
      using True assms(3) by (cases data) auto
    let ?self = "self\<lparr>ad_inner := r, ad_state := LegacyStreamDecryptor dec\<rparr>"
    obtain dec' bs where u: "feed_after_discriminator S x ?self =
        Some (Ok (), ?self\<lparr>ad_state := LegacyStreamDecryptor dec', ad_plaintext_buf := bs\<rparr>)" "dec_inv S key x bs dec'"
      using feed_after [of ?self dec S key "[]" "[]" x] dec_inv_new [OF dec] assms(6) by auto
    have i: "k = Aes256CbcHmacKey key" "out = []" "wire = 2 # x @ contents r"
      using assms(1,4) x NeedDiscriminator by (auto simp: ad_inv_def)
    let ?self' = "?self\<lparr>ad_state := LegacyStreamDecryptor dec', ad_plaintext_buf := bs\<rparr>"
    have "feed_bytes_to_decryptor S data (self\<lparr>ad_inner := r\<rparr>) = Some (Ok (), ?self')"
      using NeedDiscriminator dec x i u(1) by (simp add: feed_bytes_to_decryptor_def discriminator_try_from_def)
    moreover have "ad_inv L S contents key wire out ?self'"
      using u(2) i assms(2) by (simp add: ad_inv_def)
    moreover have "ad_mu ?self' < ad_mu self"
      using dec_mu_bounds [OF u(2)] NeedDiscriminator assms(2) by (simp add: ad_mu_def)
    ultimately show ?thesis
      by simp
  next
    case False
    moreover have "contents (ad_inner self) = wire"
      using assms(1) NeedDiscriminator by (simp add: ad_inv_def)
    then have "\<not> authentic L key wire p" for p
      using False assms(3,4) by (cases data) (auto simp: authentic_def)
    ultimately show ?thesis
      using NeedDiscriminator assms(3) by (simp add: feed_bytes_to_decryptor_def discriminator_try_from_def)
  qed
next
  case (LegacyStreamDecryptor dec)
  then obtain w where w: "dec_inv S key w out dec" "wire = 2 # w @ data @ contents r"
    using assms(1,4,6) by (auto simp: ad_inv_def)
  obtain dec' bs where u: "feed_after_discriminator S data (self\<lparr>ad_inner := r\<rparr>) =
      Some (Ok (), self\<lparr>ad_inner := r, ad_state := LegacyStreamDecryptor dec', ad_plaintext_buf := bs\<rparr>)"
    "dec_inv S key (w @ data) (out @ bs) dec'"
    using feed_after [of "self\<lparr>ad_inner := r\<rparr>" dec S key w out data] w(1) LegacyStreamDecryptor assms(6) by auto
  let ?self' = "self\<lparr>ad_inner := r, ad_state := LegacyStreamDecryptor dec', ad_plaintext_buf := bs\<rparr>"
  have "feed_bytes_to_decryptor S data (self\<lparr>ad_inner := r\<rparr>) = Some (Ok (), ?self')"
    using u(1) LegacyStreamDecryptor assms(3) by (simp add: feed_bytes_to_decryptor_def)
  moreover have "ad_inv L S contents key wire out ?self'"
    using u(2) w(2) assms(2) by (auto simp: ad_inv_def intro: exI [of _ "w @ data"])
  moreover have "bs = [] \<Longrightarrow> dec_mu dec' < dec_mu dec"
    using dec_mu_decreases [OF assms(5) w(1)] u(2) assms(3) by simp
  then have "ad_mu ?self' < ad_mu self"
    using dec_mu_bounds [OF w(1)] LegacyStreamDecryptor assms(2,6) by (simp add: ad_mu_def)
  ultimately show ?thesis
    by simp
qed (use assms(7,8) in simp_all)

lemma finalize_inv:
  assumes "stream_lib_ok L S" "length key = 64" "ad_inv L S contents key wire out self" "ad_inner_eof self"
  shows "\<exists>res self'. finalize_underlying S self = Some (res, self')
     \<and> (is_ok res \<longrightarrow> ad_inv L S contents key wire out self' \<and> ad_state self' = StreamDecryptorDone)
     \<and> (\<not> is_ok res \<longrightarrow> (\<forall>p. \<not> authentic L key wire p))"
proof (cases "ad_state self")
  case (LegacyStreamDecryptor dec)
  then obtain w where w: "dec_inv S key w (out @ ad_plaintext_buf self) dec" "wire = 2 # w @ contents (ad_inner self)"
    "contents (ad_inner self) = []"
    using assms(3,4) by (auto simp: ad_inv_def)
  obtain r dec' where "decryptor_update S [] True dec = Some (r, dec')" "final_result L key w (out @ ad_plaintext_buf self) r"
    using dec_inv_final [OF assms(1,2) w(1)] by blast
  then show ?thesis
    using LegacyStreamDecryptor w(2,3)
    by (auto simp: finalize_underlying_def final_result_def ad_inv_def authentic_def Let_def split: result.splits)
qed (use assms in \<open>auto simp: finalize_underlying_def ad_inv_def authentic_def Let_def\<close>)

lemma drain_outcome:
  assumes "ad_inv L S contents key wire out self" "0 < n" "ad_plaintext_buf self \<noteq> []"
  shows "\<exists>bs self'. drain_plaintext_into n self = (Some bs, self')
     \<and> read_outcome L S inner_read contents key wire n out (Ready (Ok bs), self')"
proof -
  let ?m = "min n (length (ad_plaintext_buf self))"
  have m: "0 < ?m"
    using assms(2,3) by simp
  then have "take ?m (ad_plaintext_buf self) \<noteq> []"
    using assms(3) by auto
  then show ?thesis
    using assms(1) m
    by (auto simp: drain_plaintext_into_def read_outcome_def ad_inv_def Let_def simp del: min_less_iff_conj min_0R take_eq_Nil
        split: stream_decryptor_state.splits)
qed

lemma drain_nothing: "ad_plaintext_buf self = [] \<Longrightarrow> drain_plaintext_into n self = (None, self)"
  by (simp add: drain_plaintext_into_def)

lemma active_cases:
  assumes "ad_state self \<noteq> StreamDecryptorDone" "ad_state self \<noteq> StreamDecryptorError" "ad_plaintext_buf self = []"
  shows "poll_read S inner_read n self =
     (if ad_inner_eof self
      then (case finalize_underlying S self of
              None \<Rightarrow> None
            | Some (Err e, self') \<Rightarrow> Some (Ready (Err e), self')
            | Some (Ok _, self') \<Rightarrow> poll_read S inner_read n self')
      else (case inner_read (ad_inner self) READ_SCRATCH_SIZE of
              (Pending, inner) \<Rightarrow> Some (Pending, self\<lparr>ad_inner := inner\<rparr>)
            | (Ready (Err e), inner) \<Rightarrow> Some (Ready (Err e), self\<lparr>ad_inner := inner, ad_state := StreamDecryptorError\<rparr>)
            | (Ready (Ok filled), inner) \<Rightarrow>
                (if filled = [] then poll_read S inner_read n (self\<lparr>ad_inner := inner, ad_inner_eof := True\<rparr>)
                 else case feed_bytes_to_decryptor S filled (self\<lparr>ad_inner := inner\<rparr>) of
                        None \<Rightarrow> None
                      | Some (Err e, self') \<Rightarrow> Some (Ready (Err e), self')
                      | Some (Ok _, self') \<Rightarrow> poll_read S inner_read n self')))"
  using assms drain_nothing [OF assms(3), of n]
  by (subst poll_read.simps) (cases "ad_state self"; simp)

lemma eof_round:
  assumes "stream_lib_ok L S" "length key = 64" "ad_inv L S contents key wire out self" "ad_inner_eof self"
    and "ad_state self \<noteq> StreamDecryptorDone" "ad_state self \<noteq> StreamDecryptorError" "ad_plaintext_buf self = []"
  shows "read_round L S inner_read contents key wire n out self"
proof -
  obtain res self' where f: "finalize_underlying S self = Some (res, self')"
    "is_ok res \<longrightarrow> ad_inv L S contents key wire out self' \<and> ad_state self' = StreamDecryptorDone"
    "\<not> is_ok res \<longrightarrow> (\<forall>p. \<not> authentic L key wire p)"
    using finalize_inv [OF assms(1-4)] by blast
  have mu: "0 < ad_mu self"
    using assms(4-6) by (cases "ad_state self") (simp_all add: ad_mu_def)
  show ?thesis
  proof (cases res)
    case (Ok u)
    then have "ad_inv L S contents key wire out self'" "ad_mu self' < ad_mu self"
      using f(2) mu by (simp_all add: ad_mu_def)
    moreover have "poll_read S inner_read n self = poll_read S inner_read n self'"
      using f(1) Ok assms(4) by (simp add: active_cases [OF assms(5-7)])
    ultimately show ?thesis
      unfolding read_round_def by blast
  next
    case (Err e)
    then show ?thesis
      using f assms(4) by (simp add: active_cases [OF assms(5-7)] read_round_def read_outcome_def)
  qed
qed

lemma inner_round:
  assumes "stream_lib_ok L S" "reader_ok inner_read contents" "ad_inv L S contents key wire out self" "\<not> ad_inner_eof self"
    and "ad_state self \<noteq> StreamDecryptorDone" "ad_state self \<noteq> StreamDecryptorError" "ad_plaintext_buf self = []"
  shows "read_round L S inner_read contents key wire n out self"
proof -
  note unfold = active_cases [OF assms(5-7), of S inner_read n]
  obtain p r where pr: "inner_read (ad_inner self) READ_SCRATCH_SIZE = (p, r)"
    by fastforce
  have law: "case p of Ready (Ok bs) \<Rightarrow> contents (ad_inner self) = bs @ contents r \<and> (bs = [] \<longrightarrow> contents (ad_inner self) = [])
      | _ \<Rightarrow> contents r = contents (ad_inner self)"
    using assms(2) pr unfolding reader_ok_def
    by (auto simp: READ_SCRATCH_SIZE_def split: poll.splits result.splits dest!: spec [of _ "ad_inner self"] spec [of _ "8192"])
  consider (pending) "p = Pending" | (err) e where "p = Ready (Err e)" | (eof) "p = Ready (Ok [])"
    | (bytes) bs where "p = Ready (Ok bs)" "bs \<noteq> []"
    by (metis poll.exhaust result.exhaust)
  then show ?thesis
  proof cases
    case pending
    then have "ad_inv L S contents key wire out (self\<lparr>ad_inner := r\<rparr>)"
      using assms(3,4) law by (auto simp: ad_inv_def split: stream_decryptor_state.splits)
    then show ?thesis
      using pending pr assms(4) by (auto simp: unfold read_round_def read_outcome_def)
  next
    case err
    then show ?thesis
      using pr assms(4) by (auto simp: unfold read_round_def read_outcome_def)
  next
    case eof
    let ?self' = "self\<lparr>ad_inner := r, ad_inner_eof := True\<rparr>"
    have "poll_read S inner_read n self = poll_read S inner_read n ?self'"
      using eof pr assms(4) by (simp add: unfold)
    moreover have "ad_inv L S contents key wire out ?self'"
      using assms(3) eof law by (auto simp: ad_inv_def split: stream_decryptor_state.splits)
    moreover have "ad_mu ?self' < ad_mu self"
      using assms(4-6,7) by (cases "ad_state self") (simp_all add: ad_mu_def)
    ultimately show ?thesis
      unfolding read_round_def by blast
  next
    case bytes
    obtain res self' where f: "feed_bytes_to_decryptor S bs (self\<lparr>ad_inner := r\<rparr>) = Some (res, self')"
      "is_ok res \<longrightarrow> ad_inv L S contents key wire out self' \<and> ad_mu self' < ad_mu self"
      "\<not> is_ok res \<longrightarrow> (\<forall>p. \<not> authentic L key wire p)"
      using feed_inv [OF assms(3,4) bytes(2) _ assms(1,7,5,6), of r] law bytes by auto
    then show ?thesis
      using pr bytes assms(4) by (cases res) (auto simp: unfold read_round_def read_outcome_def)
  qed
qed

lemma ad_inv_no_error: "ad_inv L S contents key wire out self \<Longrightarrow> ad_state self \<noteq> StreamDecryptorError"
  by (auto simp: ad_inv_def)

lemma poll_read_ok:
  assumes "stream_lib_ok L S" "length key = 64" "reader_ok inner_read contents" "0 < n"
    and "ad_inv L S contents key wire out self"
  shows "\<exists>y. poll_read S inner_read n self = Some y \<and> read_outcome L S inner_read contents key wire n out y"
  using assms(5)
proof (induction "ad_mu self" arbitrary: self rule: less_induct)
  case less
  show ?case
  proof (cases "ad_plaintext_buf self = [] \<and> ad_state self \<noteq> StreamDecryptorDone \<and> ad_state self \<noteq> StreamDecryptorError")
    case False
    then show ?thesis
      using drain_outcome [OF less.prems assms(4)] drain_nothing [of self n] less.prems ad_inv_no_error [OF less.prems]
      by (cases "ad_plaintext_buf self = []") (auto simp: poll_read.simps [of S inner_read n self] read_outcome_def)
  next
    case True
    then have "read_round L S inner_read contents key wire n out self"
      using eof_round [OF assms(1,2) less.prems] inner_round [OF assms(1,3) less.prems] by blast
    then show ?thesis
      using less.hyps unfolding read_round_def by metis
  qed
qed

lemma reads_inv:
  assumes "stream_lib_ok L S" "length key = 64" "reader_ok inner_read contents"
    and "reads S inner_read a out b" "ad_inv L S contents key wire [] a"
  shows "ad_inv L S contents key wire out b"
  using assms(4)
proof induction
  case (reads_bytes out b n bs c)
  then show ?case
    using poll_read_ok [OF assms(1-3) reads_bytes.hyps(2) reads_bytes.IH] by (auto simp: read_outcome_def)
next
  case (reads_pending out b n c)
  then show ?case
    using poll_read_ok [OF assms(1-3) reads_pending.hyps(2) reads_pending.IH] by (auto simp: read_outcome_def)
qed (rule assms(5))

lemma attachment_decryptor_new_Ok:
  assumes "attachment_decryptor_new key_slot ctx r = Ok a" "get_symmetric_key ctx key_slot = Ok (Aes256CbcHmacKey key)"
  shows "ad_inv L S contents key (contents r) [] a"
  using assms by (auto simp: attachment_decryptor_new_def ad_inv_def)



text \<open>What has been read is never longer than the attachment and its plaintext.\<close>

lemma ad_inv_length:
  assumes "stream_lib_ok L S" "ad_inv L S contents key wire out self" "authentic L key wire p"
  shows "length out \<le> length wire + length p"
proof (cases "ad_state self")
  case (LegacyStreamDecryptor dec)
  then obtain w where w: "dec_inv S key w (out @ ad_plaintext_buf self) dec" "wire = 2 # w @ contents (ad_inner self)"
    using assms(2) by (auto simp: ad_inv_def)
  have "length (out @ ad_plaintext_buf self) \<le> length w"
  proof (cases "length w < 48")
    case True
    then show ?thesis
      using w(1) by (simp add: dec_inv_def)
  next
    case False
    then show ?thesis
      using dec_mu_long(3) [OF assms(1) w(1) False] by simp
  qed
  then show ?thesis
    using w(2) by simp
qed (use assms(2,3) in \<open>auto simp: ad_inv_def authentic_def\<close>)

lemma reads_to_end:
  assumes "stream_lib_ok L S" "length key = 64" "reader_ok inner_read contents" "0 < n"
    and "\<forall>r m. \<exists>bs r'. inner_read r m = (Ready (Ok bs), r')" "authentic L key wire p"
    and "ad_inv L S contents key wire out b" "reads S inner_read a out b"
  shows "\<exists>b c. reads S inner_read a p b \<and> poll_read S inner_read n b = Some (Ready (Ok []), c)"
  using assms(7,8)
proof (induction "length wire + length p - length out" arbitrary: out b rule: less_induct)
  case less
  obtain y where y: "poll_read S inner_read n b = Some y" "read_outcome L S inner_read contents key wire n out y"
    using poll_read_ok [OF assms(1-4) less.prems(1)] by blast
  have "inner_read r m \<noteq> (Pending, r')" "inner_read r m \<noteq> (Ready (Err e), r')" for r m r' e
    using assms(5) by (metis prod.inject poll.distinct(1) poll.inject result.distinct(1))+
  then obtain bs c where c: "y = (Ready (Ok bs), c)"
    using y(2) assms(6) by (cases y) (auto simp: read_outcome_def split: poll.splits result.splits)
  then have inv: "ad_inv L S contents key wire (out @ bs) c"
    using y(2) by (simp add: read_outcome_def)
  show ?case
  proof (cases "bs = []")
    case True
    then have "out = p"
      using y(2) c assms(4,6) by (auto simp: read_outcome_def ad_inv_def authentic_def)
    then show ?thesis
      using less.prems(2) y(1) c True by blast
  next
    case False
    have "reads S inner_read a (out @ bs) c"
      using reads_bytes [OF less.prems(2) assms(4)] y(1) c by blast
    moreover have "length (out @ bs) \<le> length wire + length p"
      by (rule ad_inv_length [OF assms(1) inv assms(6)])
    then have "length wire + length p - length (out @ bs) < length wire + length p - length out"
      using False by (cases bs) auto
    ultimately show ?thesis
      using less.hyps inv by blast
  qed
qed

section \<open>The reference instance satisfies the contracts\<close>

lemma bytes_read_ok: "reader_ok bytes_read (\<lambda>r. r)"
  by (auto simp: reader_ok_def bytes_read_def)

lemma ref_stream_context_key:
  "get_symmetric_key ref_stream_context (symmetric_new_local (LocalId 1)) = Ok (Aes256CbcHmacKey ref_stream_key)"
  by (simp add: ref_stream_context_def add_local_symmetric_key_def get_symmetric_key_def symmetric_new_local_def
      basic.get_upsert Let_def)

lemma bytes_read_prompt: "\<forall>r m. \<exists>bs r'. bytes_read r m = (Ready (Ok bs), r')"
  by (simp add: bytes_read_def)

lemma ref_attachment_new:
  "attachment_decryptor_new (symmetric_new_local (LocalId 1)) ref_stream_context r =
     Ok \<lparr>ad_inner = r, ad_state = NeedDiscriminator (Aes256CbcHmacKey ref_stream_key), ad_plaintext_buf = [], ad_inner_eof = False\<rparr>"
  by (simp add: attachment_decryptor_new_def ref_stream_context_key)

lemma ref_attachment_end:
  "\<exists>a b c. attachment_decryptor_new (symmetric_new_local (LocalId 1)) ref_stream_context (2 # ref_stream) = Ok a
     \<and> reads stream_ref bytes_read a [1, 2, 3] b
     \<and> poll_read stream_ref bytes_read 5 b = Some (Ready (Ok []), c)"
proof -
  have "authentic stream_crypto_ref ref_stream_key (2 # ref_stream) [1, 2, 3]"
    by (simp add: authentic_def ref_stream_opens)
  from reads_to_end [OF stream_ref_ok ref_stream_key_length bytes_read_ok _ bytes_read_prompt this
      attachment_decryptor_new_Ok [OF ref_attachment_new ref_stream_context_key] reads_start, of 5]
  show ?thesis
    using ref_attachment_new [of "2 # ref_stream"] by auto
qed


section \<open>Properties\<close>

text \<open>C14: Every poll of the reader of an attachment with room in the buffer returns, and once the reader reports the
  end of the stream, the bytes it has given out are the authenticated plaintext of the whole attachment.\<close>

theorem attachment_read_is_authentic:
  assumes "stream_lib_ok L S" "length key = 64" "reader_ok inner_read contents"
    and "get_symmetric_key ctx key_slot = Ok (Aes256CbcHmacKey key)" "attachment_decryptor_new key_slot ctx r = Ok a"
    and "reads S inner_read a out b" "0 < n"
  shows "(\<exists>y. poll_read S inner_read n b = Some y)
     \<and> (\<forall>c. poll_read S inner_read n b = Some (Ready (Ok []), c) \<longrightarrow>
          (\<exists>w. contents r = 2 # w \<and> stream_open L key w = Ok out))"
proof -
  have inv: "ad_inv L S contents key (contents r) out b"
    by (rule reads_inv [OF assms(1-3,6) attachment_decryptor_new_Ok [OF assms(5,4)]])
  obtain y where y: "poll_read S inner_read n b = Some y" "read_outcome L S inner_read contents key (contents r) n out y"
    using poll_read_ok [OF assms(1-3,7) inv] by blast
  then show ?thesis
    using assms(7) by (auto simp: read_outcome_def ad_inv_def)
qed

theorem attachment_read_is_authentic_witness:
  "\<exists>a b c w. attachment_decryptor_new (symmetric_new_local (LocalId 1)) ref_stream_context (2 # ref_stream) = Ok a
     \<and> reads stream_ref bytes_read a [1, 2, 3] b \<and> poll_read stream_ref bytes_read 5 b = Some (Ready (Ok []), c)
     \<and> 2 # ref_stream = 2 # w \<and> stream_open stream_crypto_ref ref_stream_key w = Ok [1, 2, 3]"
proof -
  obtain a b c where e:
    "attachment_decryptor_new (symmetric_new_local (LocalId 1)) ref_stream_context (2 # ref_stream) = Ok a"
    "reads stream_ref bytes_read a [1, 2, 3] b" "poll_read stream_ref bytes_read 5 b = Some (Ready (Ok []), c)"
    using ref_attachment_end by blast
  then show ?thesis
    using attachment_read_is_authentic [OF stream_ref_ok ref_stream_key_length bytes_read_ok ref_stream_context_key e(1,2), of 5]
    by fastforce
qed

text \<open>C20: An authentic attachment is read to its end: if the reader underneath neither waits nor fails, repeated polls
  give out exactly the plaintext and then report the end of the stream.\<close>

theorem authentic_attachment_is_read:
  assumes "stream_lib_ok L S" "length key = 64" "reader_ok inner_read contents"
    and "get_symmetric_key ctx key_slot = Ok (Aes256CbcHmacKey key)" "attachment_decryptor_new key_slot ctx r = Ok a"
    and "\<forall>r m. \<exists>bs r'. inner_read r m = (Ready (Ok bs), r')" "0 < n"
    and "contents r = 2 # w" "stream_open L key w = Ok p"
  shows "\<exists>b c. reads S inner_read a p b \<and> poll_read S inner_read n b = Some (Ready (Ok []), c)"
proof -
  have "authentic L key (contents r) p"
    using assms(8,9) by (simp add: authentic_def)
  from reads_to_end [OF assms(1-3,7,6) this attachment_decryptor_new_Ok [OF assms(5,4)] reads_start] show ?thesis .
qed

theorem authentic_attachment_is_read_witness:
  "\<exists>a b c. attachment_decryptor_new (symmetric_new_local (LocalId 1)) ref_stream_context (2 # ref_stream) = Ok a
     \<and> reads stream_ref bytes_read a [1, 2, 3] b
     \<and> poll_read stream_ref bytes_read 2 b = Some (Ready (Ok []), c)"
proof -
  obtain b c where
    "reads stream_ref bytes_read
       \<lparr>ad_inner = 2 # ref_stream, ad_state = NeedDiscriminator (Aes256CbcHmacKey ref_stream_key), ad_plaintext_buf = [],
        ad_inner_eof = False\<rparr> [1, 2, 3] b" "poll_read stream_ref bytes_read 2 b = Some (Ready (Ok []), c)"
    using authentic_attachment_is_read [OF stream_ref_ok ref_stream_key_length bytes_read_ok ref_stream_context_key
        ref_attachment_new bytes_read_prompt _ refl ref_stream_opens, of 2] by auto
  with ref_attachment_new [of "2 # ref_stream"] show ?thesis
    by blast
qed

end
