(* ===== verification/Attachment_Writer_Laws.thy ===== *)
theory Attachment_Writer_Laws
  imports Attachment_Reader_Laws
begin

text \<open>
  The writer of an attachment gives out the one-shot encryption of the plaintext it has accepted, for every
  way in which the plaintext is cut into chunks and the writer underneath accepts its bytes.
\<close>

section \<open>The specification of a writer\<close>

text \<open>The contract of a writer: it receives what it says it has accepted.\<close>

definition writer_ok :: "'w async_write \<Rightarrow> ('w \<Rightarrow> bytes) \<Rightarrow> bool" where
  "writer_ok W received \<longleftrightarrow>
     (\<forall>w buf. case aw_poll_write W w buf of
        (Ready (Ok n), w') \<Rightarrow> n \<le> length buf \<and> received w' = received w @ take n buf
      | (_, w') \<Rightarrow> received w' = received w)
     \<and> (\<forall>w. received (snd (aw_poll_flush W w)) = received w)
     \<and> (\<forall>w. received (snd (aw_poll_shutdown W w)) = received w)"

text \<open>The ciphertext buffer of a capacity, holding \<open>bs\<close>, of which nothing has been emitted.\<close>

definition cb_holds :: "nat \<Rightarrow> bytes \<Rightarrow> ciphertext_buffer \<Rightarrow> bool" where
  "cb_holds cap bs cb \<longleftrightarrow>
     cb_size cb = length bs \<and> large_position (cb_inner cb) = length bs \<and> large_capacity (cb_inner cb) = cap
     \<and> length (large_inner (cb_inner cb)) = cap \<and> take (length bs) (large_inner (cb_inner cb)) = bs \<and> length bs \<le> cap"

text \<open>What the encryptor has reached after the plaintext \<open>p\<close>.\<close>

definition enc_inv ::
  "('e, 'd, 'h) stream_lib \<Rightarrow> bytes \<Rightarrow> bytes \<Rightarrow> nat \<Rightarrow> bytes \<Rightarrow> ('e, 'h) stream_encryptor \<Rightarrow> bool" where
  "enc_inv S key iv cap p enc \<longleftrightarrow>
     (\<exists>h. let n = length p div 16; run = enc_run S n (cbc_enc_new S (take 32 key) iv) p
      in mac_holds S (drop 32 key) h (iv @ fst run)
         \<and> cb_holds cap (fst run) (enc_ciphertext enc) \<and> cb_emitted_bytes (enc_ciphertext enc) = 0
         \<and> enc_plaintext enc = drop (16 * n) p \<and> encryptor_state enc = EncStreaming (snd run) h iv)"

text \<open>What the writer underneath has received, and what is queued for it.\<close>

definition ae_sent :: "('w \<Rightarrow> bytes) \<Rightarrow> ('w, 'e, 'h) attachment_encryptor \<Rightarrow> bytes" where
  "ae_sent received self = received (ae_inner self) @ drop (ae_pending_head self) (ae_pending_write self)"

text \<open>The state of the writer of an attachment that has accepted \<open>p\<close>, after \<open>base\<close>.\<close>

definition ae_inv ::
  "crypto_lib \<Rightarrow> ('e, 'd, 'h) stream_lib \<Rightarrow> ('w \<Rightarrow> bytes) \<Rightarrow> bytes \<Rightarrow> bytes \<Rightarrow> nat \<Rightarrow> bytes \<Rightarrow> bytes
   \<Rightarrow> ('w, 'e, 'h) attachment_encryptor \<Rightarrow> bool" where
  "ae_inv L S received key iv cap base p self \<longleftrightarrow>
     (case ae_state self of
        LegacyStreamEncryptor enc \<Rightarrow> enc_inv S key iv cap p enc \<and> ae_sent received self = base @ [2]
      | StreamEncryptorError _ \<Rightarrow> True
      | _ \<Rightarrow> ae_sent received self = base @ 2 # stream_seal L iv key p)"

text \<open>A writer that neither waits nor fails, and takes at least a byte.\<close>

definition writer_prompt :: "'w async_write \<Rightarrow> bool" where
  "writer_prompt W \<longleftrightarrow>
     (\<forall>w buf. buf \<noteq> [] \<longrightarrow> (\<exists>n w'. aw_poll_write W w buf = (Ready (Ok (Suc n)), w')))
     \<and> (\<forall>w. \<exists>w'. aw_poll_shutdown W w = (Ready (Ok ()), w'))"

text \<open>A sequence of polls of the writer, and the plaintext it has accepted.\<close>

inductive writes ::
  "('e, 'd, 'h) stream_lib \<Rightarrow> 'w async_write \<Rightarrow> ('w, 'e, 'h) attachment_encryptor \<Rightarrow> bytes
   \<Rightarrow> ('w, 'e, 'h) attachment_encryptor \<Rightarrow> bool"
  for S W a where
  writes_start: "writes S W a [] a"
| writes_bytes: "writes S W a p b \<Longrightarrow> poll_write S W buf b = Some (Ready (Ok n), c) \<Longrightarrow> writes S W a (p @ take n buf) c"
| writes_pending: "writes S W a p b \<Longrightarrow> poll_write S W buf b = Some (Pending, c) \<Longrightarrow> writes S W a p c"
| writes_flush: "writes S W a p b \<Longrightarrow> poll_flush W b = (r, c) \<Longrightarrow> writes S W a p c"
| writes_shutdown: "writes S W a p b \<Longrightarrow> poll_shutdown S W b = Some (r, c) \<Longrightarrow> writes S W a p c"

text \<open>Writing chunks one after the other; each must be taken as a whole by one poll.\<close>

fun write_chunks ::
  "('e, 'd, 'h) stream_lib \<Rightarrow> 'w async_write \<Rightarrow> bytes list \<Rightarrow> ('w, 'e, 'h) attachment_encryptor
   \<Rightarrow> ('w, 'e, 'h) attachment_encryptor option" where
  "write_chunks S W [] a = Some a"
| "write_chunks S W (x # xs) a =
     (case poll_write S W x a of
        Some (Ready (Ok n), b) \<Rightarrow> if n = length x then write_chunks S W xs b else None
      | _ \<Rightarrow> None)"

text \<open>A writer that collects bytes, at most ten at a time.\<close>

definition bytes_write :: "bytes async_write" where
  "bytes_write = \<lparr>aw_poll_write = (\<lambda>w buf. (Ready (Ok (min 10 (length buf))), w @ take 10 buf)),
     aw_poll_flush = (\<lambda>w. (Ready (Ok ()), w)), aw_poll_shutdown = (\<lambda>w. (Ready (Ok ()), w))\<rparr>"


section \<open>The encryptor\<close>

lemma cb_holds_new: "cb_holds cap [] (ciphertext_buffer_new cap)"
  by (simp add: cb_holds_def ciphertext_buffer_new_def large_buffer_new_def)

lemma cb_holds_append:
  assumes "cb_holds cap bs cb"
  shows "ciphertext_buffer_append x cb = None \<and> length (bs @ x) > cap
     \<or> (\<exists>cb'. ciphertext_buffer_append x cb = Some cb' \<and> cb_holds cap (bs @ x) cb' \<and> length (bs @ x) \<le> cap
          \<and> cb_emitted_bytes cb' = cb_emitted_bytes cb)"
  using assms by (auto simp: cb_holds_def ciphertext_buffer_append_def large_buffer_append_def)

lemma enc_run_add:
  "enc_run S (m + n) e p =
     (fst (enc_run S m e p) @ fst (enc_run S n (snd (enc_run S m e p)) (drop (16 * m) p)),
      snd (enc_run S n (snd (enc_run S m e p)) (drop (16 * m) p)))"
  by (induction m arbitrary: e p) (auto simp: split_beta Let_def add.commute)

lemma enc_run_prefix:
  assumes "16 * n \<le> length p"
  shows "enc_run S n e (p @ x) = enc_run S n e p"
  using assms by (induction n arbitrary: e p) (simp_all add: split_beta Let_def)

lemma enc_run_length:
  assumes "stream_lib_ok L S" "16 * n \<le> length p"
  shows "length (fst (enc_run S n e p)) = 16 * n"
proof -
  have b: "length (fst (cbc_enc_block S e b)) = 16" if "length b = 16" for e b
    using assms(1) that unfolding stream_lib_ok_def by blast
  show ?thesis
    using assms(2) by (induction n arbitrary: e p) (simp_all add: split_beta Let_def b)
qed

text \<open>The loop encrypts the full blocks, if they fit.\<close>

lemma encrypt_full_blocks_run:
  assumes "mac_holds S k h (m @ bs)" "cb_holds cap bs cb" "cb_emitted_bytes cb = 0" "length b div 16 = n"
  shows "case encrypt_full_blocks S b e h cb of
       Ok (b', e', h', cb') \<Rightarrow>
         b' = drop (16 * n) b \<and> e' = snd (enc_run S n e b) \<and> mac_holds S k h' (m @ bs @ fst (enc_run S n e b))
         \<and> cb_holds cap (bs @ fst (enc_run S n e b)) cb' \<and> cb_emitted_bytes cb' = 0
     | Err _ \<Rightarrow> length (bs @ fst (enc_run S n e b)) > cap"
  using assms
proof (induction n arbitrary: b e h cb bs)
  case 0
  then have "length b < 16"
    by (simp add: div_eq_0_iff)
  then show ?case
    using "0.prems" by (subst encrypt_full_blocks.simps) (simp add: read_plaintext_block_def stream_sizes)
next
  case (Suc n)
  let ?c = "fst (cbc_enc_block S e (take 16 b))" and ?e = "snd (cbc_enc_block S e (take 16 b))"
  have long: "\<not> length b < 16" and n: "length (drop 16 b) div 16 = n"
    using Suc.prems(4) by auto
  have loop: "encrypt_full_blocks S b e h cb =
      (case ciphertext_buffer_append ?c cb of
         None \<Rightarrow> Err (drop 16 b, cb)
       | Some cb' \<Rightarrow> encrypt_full_blocks S (drop 16 b) ?e (mac_update S h ?c) cb')"
    using long by (subst encrypt_full_blocks.simps)
      (simp add: read_plaintext_block_def stream_sizes validator_read_block_def split_beta Let_def split: option.split)
  have run: "enc_run S (Suc n) e b = (?c @ fst (enc_run S n ?e (drop 16 b)), snd (enc_run S n ?e (drop 16 b)))"
    by (simp add: split_beta Let_def)
  have mac: "mac_holds S k (mac_update S h ?c) (m @ bs @ ?c)"
    using mac_holds_update [OF Suc.prems(1), of ?c] by simp
  from cb_holds_append [OF Suc.prems(2), of ?c] show ?case
  proof (elim disjE exE conjE)
    fix cb'
    assume cb': "ciphertext_buffer_append ?c cb = Some cb'" "cb_holds cap (bs @ ?c) cb'"
      "cb_emitted_bytes cb' = cb_emitted_bytes cb"
    show ?thesis
      using Suc.IH [OF mac cb'(2) _ n, of ?e] cb'(1,3) Suc.prems(3) unfolding loop run
      by (auto simp: add.commute split: result.splits)
  qed (simp add: loop run del: enc_run.simps)
qed

lemma enc_inv_new:
  assumes "encryptor_try_new S iv (Aes256CbcHmacKey key) plaintext_size = Ok enc"
  shows "enc_inv S key iv ((plaintext_size div 16 + 1) * 16) [] enc"
  using assms mac_holds_new [of S "drop 32 key" iv]
  by (auto simp: encryptor_try_new_def enc_inv_def split_to_subkeys_def stream_sizes cb_holds_new ciphertext_buffer_new_def
      cb_holds_def large_buffer_new_def Let_def)

lemma full_blocks_add: "length (drop (16 * (length p div 16)) p @ x) div 16 + length p div 16 = length (p @ x) div 16"
proof -
  have "length p + length x = 16 * (length p div 16) + (length p mod 16 + length x)"
    by simp
  then have "(length p + length x) div 16 = length p div 16 + (length p mod 16 + length x) div 16"
    by (metis div_mult_self4 add.commute zero_neq_numeral)
  then show ?thesis
    by (simp add: minus_mult_div_eq_mod)
qed

lemma enc_inv_update:
  assumes "stream_lib_ok L S" "enc_inv S key iv cap p enc"
  shows "\<exists>r enc'. encryptor_update S x False enc = Some (r, enc')
     \<and> (r = EncNeedMoreData \<and> enc_inv S key iv cap (p @ x) enc'
          \<or> r = StreamEncryptionError \<and> cap < 16 * (length (p @ x) div 16))"
proof -
  let ?n = "length p div 16" and ?e = "cbc_enc_new S (take 32 key) iv"
  let ?b = "drop (16 * ?n) p @ x"
  let ?k = "length ?b div 16"
  define run where "run = enc_run S ?n ?e p"
  obtain h where h: "mac_holds S (drop 32 key) h (iv @ fst run)" "cb_holds cap (fst run) (enc_ciphertext enc)"
    "cb_emitted_bytes (enc_ciphertext enc) = 0" "enc_plaintext enc = drop (16 * ?n) p"
    "encryptor_state enc = EncStreaming (snd run) h iv"
    using assms(2) unfolding enc_inv_def Let_def run_def by blast
  have n: "length (p @ x) div 16 = ?n + ?k"
    using full_blocks_add [of p x] by simp
  have "?b = drop (16 * ?n) (p @ x)"
    by simp
  then have whole: "enc_run S (length (p @ x) div 16) ?e (p @ x) =
      (fst run @ fst (enc_run S ?k (snd run) ?b), snd (enc_run S ?k (snd run) ?b))"
    unfolding n enc_run_add [of S ?n] run_def using enc_run_prefix [of ?n p S ?e x] by simp
  have rest: "drop (16 * (length (p @ x) div 16)) (p @ x) = drop (16 * ?k) ?b"
    unfolding n \<open>?b = _\<close> by (simp only: drop_drop distrib_left add.commute)
  show ?thesis
  proof (cases "encrypt_full_blocks S ?b (snd run) h (enc_ciphertext enc)")
    case (Ok y)
    obtain b' e' h' cb' where y: "y = (b', e', h', cb')"
      by (metis prod_cases4)
    let ?enc = "\<lparr>enc_ciphertext = cb', enc_plaintext = b', encryptor_state = EncStreaming e' h' iv\<rparr>"
    have "enc_inv S key iv cap (p @ x) ?enc"
      using encrypt_full_blocks_run [OF h(1-3) refl, of ?b "snd run"] unfolding enc_inv_def Let_def whole rest Ok y
      by (simp del: drop_append)
    moreover have "encryptor_update S x False enc = Some (EncNeedMoreData, ?enc)"
      using h(4,5) Ok y by (simp add: encryptor_update_def)
    ultimately show ?thesis
      by blast
  next
    case (Err y)
    have "16 * (length (p @ x) div 16) \<le> length (p @ x)"
      by (rule times_div_less_eq_dividend)
    then have "length (fst run @ fst (enc_run S ?k (snd run) ?b)) = 16 * (length (p @ x) div 16)"
      using enc_run_length [OF assms(1), of _ "p @ x" ?e] whole by (metis fst_conv)
    then show ?thesis
      using encrypt_full_blocks_run [OF h(1-3) refl, of ?b "snd run"] h(4,5) Err
      by (cases y) (simp add: encryptor_update_def del: drop_append)
  qed
qed

text \<open>The ciphertext is emitted to its end, whatever the size of the pieces.\<close>

lemma finalize_emitting:
  assumes "cb_holds cap bs (enc_ciphertext enc)" "cb_emitted_bytes (enc_ciphertext enc) \<le> length bs"
    and "encryptor_state enc = EncEmitting"
  shows "finalize_encryptor S wire enc = Some (Ok (wire @ drop (cb_emitted_bytes (enc_ciphertext enc)) bs))"
  using assms
proof (induction "length bs - cb_emitted_bytes (enc_ciphertext enc)" arbitrary: enc wire rule: less_induct)
  case less
  let ?cb = "enc_ciphertext enc"
  let ?k = "cb_emitted_bytes ?cb"
  note cb = less.prems(1) [unfolded cb_holds_def]
  show ?case
  proof (cases "?k = length bs")
    case True
    then show ?thesis
      using cb less.prems(3)
      by (subst finalize_encryptor.simps) (simp add: encryptor_update_def emit_chunk_def)
  next
    case False
    define m where "m = min (length bs - ?k) EMISSION_CHUNK_SIZE"
    let ?enc = "enc\<lparr>enc_ciphertext := ?cb\<lparr>cb_emitted_bytes := ?k + m\<rparr>\<rparr>"
    have lt: "?k < length bs" and m: "0 < m" "?k + m \<le> length bs"
      using False less.prems(2) by (auto simp: m_def EMISSION_CHUNK_SIZE_def)
    have "take m (drop ?k (take (length bs) (large_inner (cb_inner ?cb)))) = take m (drop ?k (large_inner (cb_inner ?cb)))"
      using m(2) by (simp add: drop_take min_def)
    then have "take m (drop ?k (large_inner (cb_inner ?cb))) = take m (drop ?k bs)"
      using cb by simp
    then have "emit_chunk ?cb = Some (Some (take m (drop ?k bs)), ?cb\<lparr>cb_emitted_bytes := ?k + m\<rparr>)"
      using cb lt m m_def [symmetric] by (simp add: emit_chunk_def large_buffer_index_def Let_def)
    then have "finalize_encryptor S wire enc = finalize_encryptor S (wire @ take m (drop ?k bs)) ?enc"
      using less.prems(3) by (subst finalize_encryptor.simps) (simp add: encryptor_update_def)
    also have "\<dots> = Some (Ok ((wire @ take m (drop ?k bs)) @ drop (?k + m) bs))"
      using less.hyps [of ?enc "wire @ take m (drop ?k bs)"] less.prems lt m by (simp add: cb_holds_def)
    also have "(wire @ take m (drop ?k bs)) @ drop (?k + m) bs = wire @ drop ?k bs"
      by (simp only: append_assoc append_take_drop_id drop_drop [symmetric] add.commute [of ?k])
    finally show ?thesis .
  qed
qed

text \<open>The end of the plaintext: the last block is padded and the whole wire payload comes out.\<close>

lemma seal_run:
  assumes "stream_lib_ok L S" "length key = 64" "length iv = 16"
    and "run = enc_run S (length p div 16) (cbc_enc_new S (take 32 key) iv) p"
    and "b = drop (16 * (length p div 16)) p @ replicate (16 - length p mod 16) (of_nat (16 - length p mod 16))"
    and "c = fst run @ fst (cbc_enc_block S (snd run) b)"
  shows "stream_seal L iv key p = iv @ hmac_sha256 L (drop 32 key) (iv @ c) @ c"
proof -
  let ?n = "length p div 16" and ?pad = "replicate (16 - length p mod 16) (of_nat (16 - length p mod 16) :: 8 word)"
  have pad: "pkcs7_pad p = p @ ?pad"
    by (simp add: pkcs7_pad_def Let_def)
  have "16 * ?n \<le> length p"
    by (rule times_div_less_eq_dividend)
  then have d: "drop (16 * ?n) (p @ ?pad) = b" and pre: "enc_run S ?n e (p @ ?pad) = enc_run S ?n e p" for e
    using assms(5) enc_run_prefix [of ?n p S e ?pad] by simp_all
  have "length b = 16"
    unfolding assms(5) by (simp add: minus_mult_div_eq_mod less_imp_le)
  then have one: "enc_run S 1 e b = cbc_enc_block S e b" for e
    by (simp add: split_beta)
  have "length (take 32 key) = 32"
    using assms(2) by simp
  then have "cbc_encrypt L (take 32 key) iv p = fst (enc_run S (?n + 1) (cbc_enc_new S (take 32 key) iv) (pkcs7_pad p))"
    using assms(1,3) unfolding stream_lib_ok_def by blast
  also have "\<dots> = c"
    unfolding pad enc_run_add [of S ?n 1] pre d one assms(4,6) by simp
  finally have "cbc_encrypt L (take 32 key) iv p = c" .
  then show ?thesis
    by (simp add: stream_seal_def Aes256CbcHmacSha256_encrypt_def split_to_subkeys_def calculate_mac_def ENC_KEY_SIZE_def Let_def)
qed

lemma last_update:
  assumes "enc_plaintext enc = rest" "encryptor_state enc = EncStreaming e h iv" "length rest < 16"
    and "b = rest @ replicate (16 - length rest) (of_nat (16 - length rest))" "x = fst (cbc_enc_block S e b)"
  shows "encryptor_update S [] True enc =
     Some (case ciphertext_buffer_append x (enc_ciphertext enc) of
         None \<Rightarrow> (StreamEncryptionError, \<lparr>enc_ciphertext = enc_ciphertext enc, enc_plaintext = [], encryptor_state = EncError\<rparr>)
       | Some out \<Rightarrow> (EncryptedChunk (iv @ mac_finalize S (mac_update S h x)),
           \<lparr>enc_ciphertext = out, enc_plaintext = [], encryptor_state = EncEmitting\<rparr>))"
proof -
  define k where "k = 16 - length rest"
  have b: "b = rest @ replicate k (of_nat k)" and "length b = 16"
    using assms(3,4) by (simp_all add: k_def)
  then have block: "read_plaintext_block (rest @ replicate k (of_nat k)) = Some (b, [])"
    by (simp add: read_plaintext_block_def stream_sizes)
  have "encrypt_full_blocks S rest e h (enc_ciphertext enc) = Ok (rest, e, h, enc_ciphertext enc)"
    using assms(3) by (subst encrypt_full_blocks.simps) (simp add: read_plaintext_block_def stream_sizes)
  then show ?thesis
    using assms(1-3) block k_def [symmetric]
    by (simp add: encryptor_update_def AES256_CBC_BLOCK_SIZE_def assms(5) split_beta Let_def header_to_bytes_def
        validator_read_block_def validator_end_stream_def split: option.split)
qed

lemma finalize_encryptor_run:
  assumes "stream_lib_ok L S" "length key = 64" "length iv = 16" "enc_inv S key iv cap p enc"
  shows "finalize_encryptor S [] enc = Some (Ok (stream_seal L iv key p))
     \<or> finalize_encryptor S [] enc = Some (Err StreamEncryptionFailed) \<and> cap < 16 * (length p div 16 + 1)"
proof -
  let ?rest = "drop (16 * (length p div 16)) p"
  define run where "run = enc_run S (length p div 16) (cbc_enc_new S (take 32 key) iv) p"
  define b :: bytes where "b = ?rest @ replicate (16 - length p mod 16) (of_nat (16 - length p mod 16))"
  define x where "x = fst (cbc_enc_block S (snd run) b)"
  obtain h where h: "mac_holds S (drop 32 key) h (iv @ fst run)" "cb_holds cap (fst run) (enc_ciphertext enc)"
    "cb_emitted_bytes (enc_ciphertext enc) = 0" "enc_plaintext enc = ?rest"
    "encryptor_state enc = EncStreaming (snd run) h iv"
    using assms(4) unfolding enc_inv_def Let_def run_def by blast
  have rest: "length ?rest = length p mod 16"
    by (simp add: minus_mult_div_eq_mod)
  have mac: "mac_finalize S (mac_update S h x) = hmac_sha256 L (drop 32 key) (iv @ fst run @ x)"
    using mac_holds_finalize [OF assms(1) mac_holds_update [OF h(1), of x]] by simp
  have seal: "stream_seal L iv key p = iv @ hmac_sha256 L (drop 32 key) (iv @ fst run @ x) @ fst run @ x"
    unfolding x_def by (rule seal_run [OF assms(1-3) run_def b_def refl])
  note last = last_update [OF h(4,5) _ b_def [folded rest] x_def, unfolded rest mac, simplified]
  from cb_holds_append [OF h(2), of x] show ?thesis
  proof (elim disjE exE conjE)
    fix cb
    assume cb: "ciphertext_buffer_append x (enc_ciphertext enc) = Some cb" "cb_holds cap (fst run @ x) cb"
      "cb_emitted_bytes cb = cb_emitted_bytes (enc_ciphertext enc)"
    let ?enc = "\<lparr>enc_ciphertext = cb, enc_plaintext = [], encryptor_state = EncEmitting\<rparr>"
    have "finalize_encryptor S wire ?enc = Some (Ok (wire @ fst run @ x))" for wire
      using finalize_emitting [of cap "fst run @ x" ?enc S wire] cb h(3) by simp
    then show ?thesis
      using last cb(1) seal by (subst finalize_encryptor.simps) simp
  next
    assume full: "ciphertext_buffer_append x (enc_ciphertext enc) = None" "cap < length (fst run @ x)"
    have "length (fst run) = 16 * (length p div 16)"
      unfolding run_def by (rule enc_run_length [OF assms(1) times_div_less_eq_dividend])
    moreover have "length b = 16"
      by (simp add: b_def minus_mult_div_eq_mod less_imp_le)
    then have "length x = 16"
      using assms(1) unfolding x_def stream_lib_ok_def by blast
    ultimately show ?thesis
      using full last by (subst (2) finalize_encryptor.simps) simp
  qed
qed


section \<open>The writer of an attachment\<close>

text \<open>Draining moves bytes from the queue to the writer underneath, and changes the state only to an error.\<close>

lemma writer_okD:
  assumes "writer_ok W received"
  shows "aw_poll_write W w buf = (Ready (Ok n), w') \<Longrightarrow> n \<le> length buf \<and> received w' = received w @ take n buf"
    and "aw_poll_write W w buf = (Ready (Err e), w') \<Longrightarrow> received w' = received w"
    and "aw_poll_write W w buf = (Pending, w') \<Longrightarrow> received w' = received w"
    and "aw_poll_flush W w = (r, w') \<Longrightarrow> received w' = received w"
    and "aw_poll_shutdown W w = (r, w') \<Longrightarrow> received w' = received w"
proof -
  have written: "case aw_poll_write W w buf of
      (Ready (Ok n), w') \<Rightarrow> n \<le> length buf \<and> received w' = received w @ take n buf
    | (_, w') \<Rightarrow> received w' = received w"
    and rest: "received (snd (aw_poll_flush W w)) = received w" "received (snd (aw_poll_shutdown W w)) = received w"
    using assms unfolding writer_ok_def by simp_all
  show "aw_poll_write W w buf = (Ready (Ok n), w') \<Longrightarrow> n \<le> length buf \<and> received w' = received w @ take n buf"
    "aw_poll_write W w buf = (Ready (Err e), w') \<Longrightarrow> received w' = received w"
    "aw_poll_write W w buf = (Pending, w') \<Longrightarrow> received w' = received w"
    "aw_poll_flush W w = (r, w') \<Longrightarrow> received w' = received w"
    "aw_poll_shutdown W w = (r, w') \<Longrightarrow> received w' = received w"
    using written rest by simp_all
qed

lemma drain_pending:
  assumes "poll_drain_pending W self = (r, self')" "writer_ok W received"
  shows "ae_sent received self' = ae_sent received self
    \<and> (case r of
         Ready (Ok _) \<Rightarrow> ae_pending_write self' = [] \<and> ae_pending_head self' = 0 \<and> ae_state self' = ae_state self
       | Ready (Err e) \<Rightarrow> ae_state self' = StreamEncryptorError e
       | Pending \<Rightarrow> ae_state self' = ae_state self)"
  using assms
proof (induction W self rule: poll_drain_pending.induct)
  case (1 W self)
  let ?buf = "drop (ae_pending_head self) (ae_pending_write self)"
  show ?case
  proof (cases "ae_pending_head self < length (ae_pending_write self)")
    case True
    obtain p w where pw: "aw_poll_write W (ae_inner self) ?buf = (p, w)"
      by fastforce
    consider (pending) "p = Pending" | (err) e where "p = Ready (Err e)" | (zero) "p = Ready (Ok 0)"
      | (some) n where "p = Ready (Ok n)" "n \<noteq> 0"
      by (metis poll.exhaust result.exhaust)
    then show ?thesis
    proof cases
      case some
      let ?self = "self\<lparr>ae_inner := w, ae_pending_head := ae_pending_head self + n\<rparr>"
      have "ae_sent received ?self = ae_sent received self"
        using writer_okD(1) [OF "1.prems"(2)] pw some by (simp add: ae_sent_def add.commute flip: drop_drop)
      then show ?thesis
        using "1.IH" [OF True pw [symmetric] some(1) refl some(2)] "1.prems" True pw some
        by (simp add: poll_drain_pending.simps [of W self] split: poll.splits result.splits)
    qed (use writer_okD(1-3) [OF "1.prems"(2)] "1.prems"(1) True pw in
        \<open>auto simp: poll_drain_pending.simps [of W self] ae_sent_def\<close>)
  next
    case False
    then show ?thesis
      using "1.prems"(1) by (auto simp: poll_drain_pending.simps [of W self] ae_sent_def)
  qed
qed

lemma drain_inv:
  assumes "writer_ok W received" "ae_inv L S received key iv cap base p self" "poll_drain_pending W self = (r, self')"
  shows "ae_inv L S received key iv cap base p self'"
  using drain_pending [OF assms(3,1)] assms(2)
  by (auto simp: ae_inv_def split: poll.splits result.splits stream_encryptor_state.splits)

lemma poll_write_inv:
  assumes "writer_ok W received" "ae_inv L S received key iv cap base p self" "poll_write S W buf self = Some (r, self')"
    and "stream_lib_ok L S"
  shows "ae_inv L S received key iv cap base (case r of Ready (Ok n) \<Rightarrow> p @ take n buf | _ \<Rightarrow> p) self'"
proof (cases "ae_state self")
  case (LegacyStreamEncryptor enc)
  obtain d b where d: "poll_drain_pending W self = (d, b)"
    by fastforce
  have b: "ae_inv L S received key iv cap base p b"
    by (rule drain_inv [OF assms(1,2) d])
  show ?thesis
  proof (cases "d = Pending \<or> (\<exists>e. ae_state b = StreamEncryptorError e) \<or> buf = []")
    case True
    then show ?thesis
      using assms(3) b d LegacyStreamEncryptor drain_pending [OF d assms(1)]
      by (auto simp: poll_write_def split: poll.splits result.splits stream_encryptor_state.splits)
  next
    case False
    then obtain u where "d = Ready (Ok u)"
      using drain_pending [OF d assms(1)] by (cases d) (auto split: result.splits)
    then have st: "ae_state b = LegacyStreamEncryptor enc" "d \<noteq> Pending"
      using drain_pending [OF d assms(1)] LegacyStreamEncryptor by auto
    then have inv: "enc_inv S key iv cap p enc" "ae_sent received b = base @ [2]"
      using b by (simp_all add: ae_inv_def)
    obtain res enc' where u: "encryptor_update S buf False enc = Some (res, enc')"
      "res = EncNeedMoreData \<and> enc_inv S key iv cap (p @ buf) enc' \<or> res = StreamEncryptionError"
      using enc_inv_update [OF assms(4) inv(1)] by blast
    then show ?thesis
      using assms(3) d LegacyStreamEncryptor st False inv(2)
      by (auto simp: poll_write_def ae_inv_def ae_sent_def split: poll.splits)
  qed
qed (use assms(2,3) in \<open>auto simp: poll_write_def ae_inv_def\<close>)

lemma poll_flush_inv:
  assumes "writer_ok W received" "ae_inv L S received key iv cap base p self" "poll_flush W self = (r, self')"
  shows "ae_inv L S received key iv cap base p self'"
proof -
  obtain d b where d: "poll_drain_pending W self = (d, b)"
    by fastforce
  have b: "ae_inv L S received key iv cap base p b"
    by (rule drain_inv [OF assms(1,2) d])
  have "ae_inv L S received key iv cap base p (b\<lparr>ae_inner := w\<rparr>)" if "aw_poll_flush W (ae_inner b) = (q, w)" for q w
    using b writer_okD(4) [OF assms(1) that]
    by (auto simp: ae_inv_def ae_sent_def split: stream_encryptor_state.splits)
  then show ?thesis
    using assms(3) b d by (auto simp: poll_flush_def split: poll.splits stream_encryptor_state.splits prod.splits)
qed

lemma shutdown_inner_inv:
  assumes "writer_ok W received" "ae_inv L S received key iv cap base p self" "shutdown_inner W self = (r, self')"
    and "\<forall>enc. ae_state self \<noteq> LegacyStreamEncryptor enc"
  shows "ae_inv L S received key iv cap base p self'
     \<and> (r = Ready (Ok ()) \<longrightarrow> received (ae_inner self') = base @ 2 # stream_seal L iv key p)"
proof -
  obtain d b where d: "poll_drain_pending W self = (d, b)"
    by fastforce
  have b: "ae_inv L S received key iv cap base p b"
    by (rule drain_inv [OF assms(1,2) d])
  obtain q w where qw: "aw_poll_shutdown W (ae_inner b) = (q, w)"
    by fastforce
  have w: "received w = received (ae_inner b)"
    by (rule writer_okD(5) [OF assms(1) qw])
  show ?thesis
    using assms(3,4) b d qw w drain_pending [OF d assms(1)]
    by (auto simp: shutdown_inner_def ae_inv_def ae_sent_def split: poll.splits result.splits stream_encryptor_state.splits)
qed

lemma poll_shutdown_inv:
  assumes "stream_lib_ok L S" "length key = 64" "length iv = 16"
    and "writer_ok W received" "ae_inv L S received key iv cap base p self"
  shows "\<exists>r self'. poll_shutdown S W self = Some (r, self') \<and> ae_inv L S received key iv cap base p self'
     \<and> (r = Ready (Ok ()) \<longrightarrow> received (ae_inner self') = base @ 2 # stream_seal L iv key p)"
proof -
  obtain d b where d: "poll_drain_pending W self = (d, b)"
    by fastforce
  have b: "ae_inv L S received key iv cap base p b"
    by (rule drain_inv [OF assms(4,5) d])
  note inner = shutdown_inner_inv [OF assms(4)]
  show ?thesis
  proof (cases "d = Pending \<or> (\<forall>enc. ae_state b \<noteq> LegacyStreamEncryptor enc)")
    case True
    obtain q c where "shutdown_inner W b = (q, c)"
      by fastforce
    then show ?thesis
      using True d b inner [OF b]
      by (cases "ae_state b") (auto simp: poll_shutdown_def split: poll.splits)
  next
    case False
    then obtain enc where enc: "ae_state b = LegacyStreamEncryptor enc" "d \<noteq> Pending"
      by blast
    then have "d = Ready (Ok ())"
      using drain_pending [OF d assms(4)] by (cases d) (auto split: result.splits)
    then have sent: "received (ae_inner b) = base @ [2]" and inv: "enc_inv S key iv cap p enc"
      using b enc drain_pending [OF d assms(4)] by (auto simp: ae_inv_def ae_sent_def)
    let ?c = "b\<lparr>ae_pending_write := stream_seal L iv key p, ae_pending_head := 0, ae_state := StreamEncryptorFinalized\<rparr>"
    have c: "ae_inv L S received key iv cap base p ?c"
      using sent by (simp add: ae_inv_def ae_sent_def)
    obtain q f where "shutdown_inner W ?c = (q, f)"
      by fastforce
    with inner [OF c this] finalize_encryptor_run [OF assms(1-3) inv] show ?thesis
      using d enc \<open>d = Ready (Ok ())\<close> by (auto simp: poll_shutdown_def ae_inv_def)
  qed
qed

lemma writes_inv:
  assumes "stream_lib_ok L S" "length key = 64" "length iv = 16" "writer_ok W received"
    and "writes S W a p b" "ae_inv L S received key iv cap base [] a"
  shows "ae_inv L S received key iv cap base p b"
  using assms(5)
proof induction
  case (writes_bytes p b buf n c)
  then show ?case
    using poll_write_inv [OF assms(4) writes_bytes.IH writes_bytes.hyps(2) assms(1)] by simp
next
  case (writes_pending p b buf c)
  then show ?case
    using poll_write_inv [OF assms(4) writes_pending.IH writes_pending.hyps(2) assms(1)] by simp
next
  case (writes_flush p b r c)
  then show ?case
    using poll_flush_inv [OF assms(4)] by blast
next
  case (writes_shutdown p b r c)
  then show ?case
    using poll_shutdown_inv [OF assms(1-4) writes_shutdown.IH] by auto
qed (rule assms(6))

lemma attachment_encryptor_new_Ok:
  assumes "attachment_encryptor_new S iv key_slot ctx w plaintext_size = Ok a"
    and "get_symmetric_key ctx key_slot = Ok (Aes256CbcHmacKey key)"
  shows "ae_inv L S received key iv ((plaintext_size div 16 + 1) * 16) (received w) [] a"
proof -
  obtain enc where "encryptor_try_new S iv (Aes256CbcHmacKey key) plaintext_size = Ok enc"
    by (simp add: encryptor_try_new_def split_beta Let_def)
  then show ?thesis
    using assms enc_inv_new
    by (auto simp: attachment_encryptor_new_def ae_inv_def ae_sent_def discriminator_byte_def)
qed

lemma drain_prompt:
  assumes "writer_prompt W"
  shows "\<exists>self'. poll_drain_pending W self = (Ready (Ok ()), self')"
  using assms
proof (induction W self rule: poll_drain_pending.induct)
  case (1 W self)
  let ?buf = "drop (ae_pending_head self) (ae_pending_write self)"
  show ?case
  proof (cases "ae_pending_head self < length (ae_pending_write self)")
    case True
    then have "?buf \<noteq> []"
      by simp
    then obtain n w where w: "aw_poll_write W (ae_inner self) ?buf = (Ready (Ok (Suc n)), w)"
      using "1.prems" unfolding writer_prompt_def by blast
    then show ?thesis
      using "1.IH" [OF True w [symmetric] refl refl] "1.prems" True by (simp add: poll_drain_pending.simps [of W self])
  qed (simp add: poll_drain_pending.simps [of W self])
qed

lemma drained:
  assumes "writer_prompt W" "writer_ok W received" "ae_inv L S received key iv cap base p self"
    and "ae_state self = LegacyStreamEncryptor enc"
  obtains b where "poll_drain_pending W self = (Ready (Ok ()), b)" "ae_state b = LegacyStreamEncryptor enc"
    "enc_inv S key iv cap p enc"
proof -
  obtain b where b: "poll_drain_pending W self = (Ready (Ok ()), b)"
    using drain_prompt [OF assms(1)] by blast
  moreover have "ae_state b = LegacyStreamEncryptor enc" "enc_inv S key iv cap p enc"
    using drain_pending [OF b assms(2)] assms(3,4) by (simp_all add: ae_inv_def)
  ultimately show ?thesis
    using that by blast
qed

lemma write_accepted:
  assumes "writer_prompt W" "writer_ok W received" "stream_lib_ok L S" "ae_inv L S received key iv cap base p self"
    and "ae_state self = LegacyStreamEncryptor enc" "16 * (length (p @ buf) div 16) \<le> cap"
  shows "\<exists>self' enc'. poll_write S W buf self = Some (Ready (Ok (length buf)), self') \<and> ae_state self' = LegacyStreamEncryptor enc'"
proof -
  obtain b where b: "poll_drain_pending W self = (Ready (Ok ()), b)" "ae_state b = LegacyStreamEncryptor enc"
    "enc_inv S key iv cap p enc"
    using drained [OF assms(1,2,4,5)] by blast
  obtain res enc' where "encryptor_update S buf False enc = Some (res, enc')" "res = EncNeedMoreData"
    using enc_inv_update [OF assms(3) b(3), of buf] assms(6) by auto
  then show ?thesis
    using b(1,2) assms(5) by (auto simp: poll_write_def)
qed

lemma write_chunks_snoc:
  "write_chunks S W xs a = Some b \<Longrightarrow> poll_write S W x b = Some (Ready (Ok (length x)), c) \<Longrightarrow>
   write_chunks S W (xs @ [x]) a = Some c"
  by (induction S W xs a rule: write_chunks.induct) (auto split: option.splits prod.splits poll.splits result.splits if_splits)

lemma chunks_accepted:
  assumes "stream_lib_ok L S" "length key = 64" "length iv = 16" "writer_prompt W" "writer_ok W received"
    and "ae_inv L S received key iv cap base [] a" "ae_state a = LegacyStreamEncryptor enc"
    and "16 * (length (concat cs) div 16) \<le> cap"
  shows "\<exists>b enc'. write_chunks S W cs a = Some b \<and> writes S W a (concat cs) b \<and> ae_state b = LegacyStreamEncryptor enc'"
  using assms(8)
proof (induction cs rule: rev_induct)
  case Nil
  then show ?case
    using writes_start assms(7) by auto
next
  case (snoc x xs)
  have "length (concat xs) div 16 \<le> length (concat (xs @ [x])) div 16"
    by (rule div_le_mono) simp
  then obtain b enc' where b: "writes S W a (concat xs) b" "ae_state b = LegacyStreamEncryptor enc'"
    and chunks: "write_chunks S W xs a = Some b"
    using snoc by fastforce
  have "ae_inv L S received key iv cap base (concat xs) b"
    by (rule writes_inv [OF assms(1-3,5) b(1) assms(6)])
  then obtain c enc'' where "poll_write S W x b = Some (Ready (Ok (length x)), c)" "ae_state c = LegacyStreamEncryptor enc''"
    using write_accepted [OF assms(4,5,1) _ b(2), of key iv cap base "concat xs" x] snoc.prems by auto
  then show ?case
    using writes_bytes [OF b(1)] write_chunks_snoc [OF chunks] by fastforce
qed

lemma shutdown_accepted:
  assumes "stream_lib_ok L S" "length key = 64" "length iv = 16" "writer_prompt W" "writer_ok W received"
    and "ae_inv L S received key iv cap base p self" "ae_state self = LegacyStreamEncryptor enc"
    and "16 * (length p div 16 + 1) \<le> cap"
  shows "\<exists>c. poll_shutdown S W self = Some (Ready (Ok ()), c)"
proof -
  obtain b where b: "poll_drain_pending W self = (Ready (Ok ()), b)" "ae_state b = LegacyStreamEncryptor enc"
    "enc_inv S key iv cap p enc"
    using drained [OF assms(4-7)] by blast
  let ?c = "b\<lparr>ae_pending_write := stream_seal L iv key p, ae_pending_head := 0, ae_state := StreamEncryptorFinalized\<rparr>"
  obtain d where d: "poll_drain_pending W ?c = (Ready (Ok ()), d)"
    using drain_prompt [OF assms(4)] by blast
  then have "ae_state d = StreamEncryptorFinalized"
    using drain_pending [OF d assms(5)] by simp
  moreover obtain w where "aw_poll_shutdown W (ae_inner d) = (Ready (Ok ()), w)"
    using assms(4) unfolding writer_prompt_def by blast
  ultimately have "\<exists>f. shutdown_inner W ?c = (Ready (Ok ()), f)"
    using d by (simp add: shutdown_inner_def)
  moreover have "finalize_encryptor S [] enc = Some (Ok (stream_seal L iv key p))"
    using finalize_encryptor_run [OF assms(1-3) b(3)] assms(8) by auto
  ultimately show ?thesis
    using b(1,2) by (simp add: poll_shutdown_def)
qed

lemma bytes_write_ok: "writer_ok bytes_write (\<lambda>w. w)"
  by (simp add: writer_ok_def bytes_write_def min_def)

lemma bytes_write_prompt: "writer_prompt bytes_write"
proof -
  have "\<exists>n. min 10 (length buf) = Suc n" if "buf \<noteq> []" for buf :: bytes
    using that by (cases buf) (auto simp: min_def intro: exI [of _ 9])
  then show ?thesis
    by (auto simp: writer_prompt_def bytes_write_def)
qed

lemma attachment_encryptor_new_state:
  assumes "attachment_encryptor_new S iv key_slot ctx w plaintext_size = Ok a"
    and "get_symmetric_key ctx key_slot = Ok (Aes256CbcHmacKey key)"
  obtains enc where "ae_state a = LegacyStreamEncryptor enc"
  using assms by (auto simp: attachment_encryptor_new_def encryptor_try_new_def split_beta Let_def)

lemma written_and_shut_down:
  assumes "stream_lib_ok L S" "length key = 64" "length iv = 16" "writer_ok W received" "writer_prompt W"
    and "get_symmetric_key ctx key_slot = Ok (Aes256CbcHmacKey key)"
    and "attachment_encryptor_new S iv key_slot ctx w plaintext_size = Ok a" "length (concat cs) \<le> plaintext_size"
  shows "\<exists>b c. write_chunks S W cs a = Some b \<and> writes S W a (concat cs) b
     \<and> poll_shutdown S W b = Some (Ready (Ok ()), c)
     \<and> received (ae_inner c) = received w @ 2 # stream_seal L iv key (concat cs)"
proof -
  let ?cap = "(plaintext_size div 16 + 1) * 16"
  have start: "ae_inv L S received key iv ?cap (received w) [] a"
    by (rule attachment_encryptor_new_Ok [OF assms(7,6)])
  have "length (concat cs) div 16 \<le> plaintext_size div 16"
    by (rule div_le_mono [OF assms(8)])
  then have fits: "16 * (length (concat cs) div 16) \<le> ?cap" "16 * (length (concat cs) div 16 + 1) \<le> ?cap"
    by simp_all
  obtain enc where "ae_state a = LegacyStreamEncryptor enc"
    using attachment_encryptor_new_state [OF assms(7,6)] .
  from chunks_accepted [OF assms(1-3,5,4) start this fits(1)] obtain b enc' where
    b: "writes S W a (concat cs) b" "ae_state b = LegacyStreamEncryptor enc'" "write_chunks S W cs a = Some b"
    by blast
  have inv: "ae_inv L S received key iv ?cap (received w) (concat cs) b"
    by (rule writes_inv [OF assms(1-4) b(1) start])
  obtain c where "poll_shutdown S W b = Some (Ready (Ok ()), c)"
    using shutdown_accepted [OF assms(1-3,5,4) inv b(2) fits(2)] by blast
  then show ?thesis
    using poll_shutdown_inv [OF assms(1-4) inv] b(1,3) by auto
qed

lemma ref_encryptor_new:
  "\<exists>a. attachment_encryptor_new stream_ref (replicate 16 0) (symmetric_new_local (LocalId 1)) ref_stream_context ([9] :: bytes) n = Ok a"
  by (simp add: attachment_encryptor_new_def ref_stream_context_key encryptor_try_new_def split_beta Let_def)


section \<open>Properties\<close>

text \<open>C15: However the plaintext is handed to the writer of an attachment, and however the writer underneath accepts
  bytes, shutting down returns; and once it succeeds, the writer underneath has received the discriminator and a stream
  that decrypts to exactly the plaintext that was accepted.\<close>

theorem attachment_write_roundtrip:
  assumes "cbc_ok L" "stream_lib_ok L S" "length key = 64" "length iv = 16" "writer_ok W received"
    and "get_symmetric_key ctx key_slot = Ok (Aes256CbcHmacKey key)"
    and "attachment_encryptor_new S iv key_slot ctx w plaintext_size = Ok a" "writes S W a p b"
  shows "\<exists>r c. poll_shutdown S W b = Some (r, c)
     \<and> (r = Ready (Ok ()) \<longrightarrow>
          (\<exists>wire. received (ae_inner c) = received w @ 2 # wire \<and> stream_open L key wire = Ok p))"
proof -
  have "ae_inv L S received key iv ((plaintext_size div 16 + 1) * 16) (received w) p b"
    by (rule writes_inv [OF assms(2-5,8) attachment_encryptor_new_Ok [OF assms(7,6)]])
  from poll_shutdown_inv [OF assms(2-5) this] show ?thesis
    using open_sealed [OF assms(1-4)] by blast
qed

theorem attachment_write_roundtrip_witness:
  "\<exists>a b c wire. attachment_encryptor_new stream_ref (replicate 16 0) (symmetric_new_local (LocalId 1)) ref_stream_context ([9] :: bytes) 3 = Ok a
     \<and> writes stream_ref bytes_write a [1, 2, 3] b \<and> poll_shutdown stream_ref bytes_write b = Some (Ready (Ok ()), c)
     \<and> ae_inner c = [9, 2] @ wire \<and> stream_open stream_crypto_ref ref_stream_key wire = Ok [1, 2, 3]"
proof -
  have iv: "length (replicate 16 0 :: bytes) = 16"
    by simp
  obtain a where a: "attachment_encryptor_new stream_ref (replicate 16 0) (symmetric_new_local (LocalId 1)) ref_stream_context ([9] :: bytes) 3 = Ok a"
    using ref_encryptor_new by blast
  obtain b c where b: "writes stream_ref bytes_write a [1, 2, 3] b" "poll_shutdown stream_ref bytes_write b = Some (Ready (Ok ()), c)"
    using written_and_shut_down [OF stream_ref_ok ref_stream_key_length iv bytes_write_ok bytes_write_prompt
        ref_stream_context_key a, of "[[1, 2], [3]]"] by auto
  show ?thesis
    using attachment_write_roundtrip [OF stream_crypto_ref_cbc stream_ref_ok ref_stream_key_length iv bytes_write_ok
        ref_stream_context_key a b(1)] a b by fastforce
qed

text \<open>C21: A plaintext of at most the declared size, cut into any chunks, is accepted as a whole: if the writer
  underneath neither waits nor fails, one poll for each chunk, in order, takes the whole chunk, the shutdown then
  succeeds, and the result is the one-shot encryption of the plaintext.\<close>

theorem declared_size_suffices:
  assumes "stream_lib_ok L S" "length key = 64" "length iv = 16" "writer_ok W received" "writer_prompt W"
    and "get_symmetric_key ctx key_slot = Ok (Aes256CbcHmacKey key)"
    and "attachment_encryptor_new S iv key_slot ctx w plaintext_size = Ok a" "length (concat cs) \<le> plaintext_size"
  shows "\<exists>b c. write_chunks S W cs a = Some b \<and> poll_shutdown S W b = Some (Ready (Ok ()), c)
     \<and> received (ae_inner c) = received w @ 2 # stream_seal L iv key (concat cs)"
  using written_and_shut_down [OF assms] by blast

theorem declared_size_suffices_witness:
  "\<exists>a b c. attachment_encryptor_new stream_ref (replicate 16 0) (symmetric_new_local (LocalId 1)) ref_stream_context ([9] :: bytes) 4 = Ok a
     \<and> write_chunks stream_ref bytes_write [[1], [2, 3]] a = Some b
     \<and> poll_shutdown stream_ref bytes_write b = Some (Ready (Ok ()), c) \<and> ae_inner c = 9 # 2 # ref_stream"
proof -
  have iv: "length (replicate 16 0 :: bytes) = 16"
    by simp
  obtain a where a: "attachment_encryptor_new stream_ref (replicate 16 0) (symmetric_new_local (LocalId 1)) ref_stream_context ([9] :: bytes) 4 = Ok a"
    using ref_encryptor_new by blast
  show ?thesis
    using declared_size_suffices [OF stream_ref_ok ref_stream_key_length iv bytes_write_ok bytes_write_prompt
        ref_stream_context_key a, of "[[1], [2, 3]]"] a by (auto simp: ref_stream_def)
qed

end
