(* ===== verification/Spec2Isabelle.thy ===== *)
theory Spec2Isabelle
  imports Key_Envelopes Ipc_Client Shared_Unlock_Laws Password_Generator Vault_Items Totp Attachment_Writer_Laws
begin

text \<open>
  A verification of the cryptographic core of the Bitwarden SDK, of the protocols between its clients, and of some of the
  vault features built on it.  Paths are relative to \<open>src/crates\<close>.

  \<^bold>\<open>The parts of the program and how they interact.\<close>  \<open>bitwarden-crypto\<close> has the keys, the ciphers and the key store.  A
  client never handles key bytes: it opens a context on the store and names keys by slots.  Every encryption goes from the
  context through an \<open>EncString\<close> or an envelope to a COSE message or to the older AES-CBC-HMAC format, and from there to a
  cipher.  Keys that protect the user key come from passwords, PINs, devices and key connectors.  \<open>bitwarden-vault\<close> and
  \<open>bitwarden-collections\<close> encrypt their items with the store.  Attachments are too large for that and are encrypted as
  streams.  \<open>bitwarden-ipc\<close> carries messages between the processes of a device, in fragments;
  \<open>bitwarden-shared-unlock\<close> uses it to lock and unlock the clients of a device together.  \<open>bitwarden-generators\<close> makes
  passwords.

  \<^bold>\<open>How the code is represented.\<close>  A struct is a record, an enum a datatype, and a function a HOL function with the
  branches of the source.  An operation on \<open>&mut self\<close> returns the new state, also if it fails.  Errors are values of
  \<open>result\<close>; a panic is \<open>None\<close>.  Random bytes, clocks and other inputs from the environment are arguments.  Code of other
  crates is a parameter: a record of functions, with a predicate that states its documented behaviour (\<open>crypto_lib_ok\<close>,
  \<open>stream_lib_ok\<close>, \<open>reader_ok\<close>, \<open>rng_ok\<close> and others).  \<open>Reference_Libs\<close> and the witnesses give executable instances, so
  that these hypotheses are known to be satisfiable.

  \<^bold>\<open>The theories.\<close>

  \<^item> \<open>Prelude\<close>: results, byte strings, the operations of Rust's standard library, and the facts about them.

  \<^item> \<open>Encoding\<close>: \<open>bitwarden-encoding\<close>.  The locale \<open>text_codec\<close> is the contract of an encoded value, for Base64 and
    Base64URL.

  \<^item> \<open>Crypto_Types\<close>, \<open>Coset\<close>, \<open>Padding\<close>, \<open>Hazmat\<close>: shared types, \<open>cose/mod.rs\<close>, padding, and
    \<open>hazmat/symmetric_encryption\<close>.  The locale \<open>aead_cipher\<close> is the contract of a cipher, interpreted on all four.  The
    input of the MAC is injective.

  \<^item> \<open>Symmetric_Key\<close>, \<open>Cose_Symmetric\<close>, \<open>Enc_String\<close>: keys and their serializations, \<open>cose/symmetric.rs\<close> (locale
    \<open>cose_framing\<close>) and \<open>enc_string\<close>.  Keys and strings survive their text and byte formats, what is encrypted is
    decrypted to the same content and format, and a key is only used for the operations it allows.

  \<^item> \<open>Master_Key\<close>, \<open>Shared_Key\<close>, \<open>Key_Rotation\<close>: key derivation with its limits, the protection of the user key by other
    keys (locale \<open>user_key_protector\<close>), RSA encapsulation, trusted devices, and rotateable key sets.

  \<^item> \<open>Key_Store\<close>, \<open>Key_Store_Laws\<close>: \<open>store\<close>.  The locale \<open>store_backend\<close> is the contract of a backend; \<open>slot_family\<close> has the
    code that symmetric, private and signing keys share.  Shown are the laws of every operation of a context, that the
    parallel list operations are itemwise, and the invariant of the lock around the store under every interleaving.

  \<^item> \<open>Envelope_Headers\<close>, \<open>Envelopes\<close>, \<open>Key_Envelopes\<close>: \<open>safe\<close>.  The locale \<open>namespaced\<close> is the contract of a content
    namespace, interpreted on those of the four envelopes.  What is sealed is unsealed in its namespace, and unsealing
    succeeds only after its checks.

  \<^item> \<open>Attachment_Stream\<close>, \<open>Attachment_Stream_Laws\<close>, \<open>Attachment_Reader_Laws\<close>, \<open>Attachment_Writer_Laws\<close>: \<open>stream\<close>.  For
    every division into chunks the streaming cipher agrees with the one-shot cipher of \<open>Hazmat\<close>.  The reader reports the
    end only of an authentic attachment that it has given out, and reaches it; the writer writes a stream that the reader
    accepts, if the declared size suffices.

  \<^item> \<open>Collection_Tree\<close>, \<open>Vault_Items\<close>, \<open>Totp\<close>: the tree of collections and its relations; folders, password history and
    collections as encrypted items (locale \<open>encryptable_item\<close>); one-time passwords.

  \<^item> \<open>Password_Generator\<close>: a password has the length and the characters that were asked for.  It obeys the limit on runs of
    equal characters, except where the repair of the source can not separate them, which the theorem describes.

  \<^item> \<open>Ipc\<close>, \<open>Ipc_Laws\<close>, \<open>Ipc_Client\<close>: fragmentation and the client.  The reassembler refines a specification in which a
    fragment concerns only its own message; its memory is bounded; a message whose fragments arrive in time reaches the
    subscribers, whatever other traffic there is.

  \<^item> \<open>Shared_Unlock\<close>, \<open>Shared_Unlock_Laws\<close>: the peer with its handlers.  The freshest report wins in every order, two peers
    agree after an exchange, a lock survives a reload, and pages of other origins learn nothing.

  \<^bold>\<open>Loops, bounds and integers.\<close>  There is no fuel.  A loop over a list or a counter is structural; \<open>chunks\<close>,
  \<open>repair_loop\<close>, \<open>encrypt_full_blocks\<close> and \<open>poll_drain_pending\<close> have a measure.  Loops that depend on a parameter are
  partial functions: \<open>fragments_collect\<close> and \<open>send_fragments\<close>, which are shown to return for every message that can be
  split; \<open>ancestor_idx\<close>, which returns on every tree that is built from items with distinct ids; \<open>finalize_encryptor\<close>, which returns for every
  state of an encryptor that is reached; and \<open>poll_read\<close>, which returns whenever there is room in the buffer, since every
  round makes the measure \<open>ad_mu\<close> smaller: it counts the bytes that are missing for the header and for a block beyond the
  one held back.  A \<open>usize\<close> is
  a natural number; \<open>u32\<close> and \<open>i64\<close> arithmetic that can overflow is written with words or with the check of the source.
  Sizes of attachments and buffers are assumed to fit a \<open>usize\<close>.

  \<^bold>\<open>Not modelled.\<close>  The algorithms of other crates (AES, HMAC, RSA, Argon2, CBOR, the Noise protocol) are parameters.
  Signing keys and signatures are not modelled apart from the message that envelopes hold.  The ciphers of the vault with
  their many field types, importers, exporters and sends are mostly conversions of data.  The core client,
  authentication, synchronization and account management are requests to the server around the operations above.  RPC
  handlers and discovery of \<open>bitwarden-ipc\<close>, passphrase and user name generators, API clients (generated code), bindings,
  passkeys, SSH keys and the products under \<open>bitwarden_license\<close> are left out.  Zeroization, logging, \<open>Debug\<close> output and
  the timing of comparisons can not be expressed in this model.  A handler of a peer, and an access to a reassembler or to
  a store, is one step.  For the store and the reassembler the locks of the source guarantee this, and their steps are
  interleaved in every order.  A handler of a shared unlock peer can be suspended at an \<open>await\<close>; for this only the accesses
  to the recorded states are shown to be safe in every interleaving (\<open>recorded_never_older\<close>).
\<close>

end
